theory Spec2Isabelle
  imports Complex_Main "HOL-Library.AList" "HOL-Library.Word"
begin

section \<open>Python values, text and exceptions\<close>

text \<open>
  The program is \<^verbatim>\<open>src/main.py\<close>: the function \<^verbatim>\<open>create_pdf_from_excel\<close>
  (lines 58-139) and the batch loop of the Convert button (lines 157-172).

  Text is a HOL \<open>string\<close>. A character outside ASCII is carried as its UTF-8 bytes (the
  cross mark U+274C of line 169 is three characters below). Raw file content
  (\<^verbatim>\<open>bytes\<close>) is a list of 8-bit words.
\<close>

type_synonym bytes = "8 word list"

text \<open>
  Exceptions are values. \<open>str_exn\<close> is Python's \<^verbatim>\<open>str(e)\<close>: the message, and for a
  \<^verbatim>\<open>KeyError\<close> the quoted key.
\<close>

datatype exn =
    KeyError string
  | IndexError string
  | AttributeError string
  | TypeError string
  | ValueError string
  | RuntimeError string
  | UnicodeEncodeError string
  | Exception string

definition quote :: "string \<Rightarrow> string" where
  "quote s = [CHR 0x27] @ s @ [CHR 0x27]"

fun str_exn :: "exn \<Rightarrow> string" where
  "str_exn (KeyError k) = quote k"
| "str_exn (IndexError m) = m"
| "str_exn (AttributeError m) = m"
| "str_exn (TypeError m) = m"
| "str_exn (ValueError m) = m"
| "str_exn (RuntimeError m) = m"
| "str_exn (UnicodeEncodeError m) = m"
| "str_exn (Exception m) = m"

text \<open>Sequencing: the first exception ends the computation.\<close>

definition and_then :: "exn + 'a \<Rightarrow> ('a \<Rightarrow> exn + 'b) \<Rightarrow> exn + 'b" where
  "and_then m f = (case m of Inl e \<Rightarrow> Inl e | Inr x \<Rightarrow> f x)"

text \<open>
  A 64-bit float is named by its value: \<open>Finite q\<close> is the float whose exact value is the
  rational \<open>q\<close> (both zeros are \<open>Finite 0\<close>), and there are the three values that are no
  numbers. Nothing is computed on floats here: how floats are added, how an integer
  becomes a float and how a float is printed belongs to numpy and Python and is taken
  from the \<open>library\<close> below.

  A cell of a spreadsheet, as pandas hands it to the program, is an integer, a float or
  text; a blank cell is the float \<open>NaN\<close>. Dates and booleans are not modelled.
\<close>

datatype float64 = Finite rat | NaN | PosInf | NegInf

datatype scalar = IntV int | FloatV float64 | StrV string

fun is_int :: "scalar \<Rightarrow> bool" where
  "is_int (IntV _) = True"
| "is_int _ = False"

fun is_number :: "scalar \<Rightarrow> bool" where
  "is_number (IntV _) = True"
| "is_number (FloatV _) = True"
| "is_number (StrV _) = False"

fun is_text :: "scalar \<Rightarrow> bool" where
  "is_text (StrV _) = True"
| "is_text _ = False"

fun int_of :: "scalar \<Rightarrow> int" where
  "int_of (IntV i) = i"
| "int_of _ = 0"

fun text_of :: "scalar \<Rightarrow> string" where
  "text_of (StrV s) = s"
| "text_of _ = []"

subsection \<open>\<^verbatim>\<open>str\<close> of an integer\<close>

fun nat_str :: "nat \<Rightarrow> string" where
  "nat_str n =
     (if n < 10 then [''0123456789'' ! n]
      else nat_str (n div 10) @ [''0123456789'' ! (n mod 10)])"

declare nat_str.simps [simp del]

definition int_str :: "int \<Rightarrow> string" where
  "int_str i = (if i < 0 then CHR ''-'' # nat_str (nat (- i)) else nat_str (nat i))"

subsection \<open>Decimal notation\<close>

text \<open>
  The decimal digits of a fraction \<open>0 \<le> r < 1\<close>, at most \<open>n\<close> of them, and a rational in
  positional notation with at least one digit after the point: \<^verbatim>\<open>400.0\<close>, \<^verbatim>\<open>250.5\<close>,
  \<^verbatim>\<open>-0.25\<close>. This is not \<^verbatim>\<open>str\<close> of a float; the two are related by \<open>shortest_repr\<close>
  below.
\<close>

fun frac_digits :: "nat \<Rightarrow> rat \<Rightarrow> string" where
  "frac_digits 0 r = []"
| "frac_digits (Suc n) r =
     (if r = 0 then []
      else (''0123456789'' ! nat \<lfloor>r * 10\<rfloor>) # frac_digits n (r * 10 - of_int \<lfloor>r * 10\<rfloor>))"

definition positional :: "rat \<Rightarrow> string" where
  "positional q =
     (if q < 0 then ''-'' else []) @ nat_str (nat \<lfloor>\<bar>q\<bar>\<rfloor>) @ ''.'' @
     (if \<bar>q\<bar> = of_int \<lfloor>\<bar>q\<bar>\<rfloor> then ''0'' else frac_digits 20 (\<bar>q\<bar> - of_int \<lfloor>\<bar>q\<bar>\<rfloor>))"

subsection \<open>String methods\<close>

text \<open>\<^verbatim>\<open>s.split(c)\<close>: the segments between the occurrences of \<open>c\<close>; never the empty list.\<close>

fun split_on :: "char \<Rightarrow> string \<Rightarrow> string list" where
  "split_on c [] = [[]]"
| "split_on c (x # xs) =
     (if x = c then [] # split_on c xs
      else (case split_on c xs of
              [] \<Rightarrow> [[x]]
            | p # ps \<Rightarrow> (x # p) # ps))"

text \<open>\<^verbatim>\<open>s.replace(a, b)\<close> for single characters.\<close>

definition replace :: "char \<Rightarrow> char \<Rightarrow> string \<Rightarrow> string" where
  "replace a b s = map (\<lambda>c. if c = a then b else c) s"

definition is_ascii :: "char \<Rightarrow> bool" where
  "is_ascii c = ((of_char c :: nat) < 128)"

definition is_lower_ascii :: "char \<Rightarrow> bool" where
  "is_lower_ascii c = (97 \<le> (of_char c :: nat) \<and> (of_char c :: nat) \<le> 122)"

definition is_upper_ascii :: "char \<Rightarrow> bool" where
  "is_upper_ascii c = (65 \<le> (of_char c :: nat) \<and> (of_char c :: nat) \<le> 90)"

definition is_cased :: "char \<Rightarrow> bool" where
  "is_cased c = (is_lower_ascii c \<or> is_upper_ascii c)"

definition to_upper :: "char \<Rightarrow> char" where
  "to_upper c = (if is_lower_ascii c then char_of ((of_char c :: nat) - 32) else c)"

definition to_lower :: "char \<Rightarrow> char" where
  "to_lower c = (if is_upper_ascii c then char_of ((of_char c :: nat) + 32) else c)"

text \<open>
  \<^verbatim>\<open>s.title()\<close> on ASCII text: a letter that follows a letter is lowered, any other
  letter is raised.
\<close>

fun title_from :: "bool \<Rightarrow> string \<Rightarrow> string" where
  "title_from previous_is_cased [] = []"
| "title_from previous_is_cased (c # cs) =
     (if previous_is_cased then to_lower c else to_upper c) # title_from (is_cased c) cs"

subsection \<open>\<^verbatim>\<open>Path(name).stem\<close>\<close>

text \<open>
  POSIX paths: the name is the last component, where empty components and \<^verbatim>\<open>.\<close> are
  dropped. The stem is the name up to its last dot, unless that dot is the first or the
  last character of the name (or there is none).
\<close>

definition path_name :: "string \<Rightarrow> string" where
  "path_name p =
     (case filter (\<lambda>c. c \<noteq> [] \<and> c \<noteq> ''.'') (split_on CHR ''/'' p) of
        [] \<Rightarrow> []
      | cs \<Rightarrow> last cs)"

text \<open>\<^verbatim>\<open>s.rfind(c)\<close>: the index of the last \<open>c\<close>, \<open>None\<close> for Python's \<open>-1\<close>.\<close>

definition rfind :: "char \<Rightarrow> string \<Rightarrow> nat option" where
  "rfind c s =
     (if c \<in> set s then Some (length s - Suc (length (takeWhile (\<lambda>x. x \<noteq> c) (rev s))))
      else None)"

definition stem :: "string \<Rightarrow> string" where
  "stem p =
     (let name = path_name p in
      case rfind CHR ''.'' name of
        None \<Rightarrow> name
      | Some i \<Rightarrow> if 0 < i \<and> Suc i < length name then take i name else name)"

section \<open>The environment: clock and file system\<close>

text \<open>
  \<^verbatim>\<open>datetime.now()\<close> reads a clock; \<^verbatim>\<open>open\<close>, \<^verbatim>\<open>pdf.image\<close> and \<^verbatim>\<open>os.remove\<close> touch
  the file system. Both are a state that the functions take and return. The clock is the
  sequence of its readings, with the count of those taken. A reading carries the calendar
  date, the time of day and the value of \<^verbatim>\<open>timestamp()\<close>.
\<close>

record datetime =
  year :: nat
  month :: nat
  day :: nat
  hour :: nat
  minute :: nat
  second :: nat
  timestamp :: float64

record world =
  clock :: "nat \<Rightarrow> datetime"
  reads :: nat
  files :: "string \<rightharpoonup> bytes"

definition datetime_now :: "world \<Rightarrow> datetime \<times> world" where
  "datetime_now w = (clock w (reads w), w\<lparr>reads := Suc (reads w)\<rparr>)"

definition zero_pad :: "nat \<Rightarrow> string \<Rightarrow> string" where
  "zero_pad n s = replicate (n - length s) CHR ''0'' @ s"

text \<open>
  \<^verbatim>\<open>strftime("%Y%m%d")\<close>, the year in four digits (below the year 1000, which no clock
  shows, the C library decides about the padding).
\<close>

definition strftime_Ymd :: "datetime \<Rightarrow> string" where
  "strftime_Ymd t =
     zero_pad 4 (nat_str (year t)) @ zero_pad 2 (nat_str (month t)) @
     zero_pad 2 (nat_str (day t))"

definition write_file :: "string \<Rightarrow> bytes \<Rightarrow> world \<Rightarrow> world" where
  "write_file path data w = w\<lparr>files := (files w)(path \<mapsto> data)\<rparr>"

definition os_remove :: "string \<Rightarrow> world \<Rightarrow> exn + world" where
  "os_remove path w =
     (if path \<in> dom (files w) then Inr (w\<lparr>files := (files w)(path := None)\<rparr>)
      else Inl (RuntimeError (''No such file or directory: '' @ quote path)))"

section \<open>The libraries\<close>

subsection \<open>The page and what lies outside the program\<close>

text \<open>
  The page under construction is the list of the calls made on it. PyFPDF keeps text as
  it is given and encodes it when the document is written, so a call of \<^verbatim>\<open>cell\<close> does not
  fail.
\<close>

datatype pdf_op =
    AddPage
  | SetFont string nat string
  | SetTextColor nat nat nat
  | Cell nat nat string nat nat
  | Image bytes nat

record pdf =
  orientation :: string
  unit_name :: string
  format :: string
  ops :: "pdf_op list"

text \<open>
  What the program calls and the repository does not contain is a parameter:
  \<^item> \<open>float_sum\<close>: \<^verbatim>\<open>Series.sum()\<close> of a column of floats (it skips \<open>NaN\<close> and rounds in an
    order of its own);
  \<^item> \<open>float_of_int\<close>: a 64-bit integer as a float;
  \<^item> \<open>float_str\<close>: \<^verbatim>\<open>str\<close> of a float;
  \<^item> \<open>unicode_title\<close>: \<^verbatim>\<open>str.title()\<close> on text that is not all ASCII;
  \<^item> \<open>load_image\<close>: what \<^verbatim>\<open>pdf.image(path, w)\<close> makes of the content of the file at
    \<open>path\<close>, or the exception it raises (its message may name the path);
  \<^item> \<open>pdf_output\<close>: \<^verbatim>\<open>pdf.output(dest='S').encode('latin-1')\<close>, the bytes of the
    document or the exception raised. The writer reads the clock (PyFPDF stamps the
    time of writing into the document), so it takes the reading.
\<close>

record library =
  float_sum :: "float64 list \<Rightarrow> float64"
  float_of_int :: "int \<Rightarrow> float64"
  float_str :: "float64 \<Rightarrow> string"
  unicode_title :: "string \<Rightarrow> string"
  load_image :: "string \<Rightarrow> bytes \<Rightarrow> exn + bytes"
  pdf_output :: "datetime \<Rightarrow> pdf \<Rightarrow> exn + bytes"

text \<open>\<^verbatim>\<open>str(v)\<close> of a cell, and \<^verbatim>\<open>s.title()\<close>.\<close>

fun py_str :: "library \<Rightarrow> scalar \<Rightarrow> string" where
  "py_str lib (IntV i) = int_str i"
| "py_str lib (FloatV x) = float_str lib x"
| "py_str lib (StrV s) = s"

definition title :: "library \<Rightarrow> string \<Rightarrow> string" where
  "title lib s = (if list_all is_ascii s then title_from False s else unicode_title lib s)"

definition FPDF :: "string \<Rightarrow> string \<Rightarrow> string \<Rightarrow> pdf" where
  "FPDF orient u fmt = \<lparr>orientation = orient, unit_name = u, format = fmt, ops = []\<rparr>"

definition call :: "pdf_op \<Rightarrow> pdf \<Rightarrow> pdf" where
  "call op doc = doc\<lparr>ops := ops doc @ [op]\<rparr>"

definition add_page :: "pdf \<Rightarrow> pdf" where
  "add_page doc = call AddPage doc"

text \<open>\<^verbatim>\<open>set_font(family, size, style)\<close>, \<^verbatim>\<open>set_text_color(r, g, b)\<close>, \<^verbatim>\<open>cell(w, h, txt, border, ln)\<close>.\<close>

definition set_font :: "string \<Rightarrow> nat \<Rightarrow> string \<Rightarrow> pdf \<Rightarrow> pdf" where
  "set_font family sz style doc = call (SetFont family sz style) doc"

definition set_text_color :: "nat \<Rightarrow> nat \<Rightarrow> nat \<Rightarrow> pdf \<Rightarrow> pdf" where
  "set_text_color r g b doc = call (SetTextColor r g b) doc"

definition cell :: "nat \<Rightarrow> nat \<Rightarrow> string \<Rightarrow> nat \<Rightarrow> nat \<Rightarrow> pdf \<Rightarrow> pdf" where
  "cell w h txt border nl doc = call (Cell w h txt border nl) doc"

text \<open>\<^verbatim>\<open>pdf.image(path, w)\<close> reads the file at \<open>path\<close>.\<close>

definition image :: "library \<Rightarrow> world \<Rightarrow> string \<Rightarrow> nat \<Rightarrow> pdf \<Rightarrow> exn + pdf" where
  "image lib w path wd doc =
     (case files w path of
        None \<Rightarrow> Inl (RuntimeError (''No such file or directory: '' @ quote path))
      | Some data \<Rightarrow>
          and_then (load_image lib path data) (\<lambda>img. Inr (call (Image img wd) doc)))"

subsection \<open>pandas\<close>

text \<open>
  An uploaded file has a name and a content. The content is given by what
  \<^verbatim>\<open>pd.read_excel\<close> makes of it: unreadable, or a workbook of named sheets, each a table.
  A table is its column labels in order and its rows, a row holding one cell per column.
  A label is a cell value (pandas keeps a numeric header cell as a number) and
  \<^verbatim>\<open>read_excel\<close> renames repeated headers, so that labels are distinct. A column of
  numbers holds integers only or floats only. Text that reads as a number or as a
  missing value (\<^verbatim>\<open>10\<close>, \<^verbatim>\<open>n/a\<close>) never arrives as text: pandas delivers the number, or
  \<open>NaN\<close>.
\<close>

record dataframe =
  columns :: "scalar list"
  rows :: "scalar list list"

datatype workbook = Unreadable string | Workbook "(string \<times> dataframe) list"

record upload =
  name :: string
  payload :: workbook

definition read_excel :: "workbook \<Rightarrow> string \<Rightarrow> exn + dataframe" where
  "read_excel wb sheet_name =
     (case wb of
        Unreadable msg \<Rightarrow> Inl (ValueError msg)
      | Workbook sheets \<Rightarrow>
          (case map_of sheets sheet_name of
             None \<Rightarrow> Inl (ValueError (''Worksheet named '' @ quote sheet_name @ '' not found''))
           | Some df \<Rightarrow> Inr df))"

text \<open>
  \<^verbatim>\<open>df.iterrows()\<close> hands out each row with one type for all its cells. As soon as a
  column holds text the cells stay as they are. In a table of numbers only, the integers
  become floats when some column holds floats.
\<close>

fun to_float :: "library \<Rightarrow> scalar \<Rightarrow> float64" where
  "to_float lib (IntV i) = float_of_int lib i"
| "to_float lib (FloatV x) = x"
| "to_float lib (StrV s) = NaN"

definition iterrows :: "library \<Rightarrow> dataframe \<Rightarrow> scalar list list" where
  "iterrows lib df =
     (if list_ex (list_ex is_text) (rows df) then rows df
      else if list_ex (list_ex (\<lambda>v. \<not> is_int v)) (rows df)
      then map (map (\<lambda>v. FloatV (to_float lib v))) (rows df)
      else rows df)"

text \<open>\<^verbatim>\<open>row[key]\<close> for a row of \<^verbatim>\<open>df.iterrows()\<close>, and \<^verbatim>\<open>df[key]\<close>.\<close>

definition row_get :: "dataframe \<Rightarrow> scalar list \<Rightarrow> string \<Rightarrow> exn + scalar" where
  "row_get df row key =
     (case map_of (zip (columns df) row) (StrV key) of
        None \<Rightarrow> Inl (KeyError key)
      | Some v \<Rightarrow> Inr v)"

fun collect :: "(exn + 'a) list \<Rightarrow> exn + 'a list" where
  "collect [] = Inr []"
| "collect (m # ms) = and_then m (\<lambda>x. and_then (collect ms) (\<lambda>xs. Inr (x # xs)))"

definition column :: "dataframe \<Rightarrow> string \<Rightarrow> exn + scalar list" where
  "column df key =
     (if StrV key \<in> set (columns df)
      then collect (map (\<lambda>row. row_get df row key) (rows df))
      else Inl (KeyError key))"

text \<open>
  \<^verbatim>\<open>Series.sum()\<close>. A column without entries gives the integer 0. A column of integers
  is added in 64 bits and wraps around. A column of floats is added by numpy. Any
  other column holds Python objects, text among them: blanks count as 0 and the
  entries are added from the left with Python's \<^verbatim>\<open>+\<close>, which concatenates text and
  raises \<^verbatim>\<open>TypeError\<close> between text and a number.
\<close>

definition wrap64 :: "int \<Rightarrow> int" where
  "wrap64 i = sint (word_of_int i :: 64 word)"

fun type_name :: "scalar \<Rightarrow> string" where
  "type_name (IntV _) = ''int''"
| "type_name (FloatV _) = ''float''"
| "type_name (StrV _) = ''str''"

text \<open>
  The type of \<^verbatim>\<open>a + b\<close> from the types of \<open>a\<close> and \<open>b\<close>, or the message of the
  \<^verbatim>\<open>TypeError\<close>; and the first message that adding a list from the left meets.
\<close>

definition add_types :: "string \<Rightarrow> string \<Rightarrow> string + string" where
  "add_types a b =
     (if a = ''str'' \<and> b = ''str'' then Inr ''str''
      else if a = ''str''
      then Inl (''can only concatenate str (not '' @ [CHR 0x22] @ b @ [CHR 0x22] @ '') to str'')
      else if b = ''str''
      then Inl (''unsupported operand type(s) for +: '' @ quote a @ '' and '' @ quote b)
      else if a = ''int'' \<and> b = ''int'' then Inr ''int''
      else Inr ''float'')"

fun first_type_error :: "string \<Rightarrow> string list \<Rightarrow> string" where
  "first_type_error a [] = []"
| "first_type_error a (b # bs) =
     (case add_types a b of Inl msg \<Rightarrow> msg | Inr c \<Rightarrow> first_type_error c bs)"

fun fillna :: "scalar \<Rightarrow> scalar" where
  "fillna (FloatV NaN) = IntV 0"
| "fillna v = v"

definition object_sum :: "scalar list \<Rightarrow> exn + scalar" where
  "object_sum cells =
     (if list_all is_text cells then Inr (StrV (concat (map text_of cells)))
      else (case map type_name cells of
              [] \<Rightarrow> Inr (IntV 0)
            | a # bs \<Rightarrow> Inl (TypeError (first_type_error a bs))))"

definition series_sum :: "library \<Rightarrow> scalar list \<Rightarrow> exn + scalar" where
  "series_sum lib col =
     (if col = [] then Inr (IntV 0)
      else if list_all is_int col then Inr (IntV (wrap64 (sum_list (map int_of col))))
      else if list_all is_number col then Inr (FloatV (float_sum lib (map (to_float lib) col)))
      else object_sum (map fillna col))"

section \<open>The program\<close>

subsection \<open>\<^verbatim>\<open>create_pdf_from_excel\<close>\<close>

text \<open>
  Lines 62-71: the invoice number and the date, from the stem of the file's name. The
  clock is read only when the stem has no hyphen.
\<close>

definition invoice_fields :: "string \<Rightarrow> world \<Rightarrow> (string \<times> string) \<times> world" where
  "invoice_fields filename w =
     (let parts = split_on CHR ''-'' filename in
      if length parts \<ge> 2 then ((parts ! 0, parts ! 1), w)
      else (case datetime_now w of (t, w') \<Rightarrow> ((filename, strftime_Ymd t), w')))"

text \<open>Lines 74-81: a new page with the two heading lines.\<close>

definition invoice_header :: "string \<Rightarrow> string \<Rightarrow> pdf" where
  "invoice_header invoice_nr date =
     (let pdf = FPDF ''P'' ''mm'' ''A4'';
          pdf = add_page pdf;
          pdf = set_font ''Times'' 16 ''B'' pdf;
          pdf = cell 50 8 (''Invoice nr.'' @ invoice_nr) 0 1 pdf;
          pdf = set_font ''Times'' 16 ''B'' pdf;
          pdf = cell 50 8 (''Date: '' @ date) 0 1 pdf
      in pdf)"

text \<open>
  Line 88: every label of the table is transformed, so a label that is not text raises
  \<^verbatim>\<open>AttributeError\<close>, whatever its position.
\<close>

fun title_columns :: "library \<Rightarrow> scalar list \<Rightarrow> exn + string list" where
  "title_columns lib [] = Inr []"
| "title_columns lib (StrV item # items) =
     and_then (title_columns lib items)
       (\<lambda>labels. Inr (title lib (replace CHR ''_'' CHR '' '' item) # labels))"
| "title_columns lib (item # items) =
     Inl (AttributeError (quote (type_name item) @ '' object has no attribute '' @
        quote ''replace''))"

definition list_get :: "'a list \<Rightarrow> nat \<Rightarrow> exn + 'a" where
  "list_get xs i =
     (if i < length xs then Inr (xs ! i) else Inl (IndexError ''list index out of range''))"

text \<open>Lines 87-95: the header row shows the labels at positions 0 to 4.\<close>

definition table_header :: "library \<Rightarrow> dataframe \<Rightarrow> pdf \<Rightarrow> exn + pdf" where
  "table_header lib df pdf0 =
     and_then (title_columns lib (columns df)) (\<lambda>labels.
       let pdf = set_font ''Times'' 10 ''B'' pdf0;
           pdf = set_text_color 80 80 80 pdf
       in
       and_then (list_get labels 0) (\<lambda>c0. let pdf = cell 30 8 c0 1 0 pdf in
       and_then (list_get labels 1) (\<lambda>c1. let pdf = cell 70 8 c1 1 0 pdf in
       and_then (list_get labels 2) (\<lambda>c2. let pdf = cell 30 8 c2 1 0 pdf in
       and_then (list_get labels 3) (\<lambda>c3. let pdf = cell 30 8 c3 1 0 pdf in
       and_then (list_get labels 4) (\<lambda>c4. let pdf = cell 30 8 c4 1 1 pdf in
       Inr pdf))))))"

text \<open>Lines 98-105: one row of the table per row of the sheet, its cells fetched by name.\<close>

definition table_row :: "library \<Rightarrow> dataframe \<Rightarrow> scalar list \<Rightarrow> pdf \<Rightarrow> exn + pdf" where
  "table_row lib df row pdf0 =
     (let pdf = set_font ''Times'' 10 [] pdf0;
          pdf = set_text_color 80 80 80 pdf
      in
      and_then (row_get df row ''product_id'') (\<lambda>v. let pdf = cell 30 8 (py_str lib v) 1 0 pdf in
      and_then (row_get df row ''product_name'') (\<lambda>v. let pdf = cell 70 8 (py_str lib v) 1 0 pdf in
      and_then (row_get df row ''amount_purchased'') (\<lambda>v. let pdf = cell 30 8 (py_str lib v) 1 0 pdf in
      and_then (row_get df row ''price_per_unit'') (\<lambda>v. let pdf = cell 30 8 (py_str lib v) 1 0 pdf in
      and_then (row_get df row ''total_price'') (\<lambda>v. let pdf = cell 30 8 (py_str lib v) 1 1 pdf in
      Inr pdf))))))"

fun table_rows :: "library \<Rightarrow> dataframe \<Rightarrow> scalar list list \<Rightarrow> pdf \<Rightarrow> exn + pdf" where
  "table_rows lib df [] pdf = Inr pdf"
| "table_rows lib df (row # rest) pdf =
     and_then (table_row lib df row pdf) (table_rows lib df rest)"

text \<open>Lines 108-119: the total row and the sentence below the table.\<close>

definition total_row :: "library \<Rightarrow> dataframe \<Rightarrow> pdf \<Rightarrow> exn + pdf" where
  "total_row lib df pdf0 =
     and_then (column df ''total_price'') (\<lambda>total_price.
     and_then (series_sum lib total_price) (\<lambda>total_sum.
       let pdf = set_font ''Times'' 10 [] pdf0;
           pdf = set_text_color 80 80 80 pdf;
           pdf = cell 30 8 [] 1 0 pdf;
           pdf = cell 70 8 [] 1 0 pdf;
           pdf = cell 30 8 [] 1 0 pdf;
           pdf = cell 30 8 [] 1 0 pdf;
           pdf = cell 30 8 (py_str lib total_sum) 1 1 pdf;
           pdf = set_font ''Times'' 10 ''B'' pdf;
           pdf = cell 30 8 (''The total price is '' @ py_str lib total_sum) 0 1 pdf
       in Inr pdf))"

text \<open>Lines 122-123.\<close>

definition company_line :: "string \<Rightarrow> pdf \<Rightarrow> pdf" where
  "company_line company_name pdf0 =
     (let pdf = set_font ''Times'' 10 ''B'' pdf0;
          pdf = cell 25 8 company_name 0 0 pdf
      in pdf)"

text \<open>
  Lines 126-133: the logo goes through a temporary file named after the time. When
  \<^verbatim>\<open>pdf.image\<close> raises, the file stays.
\<close>

definition add_logo :: "library \<Rightarrow> bytes option \<Rightarrow> pdf \<Rightarrow> world \<Rightarrow> (exn + pdf) \<times> world" where
  "add_logo lib logo_data pdf w =
     (case logo_data of
        None \<Rightarrow> (Inr pdf, w)
      | Some data \<Rightarrow>
          (case datetime_now w of (t, w1) \<Rightarrow>
             let logo_path = ''temp_logo_'' @ float_str lib (timestamp t) @ ''.png'';
                 w2 = write_file logo_path data w1
             in
             (case image lib w2 logo_path 10 pdf of
                Inl e \<Rightarrow> (Inl e, w2)
              | Inr pdf' \<Rightarrow>
                  (case os_remove logo_path w2 of
                     Inl e \<Rightarrow> (Inl e, w2)
                   | Inr w3 \<Rightarrow> (Inr pdf', w3)))))"

text \<open>Lines 62-133: the body of the \<^verbatim>\<open>try\<close> up to the finished page, with the stem.\<close>

definition draw_invoice ::
  "library \<Rightarrow> upload \<Rightarrow> string \<Rightarrow> bytes option \<Rightarrow> world \<Rightarrow> (exn + pdf \<times> string) \<times> world" where
  "draw_invoice lib file company_name logo_data w =
     (let filename = stem (name file) in
      case invoice_fields filename w of ((invoice_nr, date), w1) \<Rightarrow>
        (case and_then (read_excel (payload file) ''Sheet 1'') (\<lambda>df.
              and_then (table_header lib df (invoice_header invoice_nr date)) (\<lambda>pdf.
              and_then (table_rows lib df (iterrows lib df) pdf) (\<lambda>pdf.
              and_then (total_row lib df pdf) (\<lambda>pdf.
              Inr (company_line company_name pdf))))) of
           Inl e \<Rightarrow> (Inl e, w1)
         | Inr pdf \<Rightarrow>
             (case add_logo lib logo_data pdf w1 of
                (Inl e, w2) \<Rightarrow> (Inl e, w2)
              | (Inr pdf', w2) \<Rightarrow> (Inr (pdf', filename), w2))))"

text \<open>
  Lines 136-139: the document is written, at the time the clock then shows, and any
  exception of the body comes out as
  \<^verbatim>\<open>Exception("Error processing {file.name}: {str(e)}")\<close>.
\<close>

definition create_pdf_from_excel ::
  "library \<Rightarrow> upload \<Rightarrow> string \<Rightarrow> bytes option \<Rightarrow> world \<Rightarrow> (exn + bytes \<times> string) \<times> world" where
  "create_pdf_from_excel lib file company_name logo_data w =
     (case draw_invoice lib file company_name logo_data w of
        (Inl e, w1) \<Rightarrow>
          (Inl (Exception (''Error processing '' @ name file @ '': '' @ str_exn e)), w1)
      | (Inr (pdf, filename), w1) \<Rightarrow>
          (case datetime_now w1 of (t, w2) \<Rightarrow>
             (case pdf_output lib t pdf of
                Inl e \<Rightarrow>
                  (Inl (Exception (''Error processing '' @ name file @ '': '' @ str_exn e)), w2)
              | Inr pdf_bytes \<Rightarrow> (Inr (pdf_bytes, filename), w2))))"

subsection \<open>The batch loop\<close>

text \<open>
  Lines 157-172. \<^verbatim>\<open>pdf_files\<close> is a Python dictionary: an assignment to a key that is
  present replaces the value where it stands, a new key goes to the end. The progress
  bar and the status text are display only.
\<close>

record batch =
  pdf_files :: "(string \<times> bytes) list"
  errors :: "string list"

definition cross_mark :: string where
  "cross_mark = [CHR 0xE2, CHR 0x9D, CHR 0x8C]"

definition process_file ::
  "library \<Rightarrow> string \<Rightarrow> bytes option \<Rightarrow> upload \<Rightarrow> batch \<times> world \<Rightarrow> batch \<times> world" where
  "process_file lib company_name logo_data file s =
     (case s of (b, w) \<Rightarrow>
        (case create_pdf_from_excel lib file company_name logo_data w of
           (Inr (pdf_bytes, filename), w') \<Rightarrow>
             (b\<lparr>pdf_files := AList.update (filename @ ''.pdf'') pdf_bytes (pdf_files b)\<rparr>, w')
         | (Inl e, w') \<Rightarrow>
             (b\<lparr>errors := errors b @ [cross_mark @ '' '' @ name file @ '': '' @ str_exn e]\<rparr>,
              w')))"

definition convert ::
  "library \<Rightarrow> upload list \<Rightarrow> string \<Rightarrow> bytes option \<Rightarrow> world \<Rightarrow> batch \<times> world" where
  "convert lib uploaded_files company_name logo_data w =
     fold (process_file lib company_name logo_data) uploaded_files
       (\<lparr>pdf_files = [], errors = []\<rparr>, w)"

section \<open>Notions used in the statements\<close>

text \<open>The name under which a document is stored (line 166).\<close>

definition output_name :: "upload \<Rightarrow> string" where
  "output_name file = stem (name file) @ ''.pdf''"

text \<open>
  The results of \<^verbatim>\<open>create_pdf_from_excel\<close> for the sources of a batch, in the order of
  the loop, each in the state that the one before has left.
\<close>

fun outcomes ::
  "library \<Rightarrow> upload list \<Rightarrow> string \<Rightarrow> bytes option \<Rightarrow> world \<Rightarrow> (exn + bytes \<times> string) list" where
  "outcomes lib [] cn logo w = []"
| "outcomes lib (f # fs) cn logo w =
     fst (create_pdf_from_excel lib f cn logo w) #
     outcomes lib fs cn logo (snd (create_pdf_from_excel lib f cn logo w))"

text \<open>The entry of line 169, and the entries for the sources that failed.\<close>

definition error_entry :: "upload \<Rightarrow> exn \<Rightarrow> string" where
  "error_entry file e = cross_mark @ '' '' @ name file @ '': '' @ str_exn e"

fun error_entries :: "upload list \<Rightarrow> (exn + bytes \<times> string) list \<Rightarrow> string list" where
  "error_entries (f # fs) (Inl e # rs) = error_entry f e # error_entries fs rs"
| "error_entries (f # fs) (Inr r # rs) = error_entries fs rs"
| "error_entries _ _ = []"

text \<open>The sources that were converted, by the results.\<close>

fun converted :: "upload list \<Rightarrow> (exn + bytes \<times> string) list \<Rightarrow> upload list" where
  "converted (f # fs) (Inr r # rs) = f # converted fs rs"
| "converted (f # fs) (Inl e # rs) = converted fs rs"
| "converted _ _ = []"

text \<open>The pages drawn for the sources of a batch, before they are written.\<close>

fun pages ::
  "library \<Rightarrow> upload list \<Rightarrow> string \<Rightarrow> bytes option \<Rightarrow> world \<Rightarrow> (exn + pdf \<times> string) list" where
  "pages lib [] cn logo w = []"
| "pages lib (f # fs) cn logo w =
     fst (draw_invoice lib f cn logo w) #
     pages lib fs cn logo (snd (create_pdf_from_excel lib f cn logo w))"

text \<open>The five columns that the rows are read by (lines 101-105, 108).\<close>

definition required_columns :: "string list" where
  "required_columns =
     [''product_id'', ''product_name'', ''amount_purchased'', ''price_per_unit'', ''total_price'']"

text \<open>
  The cell of a row under a label, where the row has one; a row \<open>has_fields\<close> when it
  has a cell under each of the five labels.
\<close>

definition field :: "dataframe \<Rightarrow> scalar list \<Rightarrow> string \<Rightarrow> scalar" where
  "field df row key = (case row_get df row key of Inr v \<Rightarrow> v | Inl e \<Rightarrow> StrV [])"

definition has_fields :: "dataframe \<Rightarrow> scalar list \<Rightarrow> bool" where
  "has_fields df row =
     list_all (\<lambda>key. row_get df row key = Inr (field df row key)) required_columns"

text \<open>The calls that each part of the page consists of.\<close>

definition calls :: "pdf_op list \<Rightarrow> pdf \<Rightarrow> pdf" where
  "calls xs doc = doc\<lparr>ops := ops doc @ xs\<rparr>"

definition header_label :: "library \<Rightarrow> string \<Rightarrow> string" where
  "header_label lib item = title lib (replace CHR ''_'' CHR '' '' item)"

definition header_ops :: "string list \<Rightarrow> pdf_op list" where
  "header_ops labels =
     [SetFont ''Times'' 10 ''B'', SetTextColor 80 80 80,
      Cell 30 8 (labels ! 0) 1 0, Cell 70 8 (labels ! 1) 1 0, Cell 30 8 (labels ! 2) 1 0,
      Cell 30 8 (labels ! 3) 1 0, Cell 30 8 (labels ! 4) 1 1]"

definition row_ops :: "library \<Rightarrow> dataframe \<Rightarrow> scalar list \<Rightarrow> pdf_op list" where
  "row_ops lib df row =
     [SetFont ''Times'' 10 [], SetTextColor 80 80 80,
      Cell 30 8 (py_str lib (field df row ''product_id'')) 1 0,
      Cell 70 8 (py_str lib (field df row ''product_name'')) 1 0,
      Cell 30 8 (py_str lib (field df row ''amount_purchased'')) 1 0,
      Cell 30 8 (py_str lib (field df row ''price_per_unit'')) 1 0,
      Cell 30 8 (py_str lib (field df row ''total_price'')) 1 1]"

definition total_ops :: "library \<Rightarrow> scalar \<Rightarrow> pdf_op list" where
  "total_ops lib total_sum =
     [SetFont ''Times'' 10 [], SetTextColor 80 80 80,
      Cell 30 8 [] 1 0, Cell 70 8 [] 1 0, Cell 30 8 [] 1 0, Cell 30 8 [] 1 0,
      Cell 30 8 (py_str lib total_sum) 1 1,
      SetFont ''Times'' 10 ''B'',
      Cell 30 8 (''The total price is '' @ py_str lib total_sum) 0 1]"

definition page_ops ::
  "library \<Rightarrow> string \<Rightarrow> string \<Rightarrow> dataframe \<Rightarrow> scalar \<Rightarrow> string \<Rightarrow> pdf_op list \<Rightarrow> pdf_op list" where
  "page_ops lib invoice_nr date df total_sum company_name logo =
     [AddPage, SetFont ''Times'' 16 ''B'', Cell 50 8 (''Invoice nr.'' @ invoice_nr) 0 1,
      SetFont ''Times'' 16 ''B'', Cell 50 8 (''Date: '' @ date) 0 1] @
     header_ops (map (header_label lib \<circ> text_of) (columns df)) @
     concat (map (row_ops lib df) (iterrows lib df)) @
     total_ops lib total_sum @
     [SetFont ''Times'' 10 ''B'', Cell 25 8 company_name 0 0] @
     logo"

text \<open>
  The name of the temporary file for the logo when the clock is read next, and the
  calls that the logo adds: none without a logo, one image otherwise.
\<close>

definition next_reading :: "world \<Rightarrow> datetime" where
  "next_reading w = clock w (reads w)"

definition logo_path :: "library \<Rightarrow> world \<Rightarrow> string" where
  "logo_path lib w = ''temp_logo_'' @ float_str lib (timestamp (next_reading w)) @ ''.png''"

definition logo_ops :: "library \<Rightarrow> string \<Rightarrow> bytes option \<Rightarrow> exn + pdf_op list" where
  "logo_ops lib path logo_data =
     (case logo_data of
        None \<Rightarrow> Inr []
      | Some data \<Rightarrow> and_then (load_image lib path data) (\<lambda>img. Inr [Image img 10]))"

text \<open>The text of the cells of a page, in the order they were drawn.\<close>

fun cell_text :: "pdf_op \<Rightarrow> string list" where
  "cell_text (Cell w h txt border nl) = [txt]"
| "cell_text _ = []"

definition texts :: "pdf \<Rightarrow> string list" where
  "texts doc = concat (map cell_text (ops doc))"

text \<open>
  A clock that shows the date \<open>d\<close> at every reading, and a clock that stands still at
  the reading \<open>t\<close>.
\<close>

definition stable_date :: "string \<Rightarrow> world \<Rightarrow> bool" where
  "stable_date d w = (\<forall>i. strftime_Ymd (clock w i) = d)"

definition frozen :: "datetime \<Rightarrow> world \<Rightarrow> bool" where
  "frozen t w = (\<forall>i. clock w i = t)"

text \<open>
  A library whose writer takes nothing from the time of writing, one whose image loader
  takes nothing from the name of the file, and a conversion where neither matters.
\<close>

definition time_free :: "library \<Rightarrow> bool" where
  "time_free lib = (\<forall>t t' doc. pdf_output lib t doc = pdf_output lib t' doc)"

definition path_free :: "library \<Rightarrow> bool" where
  "path_free lib = (\<forall>path path' data. load_image lib path data = load_image lib path' data)"

definition clock_blind :: "library \<Rightarrow> bytes option \<Rightarrow> bool" where
  "clock_blind lib logo_data = (time_free lib \<and> (logo_data = None \<or> path_free lib))"

text \<open>The number that a string of decimal digits denotes.\<close>

definition nat_of_digits :: "string \<Rightarrow> nat" where
  "nat_of_digits s = foldl (\<lambda>n c. 10 * n + (of_char c - 48)) 0 s"

text \<open>\<^verbatim>\<open>c.join(parts)\<close>, the inverse of splitting.\<close>

fun join :: "char \<Rightarrow> string list \<Rightarrow> string" where
  "join c [] = []"
| "join c [p] = p"
| "join c (p # q # ps) = p @ c # join c (q # ps)"

subsection \<open>Two facts of floating-point arithmetic\<close>

text \<open>
  Rationals are \<open>exactly_summable\<close> when they are multiples of one power of two and their
  absolute values add up to at most \<open>2^53\<close> such units. Every sum of some of them is then
  a float, so that 64-bit floating-point addition, in whatever order, never rounds: a
  library \<open>sums_exactly\<close> when its sum of such floats is their arithmetic sum.

  A rational is a \<open>short_decimal\<close> when it is a multiple of a power of two, has at most
  15 significant decimal digits, and its absolute value is at least \<open>0.0001\<close> and below
  \<open>10^16\<close>; such a rational is a float. On a float with such a value
  the shortest digits that read back as the same float are those of the value itself,
  and Python and numpy print them in positional notation: a library prints
  \<open>shortest_repr\<close> when its \<open>float_str\<close> does so.
\<close>

definition exactly_summable :: "rat list \<Rightarrow> bool" where
  "exactly_summable qs =
     (\<exists>k\<le>1074. (\<forall>q\<in>set qs. q * 2 ^ k \<in> \<int>) \<and> (\<Sum>q\<leftarrow>qs. \<bar>q\<bar>) * 2 ^ k \<le> 2 ^ 53)"

definition sums_exactly :: "library \<Rightarrow> bool" where
  "sums_exactly lib =
     (\<forall>qs. exactly_summable qs \<longrightarrow> float_sum lib (map Finite qs) = Finite (sum_list qs))"

definition short_decimal :: "rat \<Rightarrow> bool" where
  "short_decimal q =
     (1 / 10 ^ 4 \<le> \<bar>q\<bar> \<and> \<bar>q\<bar> < 10 ^ 16 \<and>
      (\<exists>j\<le>1074. q * 2 ^ j \<in> \<int>) \<and>
      (\<exists>k\<le>20. \<bar>q\<bar> * 10 ^ k \<in> \<int> \<and> \<bar>q\<bar> * 10 ^ k < 10 ^ 15))"

definition shortest_repr :: "library \<Rightarrow> bool" where
  "shortest_repr lib = (\<forall>q. short_decimal q \<longrightarrow> float_str lib (Finite q) = positional q)"

section \<open>Example data\<close>

text \<open>
  A library in the manner of the real one. Its sums and its printing of floats are
  exact; its document writer stamps the time of writing, to the second, before the
  text of the cells; it rejects an empty image, naming the file. A second library
  takes nothing from the clock or the name of the file. A third differs from the first
  in the writer, which refuses text outside Latin-1 (in UTF-8: a byte from \<open>0xC4\<close> on).
\<close>

fun value_of :: "float64 \<Rightarrow> rat" where
  "value_of (Finite q) = q"
| "value_of _ = 0"

fun example_float_str :: "float64 \<Rightarrow> string" where
  "example_float_str (Finite q) = positional q"
| "example_float_str NaN = ''nan''"
| "example_float_str PosInf = ''inf''"
| "example_float_str NegInf = ''-inf''"

definition strftime_YmdHMS :: "datetime \<Rightarrow> string" where
  "strftime_YmdHMS t =
     strftime_Ymd t @ zero_pad 2 (nat_str (hour t)) @ zero_pad 2 (nat_str (minute t)) @
     zero_pad 2 (nat_str (second t))"

definition example_library :: library where
  "example_library =
     \<lparr>float_sum = (\<lambda>xs. Finite (sum_list (map value_of xs))),
      float_of_int = (\<lambda>i. Finite (of_int i)),
      float_str = example_float_str,
      unicode_title = (\<lambda>s. s),
      load_image =
        (\<lambda>path data. if data = [] then Inl (RuntimeError (''Not a PNG file: '' @ path))
           else Inr data),
      pdf_output =
        (\<lambda>t doc. Inr (map of_char (''D:'' @ strftime_YmdHMS t @ concat (texts doc))))\<rparr>"

definition plain_library :: library where
  "plain_library =
     example_library
     \<lparr>load_image :=
        (\<lambda>path data. if data = [] then Inl (RuntimeError ''Not a PNG file'') else Inr data),
      pdf_output := (\<lambda>t doc. Inr (map of_char (concat (texts doc))))\<rparr>"

definition latin1 :: "string \<Rightarrow> bool" where
  "latin1 s = list_all (\<lambda>c. (of_char c :: nat) < 196) s"

definition latin1_library :: library where
  "latin1_library =
     example_library
     \<lparr>pdf_output :=
        (\<lambda>t doc. if list_all latin1 (texts doc) then pdf_output example_library t doc
           else Inl (UnicodeEncodeError ''ordinal not in range(256)''))\<rparr>"

text \<open>
  A clock that advances by a second at each reading on the morning of 15 January 2024
  (and stops before the minute is over), and one that stands still.
\<close>

definition example_time :: "nat \<Rightarrow> datetime" where
  "example_time s =
     \<lparr>year = 2024, month = 1, day = 15, hour = 10, minute = 30, second = s,
      timestamp = Finite (1705314600 + of_nat s)\<rparr>"

definition example_world :: world where
  "example_world = \<lparr>clock = (\<lambda>i. example_time (min i 59)), reads = 0, files = Map.empty\<rparr>"

definition frozen_world :: world where
  "frozen_world = \<lparr>clock = (\<lambda>i. example_time 0), reads = 0, files = Map.empty\<rparr>"

definition empty_table :: dataframe where
  "empty_table = \<lparr>columns = map StrV required_columns, rows = []\<rparr>"

definition invoice_table :: dataframe where
  "invoice_table =
     \<lparr>columns = map StrV required_columns,
      rows = [[IntV 101, StrV ''pen'', IntV 2, FloatV (Finite 50), FloatV (Finite 100)],
              [IntV 102, StrV ''ink'', IntV 1, FloatV (Finite (501 / 2)), FloatV (Finite (501 / 2))],
              [IntV 103, StrV ''pad'', IntV 1, FloatV (Finite (99 / 2)), FloatV (Finite (99 / 2))]]\<rparr>"

definition text_totals_table :: dataframe where
  "text_totals_table =
     \<lparr>columns = map StrV required_columns,
      rows = [[IntV 101, StrV ''pen'', IntV 2, IntV 5, StrV ''ten''],
              [IntV 102, StrV ''ink'', IntV 1, IntV 20, StrV ''twenty'']]\<rparr>"

definition mixed_totals_table :: dataframe where
  "mixed_totals_table =
     \<lparr>columns = map StrV required_columns,
      rows = [[IntV 101, StrV ''pen'', IntV 2, IntV 50, IntV 100],
              [IntV 102, StrV ''ink'', IntV 1, IntV 20, StrV ''abc'']]\<rparr>"

definition note_table :: dataframe where
  "note_table =
     \<lparr>columns = map StrV (''note'' # required_columns),
      rows = [[StrV ''urgent'', IntV 101, StrV ''pen'', IntV 2, IntV 50, IntV 100]]\<rparr>"

definition year_column_table :: dataframe where
  "year_column_table =
     \<lparr>columns = map StrV required_columns @ [IntV 2024],
      rows = [[IntV 101, StrV ''pen'', IntV 2, IntV 50, IntV 100, IntV 7]]\<rparr>"

definition discount_table :: dataframe where
  "discount_table =
     \<lparr>columns = map StrV (required_columns @ [''discount'']),
      rows = [[IntV 101, IntV 7, IntV 2, IntV 50, IntV 100, FloatV (Finite (1 / 2))]]\<rparr>"

definition upload_2024 :: upload where
  "upload_2024 =
     \<lparr>name = ''2024-001-20240115.xlsx'', payload = Workbook [(''Sheet 1'', invoice_table)]\<rparr>"

definition upload_A :: upload where
  "upload_A = \<lparr>name = ''A.xlsx'', payload = Workbook [(''Sheet 1'', empty_table)]\<rparr>"

definition upload_A_again :: upload where
  "upload_A_again = \<lparr>name = ''A.xlsx'', payload = Workbook [(''Sheet 1'', invoice_table)]\<rparr>"

definition upload_B :: upload where
  "upload_B = \<lparr>name = ''B.xlsx'', payload = Workbook [(''Sheet 1'', empty_table)]\<rparr>"

definition upload_euro :: upload where
  "upload_euro =
     \<lparr>name = [CHR 0xE2, CHR 0x82, CHR 0xAC] @ ''.xlsx'',
      payload = Workbook [(''Sheet 1'', empty_table)]\<rparr>"

definition upload_no_sheet :: upload where
  "upload_no_sheet =
     \<lparr>name = ''INV2024.xlsx'', payload = Workbook [(''Sheet1'', invoice_table)]\<rparr>"

definition upload_text_totals :: upload where
  "upload_text_totals =
     \<lparr>name = ''T-1.xlsx'', payload = Workbook [(''Sheet 1'', text_totals_table)]\<rparr>"

definition upload_mixed_totals :: upload where
  "upload_mixed_totals =
     \<lparr>name = ''M-1.xlsx'', payload = Workbook [(''Sheet 1'', mixed_totals_table)]\<rparr>"

definition upload_note :: upload where
  "upload_note = \<lparr>name = ''N-7.xlsx'', payload = Workbook [(''Sheet 1'', note_table)]\<rparr>"

definition upload_year_column :: upload where
  "upload_year_column =
     \<lparr>name = ''Y-1.xlsx'', payload = Workbook [(''Sheet 1'', year_column_table)]\<rparr>"

definition upload_discount :: upload where
  "upload_discount = \<lparr>name = ''D-3.xlsx'', payload = Workbook [(''Sheet 1'', discount_table)]\<rparr>"

section \<open>Properties of the parts\<close>

lemma and_then_Inr [simp]: "and_then (Inr x) f = f x"
  by (simp add: and_then_def)

lemma and_then_Inl [simp]: "and_then (Inl e) f = Inl e"
  by (simp add: and_then_def)

lemma and_then_eq_Inr: "and_then m f = Inr y \<longleftrightarrow> (\<exists>x. m = Inr x \<and> f x = Inr y)"
  by (cases m) simp_all

lemma length_update:
  "length (AList.update k v al) = (if k \<in> fst ` set al then length al else Suc (length al))"
proof -
  have "length (AList.update k v al) = length (map fst (AList.update k v al))" by simp
  also have "\<dots> = (if k \<in> fst ` set al then length al else Suc (length al))"
    by (simp only: update_keys) simp
  finally show ?thesis .
qed

lemma keys_update: "fst ` set (AList.update k v al) = insert k (fst ` set al)"
  by (simp add: dom_update)

lemma calls_Nil [simp]: "calls [] doc = doc"
  by (simp add: calls_def)

lemma calls_calls [simp]: "calls ys (calls xs doc) = calls (xs @ ys) doc"
  by (simp add: calls_def)

lemma call_calls: "call op doc = calls [op] doc"
  by (simp add: call_def calls_def)

lemmas pdf_calls = set_font_def set_text_color_def cell_def add_page_def call_calls

lemma title_columns_text: "title_columns lib (map StrV hs) = Inr (map (header_label lib) hs)"
  by (induction hs) (simp_all add: header_label_def)

lemma title_columns_Inr:
  "title_columns lib cs = Inr labels \<Longrightarrow>
   \<exists>hs. cs = map StrV hs \<and> labels = map (header_label lib) hs"
proof (induction lib cs arbitrary: labels rule: title_columns.induct)
  case (1 lib)
  then show ?case by simp
next
  case (2 lib item items)
  from "2.prems" obtain ls where ls: "title_columns lib items = Inr ls"
    and l: "labels = header_label lib item # ls"
    by (auto simp: and_then_eq_Inr header_label_def)
  from "2.IH"[OF ls] obtain hs where "items = map StrV hs" "ls = map (header_label lib) hs"
    by blast
  with l have "StrV item # items = map StrV (item # hs) \<and>
      labels = map (header_label lib) (item # hs)"
    by simp
  then show ?case by (intro exI[of _ "item # hs"])
qed simp_all

lemma table_header_labels:
  assumes "title_columns lib (columns df) = Inr labels" and "5 \<le> length labels"
  shows "table_header lib df doc = Inr (calls (header_ops labels) doc)"
proof -
  from assms(2) have "0 < length labels" "1 < length labels" "2 < length labels"
    "3 < length labels" "4 < length labels" by linarith+
  with assms(1) show ?thesis
    by (simp add: table_header_def list_get_def pdf_calls header_ops_def)
qed

lemma table_header_short:
  assumes "title_columns lib (columns df) = Inr labels" and "length labels < 5"
  shows "table_header lib df doc = Inl (IndexError ''list index out of range'')"
  using assms by (simp add: table_header_def list_get_def Let_def)

lemma table_header_Inr:
  assumes "table_header lib df doc = Inr doc'"
  shows "\<exists>hs. columns df = map StrV hs \<and> 5 \<le> length hs \<and>
           doc' = calls (header_ops (map (header_label lib) hs)) doc"
proof -
  from assms obtain labels where t: "title_columns lib (columns df) = Inr labels"
    by (auto simp: table_header_def and_then_eq_Inr)
  from title_columns_Inr[OF t] obtain hs where
    hs: "columns df = map StrV hs" "labels = map (header_label lib) hs"
    by blast
  have "5 \<le> length labels"
  proof (rule ccontr)
    assume "\<not> 5 \<le> length labels"
    then have "length labels < 5" by simp
    from table_header_short[OF t this] assms show False by simp
  qed
  with table_header_labels[OF t this] assms hs show ?thesis by auto
qed

lemma row_get_field: "row_get df row key = Inr v \<Longrightarrow> field df row key = v"
  by (simp add: field_def)

lemma row_get_Inl: "row_get df row key = Inl e \<Longrightarrow> e = KeyError key"
  by (auto simp: row_get_def split: option.splits)

lemma has_fields_iff:
  "has_fields df row \<longleftrightarrow> (\<forall>key\<in>set required_columns. \<exists>v. row_get df row key = Inr v)"
  by (auto simp: has_fields_def list_all_iff dest: row_get_field)

lemma map_of_zip_map: "map_of (zip xs (map g ys)) k = map_option g (map_of (zip xs ys) k)"
proof (induction xs arbitrary: ys)
  case Nil
  then show ?case by simp
next
  case (Cons x xs)
  then show ?case by (cases ys) simp_all
qed

lemma row_get_map:
  "row_get df (map g row) key =
     (case row_get df row key of Inl e \<Rightarrow> Inl e | Inr v \<Rightarrow> Inr (g v))"
  by (simp add: row_get_def map_of_zip_map split: option.splits)

lemma field_map:
  "has_fields df row \<Longrightarrow> key \<in> set required_columns \<Longrightarrow>
   field df (map g row) key = g (field df row key)"
  by (auto simp: has_fields_iff field_def row_get_map)

lemma row_get_map_Inr:
  "(\<exists>v. row_get df (map g row) key = Inr v) \<longleftrightarrow> (\<exists>v. row_get df row key = Inr v)"
  by (cases "row_get df row key") (simp_all add: row_get_map)

lemma has_fields_map: "has_fields df (map g row) = has_fields df row"
  by (simp only: has_fields_iff row_get_map_Inr)

lemma has_fields_iterrows:
  "list_all (has_fields df) (iterrows lib df) = list_all (has_fields df) (rows df)"
  by (simp add: iterrows_def list_all_iff has_fields_map)

lemma table_row_ok:
  assumes "has_fields df row"
  shows "table_row lib df row doc = Inr (calls (row_ops lib df row) doc)"
  using assms
  by (simp add: has_fields_def required_columns_def table_row_def pdf_calls row_ops_def)

lemma table_row_Inr:
  assumes "table_row lib df row doc = Inr doc'"
  shows "has_fields df row"
proof -
  from assms obtain v1 v2 v3 v4 v5 where
    "row_get df row ''product_id'' = Inr v1" "row_get df row ''product_name'' = Inr v2"
    "row_get df row ''amount_purchased'' = Inr v3" "row_get df row ''price_per_unit'' = Inr v4"
    "row_get df row ''total_price'' = Inr v5"
    by (auto simp: table_row_def Let_def and_then_eq_Inr)
  then show ?thesis by (simp add: has_fields_iff required_columns_def)
qed

lemma table_rows_ok:
  "list_all (has_fields df) rs \<Longrightarrow>
   table_rows lib df rs doc = Inr (calls (concat (map (row_ops lib df) rs)) doc)"
  by (induction rs arbitrary: doc) (simp_all add: table_row_ok)

lemma table_rows_Inr:
  "table_rows lib df rs doc = Inr doc' \<Longrightarrow> list_all (has_fields df) rs"
proof (induction rs arbitrary: doc)
  case Nil
  then show ?case by simp
next
  case (Cons r rs)
  from Cons.prems obtain d1 where r: "table_row lib df r doc = Inr d1"
    and rs: "table_rows lib df rs d1 = Inr doc'"
    by (auto simp: and_then_eq_Inr)
  from table_row_Inr[OF r] Cons.IH[OF rs] show ?case by simp
qed

lemma collect_ok: "list_all (\<lambda>x. f x = Inr (g x)) xs \<Longrightarrow> collect (map f xs) = Inr (map g xs)"
  by (induction xs) simp_all

lemma column_ok:
  assumes "StrV key \<in> set (columns df)"
    and "list_all (\<lambda>row. row_get df row key = Inr (field df row key)) (rows df)"
  shows "column df key = Inr (map (\<lambda>row. field df row key) (rows df))"
  using assms by (simp add: column_def collect_ok)

lemma has_fields_total_price:
  "has_fields df row \<Longrightarrow> row_get df row ''total_price'' = Inr (field df row ''total_price'')"
  by (simp add: has_fields_def required_columns_def)

lemma column_total_price:
  assumes "StrV ''total_price'' \<in> set (columns df)" and "list_all (has_fields df) (rows df)"
  shows "column df ''total_price'' = Inr (map (\<lambda>row. field df row ''total_price'') (rows df))"
proof (rule column_ok[OF assms(1)])
  from assms(2)
  show "list_all (\<lambda>row. row_get df row ''total_price'' = Inr (field df row ''total_price''))
      (rows df)"
    by (auto simp: list_all_iff dest: has_fields_total_price)
qed

lemma total_row_ok:
  assumes "column df ''total_price'' = Inr total_price"
    and "series_sum lib total_price = Inr total_sum"
  shows "total_row lib df doc = Inr (calls (total_ops lib total_sum) doc)"
  using assms by (simp add: total_row_def pdf_calls total_ops_def)

lemma total_row_Inr:
  assumes "total_row lib df doc = Inr doc'"
  shows "\<exists>total_price total_sum. column df ''total_price'' = Inr total_price \<and>
           series_sum lib total_price = Inr total_sum \<and>
           doc' = calls (total_ops lib total_sum) doc"
proof -
  from assms obtain total_price total_sum where
    c: "column df ''total_price'' = Inr total_price"
    and s: "series_sum lib total_price = Inr total_sum"
    by (auto simp: total_row_def and_then_eq_Inr)
  from total_row_ok[OF c s] assms c s show ?thesis by auto
qed

lemma company_line_calls:
  "company_line company_name doc =
     calls [SetFont ''Times'' 10 ''B'', Cell 25 8 company_name 0 0] doc"
  by (simp add: company_line_def pdf_calls)

lemma invoice_header_calls:
  "invoice_header invoice_nr date =
     calls [AddPage, SetFont ''Times'' 16 ''B'', Cell 50 8 (''Invoice nr.'' @ invoice_nr) 0 1,
            SetFont ''Times'' 16 ''B'', Cell 50 8 (''Date: '' @ date) 0 1]
       (FPDF ''P'' ''mm'' ''A4'')"
  by (simp add: invoice_header_def pdf_calls)

lemma add_logo_None: "add_logo lib None doc w = (Inr doc, w)"
  by (simp add: add_logo_def)

lemma add_logo_Some_ok:
  assumes "load_image lib (logo_path lib w) data = Inr img"
  shows "add_logo lib (Some data) doc w =
           (Inr (calls [Image img 10] doc),
            w\<lparr>reads := Suc (reads w), files := (files w)(logo_path lib w := None)\<rparr>)"
  using assms
  by (simp add: add_logo_def datetime_now_def write_file_def image_def os_remove_def
      logo_path_def next_reading_def call_calls)

lemma add_logo_Some_fail:
  assumes "load_image lib (logo_path lib w) data = Inl e"
  shows "add_logo lib (Some data) doc w =
           (Inl e, w\<lparr>reads := Suc (reads w), files := (files w)(logo_path lib w \<mapsto> data)\<rparr>)"
  using assms
  by (simp add: add_logo_def datetime_now_def write_file_def image_def logo_path_def
      next_reading_def)

lemma fst_add_logo:
  "fst (add_logo lib logo_data doc w) =
     and_then (logo_ops lib (logo_path lib w) logo_data) (\<lambda>xs. Inr (calls xs doc))"
proof (cases logo_data)
  case None
  then show ?thesis by (simp add: add_logo_None logo_ops_def)
next
  case (Some data)
  then show ?thesis
    by (cases "load_image lib (logo_path lib w) data")
      (simp_all add: add_logo_Some_ok add_logo_Some_fail logo_ops_def)
qed

lemma clock_add_logo: "clock (snd (add_logo lib logo_data doc w)) = clock w"
proof (cases logo_data)
  case None
  then show ?thesis by (simp add: add_logo_None)
next
  case (Some data)
  then show ?thesis
    by (cases "load_image lib (logo_path lib w) data")
      (simp_all add: add_logo_Some_ok add_logo_Some_fail)
qed

lemma fst_invoice_fields:
  "fst (invoice_fields filename w) =
     (if 2 \<le> length (split_on CHR ''-'' filename)
      then (split_on CHR ''-'' filename ! 0, split_on CHR ''-'' filename ! 1)
      else (filename, strftime_Ymd (next_reading w)))"
  by (simp add: invoice_fields_def datetime_now_def Let_def next_reading_def)

lemma clock_invoice_fields: "clock (snd (invoice_fields filename w)) = clock w"
  by (simp add: invoice_fields_def datetime_now_def Let_def)

lemma fst_draw_invoice:
  "fst (draw_invoice lib file cn logo w) =
     and_then (read_excel (payload file) ''Sheet 1'') (\<lambda>df.
     and_then (table_header lib df
        (invoice_header (fst (fst (invoice_fields (stem (name file)) w)))
           (snd (fst (invoice_fields (stem (name file)) w))))) (\<lambda>pdf.
     and_then (table_rows lib df (iterrows lib df) pdf) (\<lambda>pdf.
     and_then (total_row lib df pdf) (\<lambda>pdf.
     and_then (logo_ops lib (logo_path lib (snd (invoice_fields (stem (name file)) w))) logo)
       (\<lambda>xs.
     Inr (calls xs (company_line cn pdf), stem (name file)))))))"
proof -
  obtain nr date w1 where i: "invoice_fields (stem (name file)) w = ((nr, date), w1)"
    by (cases "invoice_fields (stem (name file)) w") auto
  let ?m = "and_then (read_excel (payload file) ''Sheet 1'') (\<lambda>df.
     and_then (table_header lib df (invoice_header nr date)) (\<lambda>pdf.
     and_then (table_rows lib df (iterrows lib df) pdf) (\<lambda>pdf.
     and_then (total_row lib df pdf) (\<lambda>pdf. Inr (company_line cn pdf)))))"
  have d: "fst (draw_invoice lib file cn logo w) =
             and_then ?m (\<lambda>pdf. and_then (fst (add_logo lib logo pdf w1))
               (\<lambda>pdf'. Inr (pdf', stem (name file))))"
    by (cases ?m) (auto simp: draw_invoice_def i split: sum.splits prod.splits)
  show ?thesis
    unfolding d i fst_conv snd_conv fst_add_logo
    by (auto simp: and_then_def split: sum.splits)
qed

lemma clock_draw_invoice: "clock (snd (draw_invoice lib file cn logo w)) = clock w"
proof -
  obtain nr date w1 where i: "invoice_fields (stem (name file)) w = ((nr, date), w1)"
    by (cases "invoice_fields (stem (name file)) w") auto
  from clock_invoice_fields[of "stem (name file)" w] i have c: "clock w1 = clock w" by simp
  let ?m = "and_then (read_excel (payload file) ''Sheet 1'') (\<lambda>df.
     and_then (table_header lib df (invoice_header nr date)) (\<lambda>pdf.
     and_then (table_rows lib df (iterrows lib df) pdf) (\<lambda>pdf.
     and_then (total_row lib df pdf) (\<lambda>pdf. Inr (company_line cn pdf)))))"
  have "snd (draw_invoice lib file cn logo w) =
          (case ?m of Inl e \<Rightarrow> w1 | Inr pdf \<Rightarrow> snd (add_logo lib logo pdf w1))"
    by (auto simp: draw_invoice_def i split: sum.splits prod.splits)
  then show ?thesis
    by (simp add: clock_add_logo c split: sum.splits)
qed

lemma draw_invoice_ok:
  assumes "read_excel (payload file) ''Sheet 1'' = Inr df"
    and "columns df = map StrV hs" and "5 \<le> length hs"
    and "list_all (has_fields df) (rows df)"
    and "column df ''total_price'' = Inr total_price"
    and "series_sum lib total_price = Inr total_sum"
    and "logo_ops lib (logo_path lib (snd (invoice_fields (stem (name file)) w))) logo = Inr lops"
    and "fst (invoice_fields (stem (name file)) w) = (nr, date)"
  shows "fst (draw_invoice lib file cn logo w) =
           Inr (calls (page_ops lib nr date df total_sum cn lops) (FPDF ''P'' ''mm'' ''A4''),
                stem (name file))"
proof -
  have t: "title_columns lib (columns df) = Inr (map (header_label lib) hs)"
    by (simp add: assms(2) title_columns_text)
  have h: "table_header lib df doc = Inr (calls (header_ops (map (header_label lib) hs)) doc)"
    for doc
    by (rule table_header_labels[OF t]) (simp add: assms(3))
  have r: "list_all (has_fields df) (iterrows lib df)"
    by (simp add: has_fields_iterrows assms(4))
  show ?thesis
    unfolding fst_draw_invoice assms(8) fst_conv snd_conv
    by (simp add: assms(1) h table_rows_ok[OF r] total_row_ok[OF assms(5,6)] assms(7)
        company_line_calls invoice_header_calls page_ops_def assms(2) comp_def)
qed

lemma draw_invoice_Inr:
  assumes "fst (draw_invoice lib file cn logo w) = Inr (doc, fn)"
  obtains df hs total_price total_sum lops where
    "read_excel (payload file) ''Sheet 1'' = Inr df"
    "columns df = map StrV hs" "5 \<le> length hs"
    "list_all (has_fields df) (rows df)"
    "column df ''total_price'' = Inr total_price"
    "series_sum lib total_price = Inr total_sum"
    "logo_ops lib (logo_path lib (snd (invoice_fields (stem (name file)) w))) logo = Inr lops"
    "doc = calls (page_ops lib (fst (fst (invoice_fields (stem (name file)) w)))
                   (snd (fst (invoice_fields (stem (name file)) w))) df total_sum cn lops)
             (FPDF ''P'' ''mm'' ''A4'')"
    "fn = stem (name file)"
proof -
  from assms[unfolded fst_draw_invoice] obtain df d1 d2 d3 lops where
    r: "read_excel (payload file) ''Sheet 1'' = Inr df"
    and h: "table_header lib df (invoice_header (fst (fst (invoice_fields (stem (name file)) w)))
           (snd (fst (invoice_fields (stem (name file)) w)))) = Inr d1"
    and b: "table_rows lib df (iterrows lib df) d1 = Inr d2"
    and t: "total_row lib df d2 = Inr d3"
    and l: "logo_ops lib (logo_path lib (snd (invoice_fields (stem (name file)) w))) logo =
        Inr lops"
    and e: "doc = calls lops (company_line cn d3)" "fn = stem (name file)"
    by (auto simp: and_then_eq_Inr)
  from table_header_Inr[OF h] obtain hs where hs: "columns df = map StrV hs" "5 \<le> length hs"
    by blast
  from table_rows_Inr[OF b] have rows: "list_all (has_fields df) (rows df)"
    by (simp add: has_fields_iterrows)
  from total_row_Inr[OF t] obtain total_price total_sum where
    c: "column df ''total_price'' = Inr total_price"
    and s: "series_sum lib total_price = Inr total_sum"
    by blast
  obtain nr date where i: "fst (invoice_fields (stem (name file)) w) = (nr, date)"
    by (cases "fst (invoice_fields (stem (name file)) w)")
  from draw_invoice_ok[OF r hs rows c s l i, of cn] assms i
  have doc: "doc = calls (page_ops lib (fst (fst (invoice_fields (stem (name file)) w)))
                   (snd (fst (invoice_fields (stem (name file)) w))) df total_sum cn lops)
             (FPDF ''P'' ''mm'' ''A4'')"
    by simp
  from r hs rows c s l doc e(2) show thesis by (rule that)
qed

lemma draw_invoice_filename:
  "fst (draw_invoice lib file cn logo w) = Inr (doc, fn) \<Longrightarrow> fn = stem (name file)"
  by (auto simp: fst_draw_invoice and_then_eq_Inr)

text \<open>The result and the state after \<^verbatim>\<open>create_pdf_from_excel\<close>, from those of the page.\<close>

lemma fst_create:
  "fst (create_pdf_from_excel lib file cn logo w) =
     (case fst (draw_invoice lib file cn logo w) of
        Inl e \<Rightarrow> Inl (Exception (''Error processing '' @ name file @ '': '' @ str_exn e))
      | Inr (pdf, filename) \<Rightarrow>
          (case pdf_output lib (next_reading (snd (draw_invoice lib file cn logo w))) pdf of
             Inl e \<Rightarrow> Inl (Exception (''Error processing '' @ name file @ '': '' @ str_exn e))
           | Inr pdf_bytes \<Rightarrow> Inr (pdf_bytes, filename)))"
  by (simp add: create_pdf_from_excel_def datetime_now_def next_reading_def
      split: prod.splits sum.splits)

lemma clock_create: "clock (snd (create_pdf_from_excel lib file cn logo w)) = clock w"
proof -
  have "clock (snd (create_pdf_from_excel lib file cn logo w)) =
          clock (snd (draw_invoice lib file cn logo w))"
    by (simp add: create_pdf_from_excel_def datetime_now_def split: prod.splits sum.splits)
  then show ?thesis by (simp add: clock_draw_invoice)
qed

lemma create_filename:
  assumes "fst (create_pdf_from_excel lib file cn logo w) = Inr (bs, fn)"
  shows "fn = stem (name file)"
  using assms
  by (auto simp: fst_create split: sum.splits prod.splits dest: draw_invoice_filename)

lemma create_Inr:
  assumes "fst (create_pdf_from_excel lib f cn logo w) = Inr (doc, fn)"
  obtains page where "fst (draw_invoice lib f cn logo w) = Inr (page, fn)"
    and "pdf_output lib (next_reading (snd (draw_invoice lib f cn logo w))) page = Inr doc"
  using assms by (auto simp: fst_create split: sum.splits prod.splits)

lemma create_Inl:
  assumes "fst (draw_invoice lib f cn logo w) = Inl e0 \<or>
           (\<exists>page fn. fst (draw_invoice lib f cn logo w) = Inr (page, fn) \<and>
              pdf_output lib (next_reading (snd (draw_invoice lib f cn logo w))) page = Inl e0)"
  shows "fst (create_pdf_from_excel lib f cn logo w) =
           Inl (Exception (''Error processing '' @ name f @ '': '' @ str_exn e0))"
  using assms by (auto simp: fst_create)


lemma create_of_page:
  assumes "fst (draw_invoice lib f cn logo w) = Inr (page, fn)"
  shows "fst (create_pdf_from_excel lib f cn logo w) =
           (case pdf_output lib (next_reading (snd (draw_invoice lib f cn logo w))) page of
              Inl e \<Rightarrow> Inl (Exception (''Error processing '' @ name f @ '': '' @ str_exn e))
            | Inr pdf_bytes \<Rightarrow> Inr (pdf_bytes, fn))"
  by (simp add: fst_create assms)

lemma create_ok:
  assumes "fst (draw_invoice lib file cn logo w) = Inr (doc, fn)"
    and "pdf_output lib (next_reading (snd (draw_invoice lib file cn logo w))) doc = Inr bs"
  shows "fst (create_pdf_from_excel lib file cn logo w) = Inr (bs, fn)"
  by (simp add: fst_create assms)

lemma process_file_fst:
  "fst (process_file lib cn logo file (b, w)) =
     (case fst (create_pdf_from_excel lib file cn logo w) of
        Inr (pdf_bytes, filename) \<Rightarrow>
          b\<lparr>pdf_files := AList.update (filename @ ''.pdf'') pdf_bytes (pdf_files b)\<rparr>
      | Inl e \<Rightarrow> b\<lparr>errors := errors b @ [cross_mark @ '' '' @ name file @ '': '' @ str_exn e]\<rparr>)"
  by (simp add: process_file_def split: prod.splits sum.splits)

lemma process_file_snd:
  "snd (process_file lib cn logo file (b, w)) = snd (create_pdf_from_excel lib file cn logo w)"
  by (simp add: process_file_def split: prod.splits sum.splits)

lemma process_file_unpaired:
  "fst (process_file lib cn logo file s) =
     (case fst (create_pdf_from_excel lib file cn logo (snd s)) of
        Inr (pdf_bytes, filename) \<Rightarrow>
          (fst s)\<lparr>pdf_files := AList.update (filename @ ''.pdf'') pdf_bytes (pdf_files (fst s))\<rparr>
      | Inl e \<Rightarrow>
          (fst s)\<lparr>errors := errors (fst s) @ [cross_mark @ '' '' @ name file @ '': '' @ str_exn e]\<rparr>)"
  by (cases s) (simp add: process_file_fst split: sum.splits prod.splits)

lemma process_file_snd_unpaired:
  "snd (process_file lib cn logo file s) =
     snd (create_pdf_from_excel lib file cn logo (snd s))"
  by (cases s) (simp add: process_file_snd)

lemma convert_snoc:
  "convert lib (fs @ [f]) cn logo w = process_file lib cn logo f (convert lib fs cn logo w)"
  by (simp add: convert_def)


lemma clock_fold_process:
  "clock (snd (fold (process_file lib cn logo) fs s)) = clock (snd s)"
  by (induction fs arbitrary: s) (simp_all add: process_file_snd_unpaired clock_create)

lemma clock_convert: "clock (snd (convert lib fs cn logo w)) = clock w"
  by (simp add: convert_def clock_fold_process)

lemma process_file_distinct:
  "distinct (map fst (pdf_files (fst s))) \<Longrightarrow>
   distinct (map fst (pdf_files (fst (process_file lib cn logo f s))))"
  by (simp add: process_file_unpaired distinct_update split: sum.splits prod.splits)

lemma fold_process_distinct:
  "distinct (map fst (pdf_files (fst s))) \<Longrightarrow>
   distinct (map fst (pdf_files (fst (fold (process_file lib cn logo) fs s))))"
  by (induction fs arbitrary: s) (simp_all add: process_file_distinct)

lemma convert_distinct: "distinct (map fst (pdf_files (fst (convert lib fs cn logo w))))"
  by (simp add: convert_def fold_process_distinct)

lemma split_on_not_Nil [simp]: "split_on c s \<noteq> []"
  by (induction s) (auto split: list.splits)

lemma split_on_unfold:
  "split_on c s =
     takeWhile (\<lambda>x. x \<noteq> c) s #
     (if c \<in> set s then split_on c (tl (dropWhile (\<lambda>x. x \<noteq> c) s)) else [])"
proof (induction s)
  case Nil
  then show ?case by simp
next
  case (Cons x xs)
  show ?case
  proof (cases "x = c")
    case True
    then show ?thesis by simp
  next
    case False
    obtain p ps where p: "split_on c xs = p # ps"
      using split_on_not_Nil[of c xs] by (cases "split_on c xs") auto
    with Cons.IH False show ?thesis by auto
  qed
qed

lemma split_on_two: "2 \<le> length (split_on c s) \<longleftrightarrow> c \<in> set s"
proof -
  have "length (split_on c s) = 1" if "c \<notin> set s"
    using that by (subst split_on_unfold) simp
  moreover have "2 \<le> length (split_on c s)" if "c \<in> set s"
  proof -
    have "split_on c (tl (dropWhile (\<lambda>x. x \<noteq> c) s)) \<noteq> []" by simp
    then have "1 \<le> length (split_on c (tl (dropWhile (\<lambda>x. x \<noteq> c) s)))"
      by (simp add: Suc_le_eq)
    with that show ?thesis by (subst split_on_unfold) simp
  qed
  ultimately show ?thesis by fastforce
qed

lemma split_on_segment0: "split_on c s ! 0 = takeWhile (\<lambda>x. x \<noteq> c) s"
  by (subst split_on_unfold) simp

lemma split_on_segment1:
  assumes "c \<in> set s"
  shows "split_on c s ! 1 = takeWhile (\<lambda>x. x \<noteq> c) (tl (dropWhile (\<lambda>x. x \<noteq> c) s))"
proof -
  have "split_on c s ! 1 = split_on c (tl (dropWhile (\<lambda>x. x \<noteq> c) s)) ! 0"
    using assms by (subst split_on_unfold) simp
  then show ?thesis by (simp only: split_on_segment0)
qed

lemma invoice_fields_hyphen:
  assumes "CHR ''-'' \<in> set s"
  shows "invoice_fields s w =
           ((takeWhile (\<lambda>x. x \<noteq> CHR ''-'') s,
             takeWhile (\<lambda>x. x \<noteq> CHR ''-'') (tl (dropWhile (\<lambda>x. x \<noteq> CHR ''-'') s))), w)"
  using assms split_on_two[of "CHR ''-''" s]
  by (simp add: invoice_fields_def Let_def split_on_segment0 split_on_segment1 del: One_nat_def)

lemma invoice_fields_plain:
  assumes "CHR ''-'' \<notin> set s"
  shows "invoice_fields s w =
           ((s, strftime_Ymd (clock w (reads w))), w\<lparr>reads := Suc (reads w)\<rparr>)"
  using assms split_on_two[of "CHR ''-''" s]
  by (simp add: invoice_fields_def Let_def datetime_now_def)

lemma join_Cons: "ps \<noteq> [] \<Longrightarrow> join c (p # ps) = p @ c # join c ps"
  by (cases ps) simp_all

lemma join_split_on: "join c (split_on c s) = s"
proof (induction s)
  case Nil
  then show ?case by simp
next
  case (Cons x xs)
  obtain p ps where p: "split_on c xs = p # ps"
    using split_on_not_Nil[of c xs] by (cases "split_on c xs") auto
  show ?case
  proof (cases "x = c")
    case True
    with Cons.IH show ?thesis by (simp add: join_Cons)
  next
    case False
    with Cons.IH p show ?thesis by (cases ps) simp_all
  qed
qed

lemma split_on_segments: "p \<in> set (split_on c s) \<Longrightarrow> c \<notin> set p"
proof (induction s arbitrary: p)
  case Nil
  then show ?case by simp
next
  case (Cons x xs)
  obtain q qs where q: "split_on c xs = q # qs"
    using split_on_not_Nil[of c xs] by (cases "split_on c xs") auto
  with Cons show ?case by (auto split: if_splits)
qed

lemma digit_char: "d < 10 \<Longrightarrow> of_char (''0123456789'' ! d) = 48 + d"
proof -
  assume "d < 10"
  then consider "d = 0" | "d = 1" | "d = 2" | "d = 3" | "d = 4" | "d = 5" | "d = 6" | "d = 7"
    | "d = 8" | "d = 9" by atomize_elim arith
  then show ?thesis by cases simp_all
qed

lemma nat_of_digits_snoc: "nat_of_digits (s @ [c]) = 10 * nat_of_digits s + (of_char c - 48)"
  by (simp add: nat_of_digits_def)

lemma nat_of_digits_nat_str: "nat_of_digits (nat_str n) = n"
proof (induction n rule: nat_str.induct)
  case (1 n)
  show ?case
  proof (cases "n < 10")
    case True
    then show ?thesis
      by (subst nat_str.simps) (simp add: nat_of_digits_def digit_char)
  next
    case False
    with 1 show ?thesis
      by (subst nat_str.simps) (simp add: nat_of_digits_snoc digit_char)
  qed
qed

lemma nat_of_digits_zero_pad: "nat_of_digits (zero_pad k s) = nat_of_digits s"
proof -
  have "foldl (\<lambda>n c. 10 * n + (of_char c - 48)) 0 (replicate m CHR ''0'') = (0::nat)" for m
    by (induction m) simp_all
  then show ?thesis by (simp add: nat_of_digits_def zero_pad_def)
qed

lemma length_nat_str: "n < 10 ^ k \<Longrightarrow> 0 < k \<Longrightarrow> length (nat_str n) \<le> k"
proof (induction k arbitrary: n)
  case 0
  then show ?case by simp
next
  case (Suc k)
  show ?case
  proof (cases "n < 10")
    case True
    then show ?thesis by (subst nat_str.simps) simp
  next
    case False
    then have k: "0 < k" using Suc.prems(1) by (cases k) simp_all
    from Suc.prems(1) have "n div 10 < 10 ^ k" by (simp add: less_mult_imp_div_less mult.commute)
    from Suc.IH[OF this k] False show ?thesis by (subst nat_str.simps) simp
  qed
qed

lemma length_zero_pad: "length s \<le> k \<Longrightarrow> length (zero_pad k s) = k"
  by (simp add: zero_pad_def)

lemma nat_str_digits: "c \<in> set (nat_str n) \<Longrightarrow> c \<in> set ''0123456789''"
proof (induction n rule: nat_str.induct)
  case (1 n)
  have d: "''0123456789'' ! m \<in> set ''0123456789''" if "m < 10" for m
    using that by (intro nth_mem) simp
  show ?case
  proof (cases "n < 10")
    case True
    with 1(2) d[of n] show ?thesis by (subst (asm) nat_str.simps) simp
  next
    case False
    have "n mod 10 < 10" by simp
    with 1 False d[of "n mod 10"] show ?thesis
      by (subst (asm) (2) nat_str.simps) auto
  qed
qed

lemma zero_pad_digits:
  "c \<in> set (zero_pad k (nat_str n)) \<Longrightarrow> c \<in> set ''0123456789''"
  using nat_str_digits[of c n] by (auto simp: zero_pad_def)

lemma strftime_Ymd_format:
  assumes "year t < 10000" and "month t < 100" and "day t < 100"
  shows "length (strftime_Ymd t) = 8 \<and> set (strftime_Ymd t) \<subseteq> set ''0123456789'' \<and>
         nat_of_digits (take 4 (strftime_Ymd t)) = year t \<and>
         nat_of_digits (take 2 (drop 4 (strftime_Ymd t))) = month t \<and>
         nat_of_digits (drop 6 (strftime_Ymd t)) = day t"
proof -
  let ?y = "zero_pad 4 (nat_str (year t))" and ?m = "zero_pad 2 (nat_str (month t))"
    and ?d = "zero_pad 2 (nat_str (day t))"
  have ly: "length ?y = 4" using assms(1) by (intro length_zero_pad length_nat_str) simp_all
  have lm: "length ?m = 2" using assms(2) by (intro length_zero_pad length_nat_str) simp_all
  have ld: "length ?d = 2" using assms(3) by (intro length_zero_pad length_nat_str) simp_all
  have s: "strftime_Ymd t = ?y @ ?m @ ?d" by (simp add: strftime_Ymd_def)
  have "set (strftime_Ymd t) \<subseteq> set ''0123456789''"
    unfolding s using zero_pad_digits by (auto simp del: set_simps)
  moreover have "take 4 (strftime_Ymd t) = ?y" "take 2 (drop 4 (strftime_Ymd t)) = ?m"
    "drop 6 (strftime_Ymd t) = ?d"
    unfolding s using ly lm ld by simp_all
  ultimately show ?thesis
    using ly lm ld by (simp add: s nat_of_digits_zero_pad nat_of_digits_nat_str del: set_simps)
qed

lemma split_on_absent: "c \<notin> set s \<Longrightarrow> split_on c s = [s]"
  by (subst split_on_unfold) auto

lemma path_name_plain:
  assumes "CHR ''/'' \<notin> set p" and "p \<noteq> []" and "p \<noteq> ''.''"
  shows "path_name p = p"
  using assms by (simp add: path_name_def split_on_absent)

lemma rfind_last:
  assumes "c \<notin> set ext"
  shows "rfind c (b @ c # ext) = Some (length b)"
proof -
  have "takeWhile (\<lambda>x. x \<noteq> c) (rev ext @ c # rev b) = rev ext"
    using assms by (simp add: takeWhile_append)
  then show ?thesis by (simp add: rfind_def)
qed

lemma stem_strips_extension:
  assumes "CHR ''/'' \<notin> set b" and "CHR ''/'' \<notin> set ext" and "CHR ''.'' \<notin> set ext"
    and "b \<noteq> []" and "ext \<noteq> []"
  shows "stem (b @ ''.'' @ ext) = b"
proof -
  have n: "path_name (b @ CHR ''.'' # ext) = b @ CHR ''.'' # ext"
    using assms by (intro path_name_plain) (auto simp: append_eq_Cons_conv)
  show ?thesis
    using assms(4,5) by (simp add: stem_def n rfind_last[OF assms(3)] Let_def)
qed

lemma take_five:
  assumes "5 \<le> length l"
  shows "take 5 l = [l ! 0, l ! 1, l ! 2, l ! 3, l ! 4]"
proof -
  from assms obtain a l1 where 1: "l = a # l1" by (cases l) auto
  with assms obtain b l2 where 2: "l1 = b # l2" by (cases l1) auto
  with 1 assms obtain c l3 where 3: "l2 = c # l3" by (cases l2) auto
  with 1 2 assms obtain d l4 where 4: "l3 = d # l4" by (cases l3) auto
  with 1 2 3 assms obtain e l5 where 5: "l4 = e # l5" by (cases l4) auto
  with 1 2 3 4 show ?thesis by simp
qed

lemma fields_2024: "fst (invoice_fields ''2024-001-20240115'' w) = (''2024'', ''001'')"
  by (simp add: invoice_fields_hyphen)

lemma invoice_number_hyphen:
  assumes "CHR ''-'' \<in> set s"
  shows "fst (fst (invoice_fields s w)) \<noteq> s"
proof
  assume "fst (fst (invoice_fields s w)) = s"
  then have "takeWhile (\<lambda>x. x \<noteq> CHR ''-'') s = s"
    by (simp add: invoice_fields_hyphen[OF assms])
  then have "\<forall>x\<in>set s. x \<noteq> CHR ''-''" by simp
  with assms show False by blast
qed

lemma texts_calls: "texts (calls xs (FPDF a b c)) = concat (map cell_text xs)"
  by (simp add: texts_def calls_def FPDF_def)

lemma ops_calls: "ops (calls xs (FPDF a b c)) = xs"
  by (simp add: calls_def FPDF_def)

lemma page_heading:
  "take 2 (concat (map cell_text (page_ops lib nr date df total_sum cn lops))) =
     [''Invoice nr.'' @ nr, ''Date: '' @ date]"
  by (simp add: page_ops_def)

lemma header_texts:
  "5 \<le> length labels \<Longrightarrow> concat (map cell_text (header_ops labels)) = take 5 labels"
  by (simp add: header_ops_def take_five)

lemma row_texts:
  "concat (map cell_text (row_ops lib df row)) =
     map (\<lambda>key. py_str lib (field df row key)) required_columns"
  by (simp add: row_ops_def required_columns_def)

lemma rows_texts:
  "concat (map cell_text (concat (map (row_ops lib df) rs))) =
     concat (map (\<lambda>row. map (\<lambda>key. py_str lib (field df row key)) required_columns) rs)"
  by (induction rs) (simp_all add: row_texts)

lemma total_texts:
  "concat (map cell_text (total_ops lib total_sum)) =
     [[], [], [], [], py_str lib total_sum, ''The total price is '' @ py_str lib total_sum]"
  by (simp add: total_ops_def)

lemma logo_texts: "logo_ops lib path logo = Inr lops \<Longrightarrow> concat (map cell_text lops) = []"
  by (auto simp: logo_ops_def and_then_eq_Inr split: option.splits)

lemma logo_ops_None: "logo_ops lib path None = Inr []"
  by (simp add: logo_ops_def)

lemma page_texts:
  assumes "columns df = map StrV hs" and "5 \<le> length hs"
    and "logo_ops lib path logo = Inr lops"
  shows "texts (calls (page_ops lib nr date df total_sum cn lops) (FPDF ''P'' ''mm'' ''A4'')) =
           [''Invoice nr.'' @ nr, ''Date: '' @ date] @
           map (header_label lib) (take 5 hs) @
           concat (map (\<lambda>row. map (\<lambda>key. py_str lib (field df row key)) required_columns)
             (iterrows lib df)) @
           [[], [], [], [], py_str lib total_sum, ''The total price is '' @ py_str lib total_sum,
            cn]"
  using assms(2)
  by (simp add: texts_calls page_ops_def assms(1) comp_def header_texts rows_texts total_texts
      logo_texts[OF assms(3)] take_map)

lemma page_ops_tail:
  "page_ops lib nr date df total_sum cn lops =
     ([AddPage, SetFont ''Times'' 16 ''B'', Cell 50 8 (''Invoice nr.'' @ nr) 0 1,
       SetFont ''Times'' 16 ''B'', Cell 50 8 (''Date: '' @ date) 0 1] @
      header_ops (map (header_label lib \<circ> text_of) (columns df)) @
      concat (map (row_ops lib df) (iterrows lib df)) @
      [SetFont ''Times'' 10 [], SetTextColor 80 80 80,
       Cell 30 8 [] 1 0, Cell 70 8 [] 1 0, Cell 30 8 [] 1 0, Cell 30 8 [] 1 0,
       Cell 30 8 (py_str lib total_sum) 1 1]) @
     [SetFont ''Times'' 10 ''B'', Cell 30 8 (''The total price is '' @ py_str lib total_sum) 0 1,
      SetFont ''Times'' 10 ''B'', Cell 25 8 cn 0 0] @ lops"
  by (simp add: page_ops_def total_ops_def)

lemma title_ascii: "list_all is_ascii s \<Longrightarrow> title lib s = title_from False s"
  by (simp add: title_def)

lemma header_label_examples:
  "header_label lib ''product_id'' = ''Product Id''"
  "header_label lib ''product_name'' = ''Product Name''"
  "header_label lib ''amount_purchased'' = ''Amount Purchased''"
  "header_label lib ''price_per_unit'' = ''Price Per Unit''"
  "header_label lib ''total_price'' = ''Total Price''"
  "header_label lib ''note'' = ''Note''"
proof -
  have a: "list_all is_ascii (replace CHR ''_'' CHR '' '' ''product_id'')"
    "list_all is_ascii (replace CHR ''_'' CHR '' '' ''product_name'')"
    "list_all is_ascii (replace CHR ''_'' CHR '' '' ''amount_purchased'')"
    "list_all is_ascii (replace CHR ''_'' CHR '' '' ''price_per_unit'')"
    "list_all is_ascii (replace CHR ''_'' CHR '' '' ''total_price'')"
    "list_all is_ascii (replace CHR ''_'' CHR '' '' ''note'')"
    by code_simp+
  have t: "title_from False (replace CHR ''_'' CHR '' '' ''product_id'') = ''Product Id''"
    "title_from False (replace CHR ''_'' CHR '' '' ''product_name'') = ''Product Name''"
    "title_from False (replace CHR ''_'' CHR '' '' ''amount_purchased'') = ''Amount Purchased''"
    "title_from False (replace CHR ''_'' CHR '' '' ''price_per_unit'') = ''Price Per Unit''"
    "title_from False (replace CHR ''_'' CHR '' '' ''total_price'') = ''Total Price''"
    "title_from False (replace CHR ''_'' CHR '' '' ''note'') = ''Note''"
    by code_simp+
  show "header_label lib ''product_id'' = ''Product Id''"
    "header_label lib ''product_name'' = ''Product Name''"
    "header_label lib ''amount_purchased'' = ''Amount Purchased''"
    "header_label lib ''price_per_unit'' = ''Price Per Unit''"
    "header_label lib ''total_price'' = ''Total Price''"
    "header_label lib ''note'' = ''Note''"
    unfolding header_label_def by (simp_all only: title_ascii[OF a(1)] title_ascii[OF a(2)]
        title_ascii[OF a(3)] title_ascii[OF a(4)] title_ascii[OF a(5)] title_ascii[OF a(6)] t)
qed

lemma required_labels:
  "map (header_label lib \<circ> text_of) (map StrV required_columns) =
     [''Product Id'', ''Product Name'', ''Amount Purchased'', ''Price Per Unit'', ''Total Price'']"
  by (simp add: required_columns_def header_label_examples)

lemma row_get_present:
  assumes "columns df = map StrV hs" and "length row = length hs" and "key \<in> set hs"
  shows "\<exists>v. row_get df row key = Inr v"
proof -
  have "StrV key \<in> set (map fst (zip (map StrV hs) row))"
    using assms(2,3) by simp
  then have "map_of (zip (map StrV hs) row) (StrV key) \<noteq> None"
    by (simp only: map_of_eq_None_iff set_map not_not)
  then show ?thesis by (auto simp: row_get_def assms(1))
qed

lemma has_fields_wf:
  assumes "columns df = map StrV hs" and "length row = length hs"
    and "set required_columns \<subseteq> set hs"
  shows "has_fields df row"
  unfolding has_fields_iff using row_get_present[OF assms(1,2)] assms(3) by blast

lemma int_str_zero: "int_str 0 = ''0''"
  by (simp add: int_str_def nat_str.simps)

lemma nat_str_examples:
  "int_str 101 = ''101''" "int_str 2 = ''2''" "int_str 50 = ''50''" "int_str 100 = ''100''"
  "int_str 102 = ''102''" "int_str 1 = ''1''" "int_str 5 = ''5''" "int_str 20 = ''20''"
  "int_str 103 = ''103''" "int_str 7 = ''7''"
  by (simp_all add: int_str_def nat_str.simps)

lemma positional_examples:
  "positional 400 = ''400.0''" "positional 100 = ''100.0''" "positional 50 = ''50.0''"
  "positional (501 / 2) = ''250.5''" "positional (99 / 2) = ''49.5''"
  "positional (1 / 4) = ''0.25''" "positional (3 / 8) = ''0.375''"
  "positional 101 = ''101.0''" "positional 2 = ''2.0''" "positional 7 = ''7.0''"
  by code_simp+

lemma draw_invoice_texts:
  assumes "read_excel (payload f) ''Sheet 1'' = Inr df"
    and "columns df = map StrV hs" and "5 \<le> length hs"
    and "set required_columns \<subseteq> set hs"
    and "\<forall>row\<in>set (rows df). length row = length hs"
    and "series_sum lib (map (\<lambda>row. field df row ''total_price'') (rows df)) = Inr total_sum"
    and "logo_ops lib (logo_path lib (snd (invoice_fields (stem (name f)) w))) logo = Inr lops"
  shows "\<exists>page.
           fst (draw_invoice lib f cn logo w) = Inr (page, stem (name f)) \<and>
           texts page =
             [''Invoice nr.'' @ fst (fst (invoice_fields (stem (name f)) w)),
              ''Date: '' @ snd (fst (invoice_fields (stem (name f)) w))] @
             map (header_label lib) (take 5 hs) @
             concat (map (\<lambda>row. map (\<lambda>key. py_str lib (field df row key)) required_columns)
               (iterrows lib df)) @
             [[], [], [], [], py_str lib total_sum,
              ''The total price is '' @ py_str lib total_sum, cn] \<and>
           fst (create_pdf_from_excel lib f cn logo w) =
             (case pdf_output lib (next_reading (snd (draw_invoice lib f cn logo w))) page of
                Inl e \<Rightarrow> Inl (Exception (''Error processing '' @ name f @ '': '' @ str_exn e))
              | Inr pdf_bytes \<Rightarrow> Inr (pdf_bytes, stem (name f)))"
proof -
  let ?nr = "fst (fst (invoice_fields (stem (name f)) w))"
  let ?date = "snd (fst (invoice_fields (stem (name f)) w))"
  let ?page = "calls (page_ops lib ?nr ?date df total_sum cn lops) (FPDF ''P'' ''mm'' ''A4'')"
  have h: "list_all (has_fields df) (rows df)"
    using assms(5) by (auto simp: list_all_iff intro: has_fields_wf[OF assms(2) _ assms(4)])
  have "''total_price'' \<in> set required_columns" by (simp add: required_columns_def)
  with assms(4) have "StrV ''total_price'' \<in> set (columns df)" by (auto simp: assms(2))
  from column_total_price[OF this h]
  have c: "column df ''total_price'' = Inr (map (\<lambda>row. field df row ''total_price'') (rows df))" .
  have i: "fst (invoice_fields (stem (name f)) w) = (?nr, ?date)" by simp
  have d: "fst (draw_invoice lib f cn logo w) = Inr (?page, stem (name f))"
    by (rule draw_invoice_ok[OF assms(1,2,3) h c assms(6,7) i])
  from d page_texts[OF assms(2,3,7), of ?nr ?date total_sum cn] create_of_page[OF d]
  show ?thesis by blast
qed

subsection \<open>The clock\<close>

lemma stable_date_clock: "clock v = clock w \<Longrightarrow> stable_date d v = stable_date d w"
  by (simp add: stable_date_def)

lemma frozen_clock: "clock v = clock w \<Longrightarrow> frozen t v = frozen t w"
  by (simp add: frozen_def)

lemma frozen_next_reading: "frozen t w \<Longrightarrow> next_reading w = t"
  by (simp add: frozen_def next_reading_def)

lemma stable_next_reading: "stable_date d w \<Longrightarrow> strftime_Ymd (next_reading w) = d"
  by (simp add: stable_date_def next_reading_def)

lemma logo_ops_path_free:
  "logo = None \<or> path_free lib \<Longrightarrow> logo_ops lib path logo = logo_ops lib path' logo"
proof (cases logo)
  case None
  then show ?thesis by (simp add: logo_ops_def)
next
  case (Some data)
  assume "logo = None \<or> path_free lib"
  with Some have "load_image lib path data = load_image lib path' data"
    by (simp add: path_free_def)
  with Some show ?thesis by (simp add: logo_ops_def)
qed

text \<open>
  What a conversion takes from the state: the date where the name has no hyphen, the
  name of the temporary file, and the reading at which the document is written.
\<close>

lemma fst_draw_invoice_same:
  assumes "clock w' = clock w" and "stable_date d w"
    and "logo = None \<or> path_free lib \<or> frozen t w"
  shows "fst (draw_invoice lib file cn logo w') = fst (draw_invoice lib file cn logo w)"
proof -
  from assms(1,2) have s': "stable_date d w'" by (simp add: stable_date_def)
  have i: "fst (invoice_fields (stem (name file)) w') = fst (invoice_fields (stem (name file)) w)"
    by (simp add: fst_invoice_fields stable_next_reading[OF assms(2)] stable_next_reading[OF s'])
  let ?v = "snd (invoice_fields (stem (name file)) w)"
  let ?v' = "snd (invoice_fields (stem (name file)) w')"
  have c: "clock ?v = clock w" "clock ?v' = clock w"
    by (simp_all add: clock_invoice_fields assms(1))
  have l: "logo_ops lib (logo_path lib ?v') logo = logo_ops lib (logo_path lib ?v) logo"
  proof (cases "frozen t w")
    case True
    with c have "frozen t ?v" "frozen t ?v'" by (simp_all add: frozen_def)
    then have "logo_path lib ?v' = logo_path lib ?v"
      by (simp add: logo_path_def frozen_next_reading)
    then show ?thesis by simp
  next
    case False
    with assms(3) have "logo = None \<or> path_free lib" by simp
    then show ?thesis by (rule logo_ops_path_free)
  qed
  show ?thesis by (simp add: fst_draw_invoice i l)
qed

lemma fst_create_same:
  assumes "clock w' = clock w" and "stable_date d w"
    and "clock_blind lib logo \<or> frozen t w"
  shows "fst (create_pdf_from_excel lib file cn logo w') =
         fst (create_pdf_from_excel lib file cn logo w)"
proof -
  from assms(3) have "logo = None \<or> path_free lib \<or> frozen t w"
    by (auto simp: clock_blind_def)
  from fst_draw_invoice_same[OF assms(1,2) this]
  have d: "fst (draw_invoice lib file cn logo w') = fst (draw_invoice lib file cn logo w)" .
  let ?v = "snd (draw_invoice lib file cn logo w)"
  let ?v' = "snd (draw_invoice lib file cn logo w')"
  have c: "clock ?v = clock w" "clock ?v' = clock w"
    by (simp_all add: clock_draw_invoice assms(1))
  have o: "pdf_output lib (next_reading ?v') page = pdf_output lib (next_reading ?v) page"
    for page
  proof (cases "frozen t w")
    case True
    with c have "frozen t ?v" "frozen t ?v'" by (simp_all add: frozen_def)
    then show ?thesis by (simp add: frozen_next_reading)
  next
    case False
    with assms(3) have "time_free lib" by (simp add: clock_blind_def)
    then show ?thesis by (simp add: time_free_def)
  qed
  show ?thesis by (simp add: fst_create d o split: sum.splits prod.splits)
qed

lemma fold_process_same:
  assumes "clock w' = clock w" and "stable_date d w"
    and "clock_blind lib logo \<or> frozen t w"
  shows "fst (fold (process_file lib cn logo) fs (b, w')) =
         fst (fold (process_file lib cn logo) fs (b, w))"
  using assms
proof (induction fs arbitrary: b w w')
  case Nil
  then show ?case by simp
next
  case (Cons f fs)
  obtain b1 w1 where s1: "process_file lib cn logo f (b, w) = (b1, w1)"
    by (cases "process_file lib cn logo f (b, w)")
  obtain b2 w2 where s2: "process_file lib cn logo f (b, w') = (b2, w2)"
    by (cases "process_file lib cn logo f (b, w')")
  from fst_create_same[OF Cons.prems, of f cn] have "b2 = b1"
    using process_file_fst[of lib cn logo f b w] process_file_fst[of lib cn logo f b w'] s1 s2
    by simp
  moreover from s1 s2 have c: "clock w1 = clock w" "clock w2 = clock w"
    using process_file_snd[of lib cn logo f b w] process_file_snd[of lib cn logo f b w']
      Cons.prems(1)
    by (simp_all add: clock_create)
  moreover from c Cons.prems(2) have "stable_date d w1" by (simp add: stable_date_def)
  moreover from c Cons.prems(3) have "clock_blind lib logo \<or> frozen t w1"
    by (simp add: frozen_def)
  ultimately show ?case using Cons.IH[of w2 w1 b1] s1 s2 c by simp
qed

lemma pages_same:
  assumes "clock w' = clock w" and "stable_date d w"
    and "logo = None \<or> path_free lib \<or> frozen t w"
  shows "pages lib fs cn logo w' = pages lib fs cn logo w"
  using assms
proof (induction fs arbitrary: w w')
  case Nil
  then show ?case by simp
next
  case (Cons f fs)
  let ?w1 = "snd (create_pdf_from_excel lib f cn logo w)"
  let ?w2 = "snd (create_pdf_from_excel lib f cn logo w')"
  have c: "clock ?w1 = clock w" "clock ?w2 = clock w"
    by (simp_all add: clock_create Cons.prems(1))
  from c Cons.prems(2) have s: "stable_date d ?w1" by (simp add: stable_date_def)
  from c Cons.prems(3) have l: "logo = None \<or> path_free lib \<or> frozen t ?w1"
    by (simp add: frozen_def)
  from c have "clock ?w2 = clock ?w1" by simp
  from Cons.IH[OF this s l] fst_draw_invoice_same[OF Cons.prems, of f cn]
  show ?case by simp
qed


subsection \<open>The batch and the results of its sources\<close>

lemma length_outcomes: "length (outcomes lib fs cn logo w) = length fs"
  by (induction fs arbitrary: w) simp_all

lemma length_entries_converted:
  "length rs = length fs \<Longrightarrow>
   length (error_entries fs rs) + length (converted fs rs) = length fs"
proof (induction fs rs rule: error_entries.induct)
qed simp_all

lemma length_error_entries:
  "length rs = length fs \<Longrightarrow> length (error_entries fs rs) = length (filter isl rs)"
proof (induction fs rs rule: error_entries.induct)
qed simp_all

lemma converted_subset: "set (converted fs rs) \<subseteq> set fs"
proof (induction fs rs rule: converted.induct)
qed auto

lemma converted_distinct: "distinct (map g fs) \<Longrightarrow> distinct (map g (converted fs rs))"
proof (induction fs rs rule: converted.induct)
  case (1 f fs r rs)
  with converted_subset[of fs rs] show ?case by auto
qed simp_all

lemma output_names_outcomes:
  "map (\<lambda>f. stem (name f) @ ''.pdf'') fs = map output_name fs"
  by (simp add: output_name_def)

lemma errors_fold:
  "errors (fst (fold (process_file lib cn logo) fs (b, w))) =
     errors b @ error_entries fs (outcomes lib fs cn logo w)"
proof (induction fs arbitrary: b w)
  case Nil
  then show ?case by simp
next
  case (Cons f fs)
  obtain b1 w1 where s: "process_file lib cn logo f (b, w) = (b1, w1)"
    by (cases "process_file lib cn logo f (b, w)")
  from s have w1: "w1 = snd (create_pdf_from_excel lib f cn logo w)"
    using process_file_snd[of lib cn logo f b w] by simp
  from s have b1: "b1 = fst (process_file lib cn logo f (b, w))" by simp
  show ?case
  proof (cases "fst (create_pdf_from_excel lib f cn logo w)")
    case (Inl e)
    with b1 have "errors b1 = errors b @ [error_entry f e]"
      by (simp add: process_file_fst error_entry_def)
    with Cons.IH[of b1 w1] s w1 Inl show ?thesis by simp
  next
    case (Inr r)
    with b1 have "errors b1 = errors b" by (simp add: process_file_fst split: prod.splits)
    with Cons.IH[of b1 w1] s w1 Inr show ?thesis by simp
  qed
qed

lemma keys_fold:
  "fst ` set (pdf_files (fst (fold (process_file lib cn logo) fs (b, w)))) =
     fst ` set (pdf_files b) \<union> output_name ` set (converted fs (outcomes lib fs cn logo w))"
proof (induction fs arbitrary: b w)
  case Nil
  then show ?case by simp
next
  case (Cons f fs)
  obtain b1 w1 where s: "process_file lib cn logo f (b, w) = (b1, w1)"
    by (cases "process_file lib cn logo f (b, w)")
  from s have w1: "w1 = snd (create_pdf_from_excel lib f cn logo w)"
    using process_file_snd[of lib cn logo f b w] by simp
  from s have b1: "b1 = fst (process_file lib cn logo f (b, w))" by simp
  show ?case
  proof (cases "fst (create_pdf_from_excel lib f cn logo w)")
    case (Inl e)
    with b1 have "pdf_files b1 = pdf_files b" by (simp add: process_file_fst)
    with Cons.IH[of b1 w1] s w1 Inl show ?thesis by simp
  next
    case (Inr r)
    obtain bs fn where r: "r = (bs, fn)" by (cases r)
    with Inr have fn: "fn = stem (name f)" by (auto dest: create_filename)
    from b1 Inr r fn have "pdf_files b1 = AList.update (output_name f) bs (pdf_files b)"
      by (simp add: process_file_fst output_name_def)
    then have "fst ` set (pdf_files b1) = insert (output_name f) (fst ` set (pdf_files b))"
      by (simp add: keys_update)
    with Cons.IH[of b1 w1] s w1 Inr show ?thesis by simp
  qed
qed

lemma convert_outcomes:
  "errors (fst (convert lib fs cn logo w)) = error_entries fs (outcomes lib fs cn logo w)"
  "set (map fst (pdf_files (fst (convert lib fs cn logo w)))) =
     output_name ` set (converted fs (outcomes lib fs cn logo w))"
  "length (pdf_files (fst (convert lib fs cn logo w))) =
     card (output_name ` set (converted fs (outcomes lib fs cn logo w)))"
proof -
  show e: "errors (fst (convert lib fs cn logo w)) =
      error_entries fs (outcomes lib fs cn logo w)"
    by (simp add: convert_def errors_fold)
  show k: "set (map fst (pdf_files (fst (convert lib fs cn logo w)))) =
     output_name ` set (converted fs (outcomes lib fs cn logo w))"
    by (simp add: convert_def keys_fold)
  have "length (pdf_files (fst (convert lib fs cn logo w))) =
      length (map fst (pdf_files (fst (convert lib fs cn logo w))))"
    by simp
  also have "\<dots> = card (set (map fst (pdf_files (fst (convert lib fs cn logo w)))))"
    by (rule distinct_card[symmetric]) (rule convert_distinct)
  finally show "length (pdf_files (fst (convert lib fs cn logo w))) =
     card (output_name ` set (converted fs (outcomes lib fs cn logo w)))"
    by (simp only: k)
qed

lemma card_names:
  "card (g ` set xs) \<le> length xs \<and> (card (g ` set xs) = length xs \<longleftrightarrow> distinct (map g xs))"
proof -
  have "card (set (map g xs)) \<le> length (map g xs)" by (rule card_length)
  moreover have "card (set (map g xs)) = length (map g xs) \<longleftrightarrow> distinct (map g xs)"
    using card_distinct distinct_card by blast
  ultimately show ?thesis by simp
qed

subsection \<open>The examples\<close>

lemma example_output:
  "pdf_output example_library t doc =
     Inr (map of_char (''D:'' @ strftime_YmdHMS t @ concat (texts doc)))"
  by (simp add: example_library_def)

lemma stem_examples:
  "stem ''A.xlsx'' = ''A''" "stem ''B.xlsx'' = ''B''"
  "stem ''2024-001-20240115.xlsx'' = ''2024-001-20240115''"
  "stem ''INV2024.xlsx'' = ''INV2024''" "stem ''T-1.xlsx'' = ''T-1''"
  "stem ''M-1.xlsx'' = ''M-1''" "stem ''N-7.xlsx'' = ''N-7''" "stem ''Y-1.xlsx'' = ''Y-1''"
  "stem ([CHR 0xE2, CHR 0x82, CHR 0xAC] @ ''.xlsx'') = [CHR 0xE2, CHR 0x82, CHR 0xAC]"
  by code_simp+

lemma stable_example_world: "stable_date ''20240115'' example_world"
  by (simp add: stable_date_def example_world_def example_time_def strftime_Ymd_def zero_pad_def
      nat_str.simps)

lemma stable_frozen_world: "stable_date ''20240115'' frozen_world"
  by (simp add: stable_date_def frozen_world_def example_time_def strftime_Ymd_def zero_pad_def
      nat_str.simps)

lemma frozen_frozen_world: "frozen (example_time 0) frozen_world"
  by (simp add: frozen_def frozen_world_def)

lemma iterrows_invoice_table: "iterrows lib invoice_table = rows invoice_table"
  by (simp add: iterrows_def invoice_table_def)

lemma has_fields_invoice_table: "list_all (has_fields invoice_table) (rows invoice_table)"
  by (simp add: invoice_table_def has_fields_def required_columns_def row_get_def field_def)

lemma column_invoice_table:
  "column invoice_table ''total_price'' =
     Inr [FloatV (Finite 100), FloatV (Finite (501 / 2)), FloatV (Finite (99 / 2))]"
  by (simp add: invoice_table_def column_def required_columns_def row_get_def)

lemma sum_invoice_table:
  "series_sum example_library
     [FloatV (Finite 100), FloatV (Finite (501 / 2)), FloatV (Finite (99 / 2))] =
   Inr (FloatV (Finite 400))"
  by (simp add: series_sum_def example_library_def)

lemma draw_empty_table:
  assumes "read_excel (payload file) ''Sheet 1'' = Inr empty_table"
    and "logo_ops lib (logo_path lib (snd (invoice_fields (stem (name file)) w))) logo = Inr lops"
    and "fst (invoice_fields (stem (name file)) w) = (nr, date)"
  shows "fst (draw_invoice lib file cn logo w) =
           Inr (calls (page_ops lib nr date empty_table (IntV 0) cn lops) (FPDF ''P'' ''mm'' ''A4''),
                stem (name file))"
proof (rule draw_invoice_ok[OF assms(1) _ _ _ _ _ assms(2,3)])
  show "columns empty_table = map StrV required_columns" by (simp add: empty_table_def)
  show "5 \<le> length required_columns" by (simp add: required_columns_def)
  show "list_all (has_fields empty_table) (rows empty_table)" by (simp add: empty_table_def)
  show "column empty_table ''total_price'' = Inr []"
    by (simp add: column_def empty_table_def required_columns_def)
  show "series_sum lib [] = Inr (IntV 0)" by (simp add: series_sum_def)
qed

lemma draw_invoice_table:
  assumes "read_excel (payload file) ''Sheet 1'' = Inr invoice_table"
    and "fst (invoice_fields (stem (name file)) w) = (nr, date)"
  shows "fst (draw_invoice example_library file cn None w) =
           Inr (calls (page_ops example_library nr date invoice_table (FloatV (Finite 400)) cn [])
                  (FPDF ''P'' ''mm'' ''A4''),
                stem (name file))"
proof (rule draw_invoice_ok[OF assms(1) _ _ has_fields_invoice_table column_invoice_table
      sum_invoice_table logo_ops_None assms(2)])
  show "columns invoice_table = map StrV required_columns" by (simp add: invoice_table_def)
  show "5 \<le> length required_columns" by (simp add: required_columns_def)
qed

lemma example_create_ok:
  assumes "fst (draw_invoice example_library file cn logo w) = Inr (doc, fn)"
  shows "\<exists>bs. fst (create_pdf_from_excel example_library file cn logo w) = Inr (bs, fn)"
  by (simp add: create_of_page[OF assms] example_output)

lemma upload_A_ok:
  "\<exists>bs. fst (create_pdf_from_excel example_library upload_A cn None w) = Inr (bs, ''A'')"
proof -
  obtain nr date where i: "fst (invoice_fields (stem (name upload_A)) w) = (nr, date)"
    by (cases "fst (invoice_fields (stem (name upload_A)) w)")
  have r: "read_excel (payload upload_A) ''Sheet 1'' = Inr empty_table"
    by (simp add: upload_A_def read_excel_def)
  from example_create_ok[OF draw_empty_table[OF r logo_ops_None i]]
  show ?thesis by (simp add: upload_A_def stem_examples)
qed

lemma upload_B_ok:
  "\<exists>bs. fst (create_pdf_from_excel example_library upload_B cn None w) = Inr (bs, ''B'')"
proof -
  obtain nr date where i: "fst (invoice_fields (stem (name upload_B)) w) = (nr, date)"
    by (cases "fst (invoice_fields (stem (name upload_B)) w)")
  have r: "read_excel (payload upload_B) ''Sheet 1'' = Inr empty_table"
    by (simp add: upload_B_def read_excel_def)
  from example_create_ok[OF draw_empty_table[OF r logo_ops_None i]]
  show ?thesis by (simp add: upload_B_def stem_examples)
qed

lemma upload_A_again_ok:
  "\<exists>bs. fst (create_pdf_from_excel example_library upload_A_again cn None w) = Inr (bs, ''A'')"
proof -
  obtain nr date where i: "fst (invoice_fields (stem (name upload_A_again)) w) = (nr, date)"
    by (cases "fst (invoice_fields (stem (name upload_A_again)) w)")
  have r: "read_excel (payload upload_A_again) ''Sheet 1'' = Inr invoice_table"
    by (simp add: upload_A_again_def read_excel_def)
  from example_create_ok[OF draw_invoice_table[OF r i]]
  show ?thesis by (simp add: upload_A_again_def stem_examples)
qed

lemma upload_2024_ok:
  "\<exists>bs. fst (create_pdf_from_excel example_library upload_2024 cn None w) =
         Inr (bs, ''2024-001-20240115'')"
proof -
  obtain nr date where i: "fst (invoice_fields (stem (name upload_2024)) w) = (nr, date)"
    by (cases "fst (invoice_fields (stem (name upload_2024)) w)")
  have r: "read_excel (payload upload_2024) ''Sheet 1'' = Inr invoice_table"
    by (simp add: upload_2024_def read_excel_def)
  from example_create_ok[OF draw_invoice_table[OF r i]]
  show ?thesis by (simp add: upload_2024_def stem_examples)
qed

lemma upload_no_sheet_fails:
  "fst (draw_invoice lib upload_no_sheet cn logo w) =
     Inl (ValueError (''Worksheet named '' @ quote ''Sheet 1'' @ '' not found''))"
  by (simp add: fst_draw_invoice upload_no_sheet_def read_excel_def)

lemma upload_year_column_fails:
  "fst (draw_invoice lib upload_year_column cn logo w) =
     Inl (AttributeError (quote ''int'' @ '' object has no attribute '' @ quote ''replace''))"
  by (simp add: fst_draw_invoice upload_year_column_def read_excel_def year_column_table_def
      table_header_def required_columns_def)

section \<open>The claims\<close>

subsection \<open>C1: successes and errors against the number of sources\<close>

text \<open>
  C1 as stated fails: two uploads that are both named \<^verbatim>\<open>A.xlsx\<close> are both converted, and
  the second document replaces the first under the one name \<^verbatim>\<open>A.pdf\<close>, so that one
  success and no error stand against two sources.
\<close>

theorem convert_counts_counterexample:
  "name upload_A = ''A.xlsx'' \<and> name upload_A_again = ''A.xlsx'' \<and>
   map fst (pdf_files (fst (convert example_library [upload_A, upload_A_again] ''PythonHow'' None
      example_world))) = [''A.pdf''] \<and>
   errors (fst (convert example_library [upload_A, upload_A_again] ''PythonHow'' None
      example_world)) = [] \<and>
   length (pdf_files (fst (convert example_library [upload_A, upload_A_again] ''PythonHow'' None
      example_world))) +
   length (errors (fst (convert example_library [upload_A, upload_A_again] ''PythonHow'' None
      example_world)))
   \<noteq> length [upload_A, upload_A_again]"
proof -
  let ?s0 = "(\<lparr>pdf_files = [], errors = []\<rparr>, example_world)"
  let ?s1 = "process_file example_library ''PythonHow'' None upload_A ?s0"
  obtain bs1 where 1: "fst (create_pdf_from_excel example_library upload_A ''PythonHow'' None
      example_world) = Inr (bs1, ''A'')"
    using upload_A_ok by blast
  obtain bs2 where 2: "fst (create_pdf_from_excel example_library upload_A_again ''PythonHow'' None
      (snd ?s1)) = Inr (bs2, ''A'')"
    using upload_A_again_ok by blast
  have s1: "fst ?s1 = \<lparr>pdf_files = [(''A.pdf'', bs1)], errors = []\<rparr>"
    by (simp add: process_file_unpaired 1)
  have "fst (convert example_library [upload_A, upload_A_again] ''PythonHow'' None example_world) =
          \<lparr>pdf_files = [(''A.pdf'', bs2)], errors = []\<rparr>"
    by (simp add: convert_def process_file_unpaired[of _ _ _ upload_A_again] 2 s1)
  then show ?thesis by (simp add: upload_A_def upload_A_again_def)
qed

text \<open>
  C1 as amended: let \<open>rs\<close> be the results of the sources, in order. The entries of
  \<open>errors\<close> are the messages of the sources that failed, one for each and in their
  order. The names in \<open>pdf_files\<close> are pairwise distinct and are the output names of the
  sources that were converted, so that converted sources with one output name share one
  entry. Hence the entries of \<open>pdf_files\<close> and \<open>errors\<close> together are at most as many as
  the sources; they are as many exactly when the output names of the converted sources
  are pairwise distinct, which is so when the stems of all sources are.
\<close>

theorem convert_counts:
  assumes "b = fst (convert lib fs cn logo w)" and "rs = outcomes lib fs cn logo w"
  shows "errors b = error_entries fs rs \<and>
         length (errors b) = length (filter isl rs) \<and>
         length (errors b) + length (converted fs rs) = length fs \<and>
         distinct (map fst (pdf_files b)) \<and>
         set (map fst (pdf_files b)) = output_name ` set (converted fs rs) \<and>
         length (pdf_files b) + length (errors b) \<le> length fs \<and>
         (length (pdf_files b) + length (errors b) = length fs \<longleftrightarrow>
            distinct (map output_name (converted fs rs))) \<and>
         (distinct (map (\<lambda>f. stem (name f)) fs) \<longrightarrow>
            length (pdf_files b) + length (errors b) = length fs)"
proof -
  have l: "length rs = length fs" by (simp add: assms(2) length_outcomes)
  have e: "errors b = error_entries fs rs" by (simp add: assms convert_outcomes(1))
  have k: "set (map fst (pdf_files b)) = output_name ` set (converted fs rs)"
    unfolding assms by (rule convert_outcomes(2))
  have n: "length (pdf_files b) = card (output_name ` set (converted fs rs))"
    unfolding assms by (rule convert_outcomes(3))
  have d: "distinct (map fst (pdf_files b))" unfolding assms(1) by (rule convert_distinct)
  have t: "length (errors b) + length (converted fs rs) = length fs"
    using length_entries_converted[OF l] by (simp add: e)
  have f: "length (errors b) = length (filter isl rs)"
    using length_error_entries[OF l] by (simp add: e)
  from card_names[of output_name "converted fs rs"]
  have c: "card (output_name ` set (converted fs rs)) \<le> length (converted fs rs)"
    and q: "card (output_name ` set (converted fs rs)) = length (converted fs rs) \<longleftrightarrow>
      distinct (map output_name (converted fs rs))"
    by simp_all
  from n c t have le: "length (pdf_files b) + length (errors b) \<le> length fs" by simp
  from n q t have eq: "length (pdf_files b) + length (errors b) = length fs \<longleftrightarrow>
      distinct (map output_name (converted fs rs))"
    by auto
  have "length (pdf_files b) + length (errors b) = length fs"
    if s: "distinct (map (\<lambda>f. stem (name f)) fs)"
  proof -
    have "inj_on (\<lambda>s::string. s @ ''.pdf'') A" for A by (simp add: inj_on_def)
    moreover have "map output_name fs = map (\<lambda>s. s @ ''.pdf'') (map (\<lambda>f. stem (name f)) fs)"
      by (simp add: output_name_def)
    ultimately have "distinct (map output_name fs)"
      using s by (simp add: distinct_map del: map_map)
    then have "distinct (map output_name (converted fs rs))" by (rule converted_distinct)
    with eq show ?thesis by simp
  qed
  with e f t d k le eq show ?thesis by simp
qed

text \<open>
  C1, witness: \<^verbatim>\<open>A.xlsx\<close>, a workbook without \<^verbatim>\<open>Sheet 1\<close> and \<^verbatim>\<open>B.xlsx\<close>: two documents
  and one error.
\<close>

theorem convert_counts_witness:
  "distinct (map (\<lambda>f. stem (name f)) [upload_A, upload_no_sheet, upload_B]) \<and>
   set (map fst (pdf_files (fst (convert example_library [upload_A, upload_no_sheet, upload_B]
      ''PythonHow'' None example_world)))) = {''A.pdf'', ''B.pdf''} \<and>
   errors (fst (convert example_library [upload_A, upload_no_sheet, upload_B] ''PythonHow'' None
      example_world)) =
     [cross_mark @ '' INV2024.xlsx: Error processing INV2024.xlsx: Worksheet named '' @
      quote ''Sheet 1'' @ '' not found''] \<and>
   length (pdf_files (fst (convert example_library [upload_A, upload_no_sheet, upload_B]
      ''PythonHow'' None example_world))) +
   length (errors (fst (convert example_library [upload_A, upload_no_sheet, upload_B]
      ''PythonHow'' None example_world))) = 3"
proof -
  let ?w1 = "snd (create_pdf_from_excel example_library upload_A ''PythonHow'' None example_world)"
  let ?w2 = "snd (create_pdf_from_excel example_library upload_no_sheet ''PythonHow'' None ?w1)"
  obtain bs1 where 1: "fst (create_pdf_from_excel example_library upload_A ''PythonHow'' None
      example_world) = Inr (bs1, ''A'')"
    using upload_A_ok by blast
  have 2: "fst (create_pdf_from_excel example_library upload_no_sheet ''PythonHow'' None ?w1) =
      Inl (Exception (''Error processing '' @ name upload_no_sheet @ '': '' @
        str_exn (ValueError (''Worksheet named '' @ quote ''Sheet 1'' @ '' not found''))))"
    by (rule create_Inl) (simp add: upload_no_sheet_fails)
  obtain bs3 where 3: "fst (create_pdf_from_excel example_library upload_B ''PythonHow'' None
      ?w2) = Inr (bs3, ''B'')"
    using upload_B_ok by blast
  have rs: "outcomes example_library [upload_A, upload_no_sheet, upload_B] ''PythonHow'' None
      example_world =
      [Inr (bs1, ''A''),
       Inl (Exception (''Error processing '' @ name upload_no_sheet @ '': '' @
        str_exn (ValueError (''Worksheet named '' @ quote ''Sheet 1'' @ '' not found'')))),
       Inr (bs3, ''B'')]"
    by (simp add: 1 2 3)
  have d: "distinct (map (\<lambda>f. stem (name f)) [upload_A, upload_no_sheet, upload_B])"
    by (simp add: upload_A_def upload_B_def upload_no_sheet_def stem_examples)
  from convert_counts[OF refl refl, of example_library "[upload_A, upload_no_sheet, upload_B]"
      "''PythonHow''" None example_world] d
  show ?thesis
    unfolding rs
    by (simp add: error_entry_def output_name_def upload_A_def upload_B_def upload_no_sheet_def
        stem_examples)
qed

subsection \<open>C8: two sources with one output name\<close>

text \<open>
  C8: when a source is converted and an earlier source of the batch has left a document
  under the same output name, the new document takes the place of the earlier one: the
  name then maps to the new document, the names in \<open>pdf_files\<close> and their order stay as
  they were (one entry for the name), no entry is added to \<open>errors\<close>, and the documents
  under the other names are untouched.
\<close>

theorem later_source_overwrites:
  assumes "convert lib fs cn logo w = (b, w1)"
    and "fst (create_pdf_from_excel lib f cn logo w1) = Inr (doc, fn)"
    and "map_of (pdf_files b) (fn @ ''.pdf'') = Some earlier"
  shows "map_of (pdf_files (fst (convert lib (fs @ [f]) cn logo w))) (fn @ ''.pdf'') = Some doc \<and>
         map fst (pdf_files (fst (convert lib (fs @ [f]) cn logo w))) = map fst (pdf_files b) \<and>
         distinct (map fst (pdf_files (fst (convert lib (fs @ [f]) cn logo w)))) \<and>
         errors (fst (convert lib (fs @ [f]) cn logo w)) = errors b \<and>
         (\<forall>k. k \<noteq> fn @ ''.pdf'' \<longrightarrow>
            map_of (pdf_files (fst (convert lib (fs @ [f]) cn logo w))) k = map_of (pdf_files b) k)"
proof -
  have r: "fst (convert lib (fs @ [f]) cn logo w) =
             b\<lparr>pdf_files := AList.update (fn @ ''.pdf'') doc (pdf_files b)\<rparr>"
    by (simp add: convert_snoc assms(1) process_file_fst assms(2))
  from assms(3) have "fn @ ''.pdf'' \<in> set (map fst (pdf_files b))"
    by (metis map_of_eq_None_iff option.distinct(1) set_map)
  then have keys: "map fst (AList.update (fn @ ''.pdf'') doc (pdf_files b)) = map fst (pdf_files b)"
    by (simp add: update_keys)
  from convert_distinct[of lib fs cn logo w] assms(1)
  have "distinct (map fst (pdf_files b))" by simp
  with keys show ?thesis by (simp add: r update_conv')
qed

text \<open>
  C8, witness: two uploads named \<^verbatim>\<open>A.xlsx\<close>, the first without rows; the one entry
  \<^verbatim>\<open>A.pdf\<close> holds the document of the second.
\<close>

theorem later_source_overwrites_witness:
  "map fst (pdf_files (fst (convert example_library ([upload_A] @ [upload_A_again]) ''PythonHow'' None
      example_world))) = [''A.pdf''] \<and>
   errors (fst (convert example_library ([upload_A] @ [upload_A_again]) ''PythonHow'' None
      example_world)) = [] \<and>
   fst (create_pdf_from_excel example_library upload_A_again ''PythonHow'' None
      (snd (convert example_library [upload_A] ''PythonHow'' None example_world))) =
     Inr (the (map_of (pdf_files (fst (convert example_library ([upload_A] @ [upload_A_again])
       ''PythonHow'' None example_world))) ''A.pdf''), ''A'')"
proof -
  let ?c1 = "convert example_library [upload_A] ''PythonHow'' None example_world"
  obtain bs1 where 1: "fst (create_pdf_from_excel example_library upload_A ''PythonHow'' None
      example_world) = Inr (bs1, ''A'')"
    using upload_A_ok by blast
  obtain bs2 where 2: "fst (create_pdf_from_excel example_library upload_A_again ''PythonHow'' None
      (snd ?c1)) = Inr (bs2, ''A'')"
    using upload_A_again_ok by blast
  have b: "fst ?c1 = \<lparr>pdf_files = [(''A.pdf'', bs1)], errors = []\<rparr>"
    by (simp add: convert_def process_file_unpaired 1)
  have c: "?c1 = (\<lparr>pdf_files = [(''A.pdf'', bs1)], errors = []\<rparr>, snd ?c1)"
    by (simp add: b[symmetric])
  have m: "map_of (pdf_files \<lparr>pdf_files = [(''A.pdf'', bs1)], errors = []\<rparr>) (''A'' @ ''.pdf'') = Some bs1"
    by simp
  from later_source_overwrites[OF c 2 m] 2 show ?thesis by simp
qed

subsection \<open>C4: the name a document is stored under\<close>

text \<open>
  C4 as stated fails: for \<^verbatim>\<open>2024-001-20240115.xlsx\<close> the invoice number is \<^verbatim>\<open>2024\<close>, and
  the document is stored as \<^verbatim>\<open>2024-001-20240115.pdf\<close>, not as \<^verbatim>\<open>2024.pdf\<close>.
\<close>

theorem stored_under_stem_counterexample:
  "map fst (pdf_files (fst (convert example_library [upload_2024] ''PythonHow'' None example_world))) =
     [''2024-001-20240115.pdf''] \<and>
   fst (fst (invoice_fields (stem (name upload_2024)) example_world)) = ''2024''"
proof -
  obtain bs where 1: "fst (create_pdf_from_excel example_library upload_2024 ''PythonHow'' None
      example_world) = Inr (bs, ''2024-001-20240115'')"
    using upload_2024_ok by blast
  have "fst (convert example_library [upload_2024] ''PythonHow'' None example_world) =
          \<lparr>pdf_files = [(''2024-001-20240115.pdf'', bs)], errors = []\<rparr>"
    by (simp add: convert_def process_file_unpaired 1)
  moreover have "fst (fst (invoice_fields (stem (name upload_2024)) example_world)) = ''2024''"
    by (simp add: upload_2024_def stem_examples fields_2024)
  ultimately show ?thesis by simp
qed

text \<open>
  C4 as amended: a converted source is stored under its whole stem followed by
  \<^verbatim>\<open>.pdf\<close>, whether or not the stem has a hyphen. The document is what the library
  writes, at the reading of the clock after the page is drawn, for the page whose
  invoice number and date are taken from that stem. The stem is the invoice number
  when it has no hyphen, and only then.
\<close>

theorem stored_under_stem:
  assumes "fst (create_pdf_from_excel lib f cn logo w) = Inr (doc, fn)"
  shows "fn = stem (name f) \<and>
         pdf_files (fst (process_file lib cn logo f (b, w))) =
           AList.update (stem (name f) @ ''.pdf'') doc (pdf_files b) \<and>
         (\<exists>df total_sum lops.
            pdf_output lib (next_reading (snd (draw_invoice lib f cn logo w)))
              (calls (page_ops lib (fst (fst (invoice_fields (stem (name f)) w)))
                        (snd (fst (invoice_fields (stem (name f)) w))) df total_sum cn lops)
                 (FPDF ''P'' ''mm'' ''A4'')) = Inr doc) \<and>
         (CHR ''-'' \<notin> set (stem (name f)) \<longrightarrow>
            fst (fst (invoice_fields (stem (name f)) w)) = stem (name f)) \<and>
         (CHR ''-'' \<in> set (stem (name f)) \<longrightarrow>
            fst (fst (invoice_fields (stem (name f)) w)) \<noteq> stem (name f))"
proof -
  from assms obtain page where d: "fst (draw_invoice lib f cn logo w) = Inr (page, fn)"
    and o: "pdf_output lib (next_reading (snd (draw_invoice lib f cn logo w))) page = Inr doc"
    by (rule create_Inr)
  from d obtain df total_sum lops where
    page: "page = calls (page_ops lib (fst (fst (invoice_fields (stem (name f)) w)))
                   (snd (fst (invoice_fields (stem (name f)) w))) df total_sum cn lops)
             (FPDF ''P'' ''mm'' ''A4'')"
    and fn: "fn = stem (name f)"
    by (rule draw_invoice_Inr)
  have "pdf_files (fst (process_file lib cn logo f (b, w))) =
           AList.update (stem (name f) @ ''.pdf'') doc (pdf_files b)"
    by (simp add: process_file_fst assms fn)
  moreover have "fst (fst (invoice_fields (stem (name f)) w)) = stem (name f)"
    if "CHR ''-'' \<notin> set (stem (name f))"
    by (simp add: invoice_fields_plain[OF that])
  moreover have "fst (fst (invoice_fields (stem (name f)) w)) \<noteq> stem (name f)"
    if "CHR ''-'' \<in> set (stem (name f))"
    using that by (rule invoice_number_hyphen)
  ultimately show ?thesis using fn o page by blast
qed

text \<open>C4, witness: \<^verbatim>\<open>A.xlsx\<close>, stored as \<^verbatim>\<open>A.pdf\<close>.\<close>

theorem stored_under_stem_witness:
  "map fst (pdf_files (fst (process_file example_library ''PythonHow'' None upload_A
      (\<lparr>pdf_files = [], errors = []\<rparr>, example_world)))) = [''A.pdf''] \<and>
   CHR ''-'' \<notin> set (stem (name upload_A)) \<and>
   fst (fst (invoice_fields (stem (name upload_A)) example_world)) = ''A''"
proof -
  obtain bs where 1: "fst (create_pdf_from_excel example_library upload_A ''PythonHow'' None
      example_world) = Inr (bs, ''A'')"
    using upload_A_ok by blast
  have s: "stem (name upload_A) = ''A''" by (simp add: upload_A_def stem_examples)
  from stored_under_stem[OF 1, of "\<lparr>pdf_files = [], errors = []\<rparr>"] show ?thesis
    by (simp add: s)
qed

subsection \<open>C5: invoice number and date from the name\<close>

text \<open>
  C5: the stem is split at every hyphen (the segments have no hyphen and, joined by
  hyphens, give the stem back). With at least two segments the invoice number is
  segment 0 and the date segment 1, whatever follows, and the clock is not read; with
  one segment the invoice number is the whole stem and the date is the reading of the
  clock as eight digits, year, month and day. These are the two values on the heading
  lines of the page. The stem of a plain name with an extension is the name without
  it; \<^verbatim>\<open>2024-001-20240115.xlsx\<close> gives the invoice number \<^verbatim>\<open>2024\<close> and the date
  \<^verbatim>\<open>001\<close>.
\<close>

theorem invoice_number_and_date:
  "join CHR ''-'' (split_on CHR ''-'' s) = s \<and>
   (\<forall>p\<in>set (split_on CHR ''-'' s). CHR ''-'' \<notin> set p) \<and>
   (2 \<le> length (split_on CHR ''-'' s) \<longrightarrow>
      invoice_fields s w = ((split_on CHR ''-'' s ! 0, split_on CHR ''-'' s ! 1), w)) \<and>
   (length (split_on CHR ''-'' s) < 2 \<longrightarrow>
      invoice_fields s w =
        ((s, strftime_Ymd (clock w (reads w))), w\<lparr>reads := Suc (reads w)\<rparr>)) \<and>
   (year t < 10000 \<and> month t < 100 \<and> day t < 100 \<longrightarrow>
      length (strftime_Ymd t) = 8 \<and> set (strftime_Ymd t) \<subseteq> set ''0123456789'' \<and>
      nat_of_digits (take 4 (strftime_Ymd t)) = year t \<and>
      nat_of_digits (take 2 (drop 4 (strftime_Ymd t))) = month t \<and>
      nat_of_digits (drop 6 (strftime_Ymd t)) = day t) \<and>
   (fst (draw_invoice lib f cn logo w) = Inr (page, fn) \<longrightarrow>
      take 2 (texts page) =
        [''Invoice nr.'' @ fst (fst (invoice_fields (stem (name f)) w)),
         ''Date: '' @ snd (fst (invoice_fields (stem (name f)) w))]) \<and>
   (CHR ''/'' \<notin> set b \<and> CHR ''/'' \<notin> set ext \<and> CHR ''.'' \<notin> set ext \<and> b \<noteq> [] \<and> ext \<noteq> [] \<longrightarrow>
      stem (b @ ''.'' @ ext) = b) \<and>
   stem ''2024-001-20240115.xlsx'' = ''2024-001-20240115'' \<and>
   fst (invoice_fields (stem ''2024-001-20240115.xlsx'') w) = (''2024'', ''001'')"
proof -
  have split: "join CHR ''-'' (split_on CHR ''-'' s) = s"
    "\<forall>p\<in>set (split_on CHR ''-'' s). CHR ''-'' \<notin> set p"
    by (simp_all add: join_split_on split_on_segments)
  have two: "invoice_fields s w = ((split_on CHR ''-'' s ! 0, split_on CHR ''-'' s ! 1), w)"
    if "2 \<le> length (split_on CHR ''-'' s)"
    using that by (simp add: invoice_fields_def Let_def)
  have one: "invoice_fields s w =
        ((s, strftime_Ymd (clock w (reads w))), w\<lparr>reads := Suc (reads w)\<rparr>)"
    if "length (split_on CHR ''-'' s) < 2"
    using that by (simp add: invoice_fields_def datetime_now_def Let_def)
  have page: "take 2 (texts page) =
        [''Invoice nr.'' @ fst (fst (invoice_fields (stem (name f)) w)),
         ''Date: '' @ snd (fst (invoice_fields (stem (name f)) w))]"
    if "fst (draw_invoice lib f cn logo w) = Inr (page, fn)"
    using that by (rule draw_invoice_Inr) (simp add: texts_calls page_heading)
  have ex: "fst (invoice_fields (stem ''2024-001-20240115.xlsx'') w) = (''2024'', ''001'')"
    by (simp add: stem_examples fields_2024)
  from split two one page ex strftime_Ymd_format[of t] stem_strips_extension[of b ext]
  show ?thesis by (simp add: stem_examples)
qed

text \<open>
  C5, witness: the stems \<^verbatim>\<open>2024-001-20240115\<close> and \<^verbatim>\<open>INV2024\<close> on 15 January 2024, and
  the heading of the page for \<^verbatim>\<open>A.xlsx\<close>.
\<close>

theorem invoice_number_and_date_witness:
  "2 \<le> length (split_on CHR ''-'' ''2024-001-20240115'') \<and>
   invoice_fields ''2024-001-20240115'' example_world = ((''2024'', ''001''), example_world) \<and>
   length (split_on CHR ''-'' ''INV2024'') < 2 \<and>
   fst (invoice_fields ''INV2024'' example_world) = (''INV2024'', ''20240115'') \<and>
   length (strftime_Ymd (clock example_world 0)) = 8 \<and>
   stem (''INV2024'' @ ''.'' @ ''xlsx'') = ''INV2024'' \<and>
   take 2 (texts (fst (projr (fst (draw_invoice example_library upload_A ''PythonHow'' None
     example_world))))) = [''Invoice nr.A'', ''Date: 20240115'']"
proof -
  have a: "2 \<le> length (split_on CHR ''-'' ''2024-001-20240115'')"
    by (simp add: split_on_two)
  have b: "length (split_on CHR ''-'' ''INV2024'') < 2"
    using split_on_two[of "CHR ''-''" "''INV2024''"] by simp
  have c: "year (clock example_world 0) < 10000 \<and> month (clock example_world 0) < 100 \<and>
      day (clock example_world 0) < 100"
    by (simp add: example_world_def example_time_def)
  have t: "strftime_Ymd (clock example_world (reads example_world)) = ''20240115''"
    using stable_example_world by (simp add: stable_date_def)
  have s: "split_on CHR ''-'' ''2024-001-20240115'' = [''2024'', ''001'', ''20240115'']"
    by simp
  obtain page where d: "fst (draw_invoice example_library upload_A ''PythonHow'' None example_world) =
      Inr (page, ''A'')"
  proof -
    obtain nr date where i: "fst (invoice_fields (stem (name upload_A)) example_world) = (nr, date)"
      by (cases "fst (invoice_fields (stem (name upload_A)) example_world)")
    have r: "read_excel (payload upload_A) ''Sheet 1'' = Inr empty_table"
      by (simp add: upload_A_def read_excel_def)
    from draw_empty_table[OF r logo_ops_None i, where cn = "''PythonHow''"] that show thesis
      by (simp add: upload_A_def stem_examples)
  qed
  have sa: "stem (name upload_A) = ''A''" by (simp add: upload_A_def stem_examples)
  have fa: "fst (invoice_fields ''A'' example_world) = (''A'', ''20240115'')"
    by (simp add: invoice_fields_plain t)
  note w1 = invoice_number_and_date[where s = "''2024-001-20240115''" and w = example_world
      and t = "clock example_world 0" and lib = example_library and f = upload_A
      and cn = "''PythonHow''" and logo = None and page = page and fn = "''A''"
      and b = "''INV2024''" and ext = "''xlsx''"]
  note w2 = invoice_number_and_date[where s = "''INV2024''" and w = example_world
      and t = "clock example_world 0" and lib = example_library and f = upload_A
      and cn = "''PythonHow''" and logo = None and page = page and fn = "''A''"
      and b = "''INV2024''" and ext = "''xlsx''"]
  from w1 a s have 1: "invoice_fields ''2024-001-20240115'' example_world =
      ((''2024'', ''001''), example_world)" by simp
  from w2 b t have 2: "fst (invoice_fields ''INV2024'' example_world) = (''INV2024'', ''20240115'')"
    by simp
  from w1 c have 3: "length (strftime_Ymd (clock example_world 0)) = 8" by blast
  from w1 have 4: "stem (''INV2024'' @ ''.'' @ ''xlsx'') = ''INV2024''" by simp
  from w1 d have 5: "take 2 (texts page) = [''Invoice nr.A'', ''Date: 20240115'']"
    by (simp add: sa fa)
  from a b 1 2 3 4 5 d show ?thesis by simp
qed

subsection \<open>C2: a source that fails\<close>




subsection \<open>C7: converting twice\<close>

lemma snd_draw_invoice_None:
  "snd (draw_invoice lib f cn None w) = snd (invoice_fields (stem (name f)) w)"
  by (simp add: draw_invoice_def add_logo_None Let_def split: prod.splits sum.splits)

lemma snd_create:
  "snd (create_pdf_from_excel lib f cn logo w) =
     (case fst (draw_invoice lib f cn logo w) of
        Inl e \<Rightarrow> snd (draw_invoice lib f cn logo w)
      | Inr r \<Rightarrow>
          (snd (draw_invoice lib f cn logo w))
          \<lparr>reads := Suc (reads (snd (draw_invoice lib f cn logo w)))\<rparr>)"
  by (simp add: create_pdf_from_excel_def datetime_now_def split: prod.splits sum.splits)

lemma example_document_A:
  "fst (create_pdf_from_excel example_library upload_A cn None w) =
     Inr (map of_char (''D:'' @ strftime_YmdHMS (clock w (Suc (reads w))) @
            concat [''Invoice nr.A'', ''Date: '' @ strftime_Ymd (clock w (reads w)),
              ''Product Id'', ''Product Name'', ''Amount Purchased'', ''Price Per Unit'',
              ''Total Price'', [], [], [], [], ''0'', ''The total price is 0'', cn]), ''A'')"
  "snd (create_pdf_from_excel example_library upload_A cn None w) =
     w\<lparr>reads := Suc (Suc (reads w))\<rparr>"
proof -
  have s: "stem (name upload_A) = ''A''" by (simp add: upload_A_def stem_examples)
  have i: "invoice_fields ''A'' w =
      ((''A'', strftime_Ymd (clock w (reads w))), w\<lparr>reads := Suc (reads w)\<rparr>)"
    by (simp add: invoice_fields_plain)
  have r: "read_excel (payload upload_A) ''Sheet 1'' = Inr empty_table"
    by (simp add: upload_A_def read_excel_def)
  have i': "fst (invoice_fields (stem (name upload_A)) w) =
      (''A'', strftime_Ymd (clock w (reads w)))"
    by (simp add: s i)
  note d = draw_empty_table[OF r logo_ops_None i', where lib = example_library and cn = cn]
  have v: "snd (draw_invoice example_library upload_A cn None w) = w\<lparr>reads := Suc (reads w)\<rparr>"
    by (simp add: snd_draw_invoice_None s i)
  have c: "columns empty_table = map StrV required_columns" by (simp add: empty_table_def)
  have l: "5 \<le> length required_columns" by (simp add: required_columns_def)
  have t: "texts (calls (page_ops example_library ''A'' (strftime_Ymd (clock w (reads w)))
      empty_table (IntV 0) cn []) (FPDF ''P'' ''mm'' ''A4'')) =
      [''Invoice nr.A'', ''Date: '' @ strftime_Ymd (clock w (reads w)),
              ''Product Id'', ''Product Name'', ''Amount Purchased'', ''Price Per Unit'',
              ''Total Price'', [], [], [], [], ''0'', ''The total price is 0'', cn]"
    unfolding page_texts[OF c l logo_ops_None]
    by (simp add: required_columns_def header_label_examples iterrows_def empty_table_def
        int_str_zero)
  show "fst (create_pdf_from_excel example_library upload_A cn None w) =
     Inr (map of_char (''D:'' @ strftime_YmdHMS (clock w (Suc (reads w))) @
            concat [''Invoice nr.A'', ''Date: '' @ strftime_Ymd (clock w (reads w)),
              ''Product Id'', ''Product Name'', ''Amount Purchased'', ''Price Per Unit'',
              ''Total Price'', [], [], [], [], ''0'', ''The total price is 0'', cn]), ''A'')"
    unfolding create_of_page[OF d] v example_output t
    by (simp add: next_reading_def s)
  show "snd (create_pdf_from_excel example_library upload_A cn None w) =
     w\<lparr>reads := Suc (Suc (reads w))\<rparr>"
    by (simp add: snd_create d v)
qed

lemma example_stamps:
  "strftime_YmdHMS (example_time 1) = ''20240115103001''"
  "strftime_YmdHMS (example_time 3) = ''20240115103003''"
  "strftime_YmdHMS (example_time (Suc 0)) = ''20240115103001''"
  "strftime_YmdHMS (example_time (Suc (Suc (Suc 0)))) = ''20240115103003''"
  "strftime_Ymd (example_time n) = ''20240115''"
  by (simp_all add: strftime_YmdHMS_def strftime_Ymd_def example_time_def zero_pad_def
      nat_str.simps)

text \<open>
  C7 as stated fails: the clock shows 15 January 2024 at every reading and advances by
  a second from one reading to the next. Two conversions of \<^verbatim>\<open>A.xlsx\<close>, one after the
  other, give two documents that differ: the writer has stamped the first at 10:30:01
  and the second at 10:30:03.
\<close>

theorem convert_twice_counterexample:
  "stable_date ''20240115'' example_world \<and>
   map_of (pdf_files (fst (convert example_library [upload_A] ''PythonHow'' None example_world)))
     ''A.pdf'' =
     Some (map of_char (''D:20240115103001'' @ ''Invoice nr.ADate: 20240115'' @
       ''Product IdProduct NameAmount PurchasedPrice Per UnitTotal Price'' @
       ''0The total price is 0PythonHow'')) \<and>
   map_of (pdf_files (fst (convert example_library [upload_A] ''PythonHow'' None
       (snd (convert example_library [upload_A] ''PythonHow'' None example_world)))))
     ''A.pdf'' =
     Some (map of_char (''D:20240115103003'' @ ''Invoice nr.ADate: 20240115'' @
       ''Product IdProduct NameAmount PurchasedPrice Per UnitTotal Price'' @
       ''0The total price is 0PythonHow'')) \<and>
   fst (convert example_library [upload_A] ''PythonHow'' None
       (snd (convert example_library [upload_A] ''PythonHow'' None example_world))) \<noteq>
   fst (convert example_library [upload_A] ''PythonHow'' None example_world)"
proof -
  let ?run = "\<lambda>w. convert example_library [upload_A] ''PythonHow'' None w"
  have run: "?run w =
      (\<lparr>pdf_files = [(''A.pdf'', map of_char (''D:'' @ strftime_YmdHMS (clock w (Suc (reads w))) @
            concat [''Invoice nr.A'', ''Date: '' @ strftime_Ymd (clock w (reads w)),
              ''Product Id'', ''Product Name'', ''Amount Purchased'', ''Price Per Unit'',
              ''Total Price'', [], [], [], [], ''0'', ''The total price is 0'', ''PythonHow'']))],
         errors = []\<rparr>, w\<lparr>reads := Suc (Suc (reads w))\<rparr>)" for w
    using process_file_fst[of example_library "''PythonHow''" None upload_A
        "\<lparr>pdf_files = [], errors = []\<rparr>" w]
      process_file_snd[of example_library "''PythonHow''" None upload_A
        "\<lparr>pdf_files = [], errors = []\<rparr>" w]
    by (simp add: convert_def example_document_A prod_eq_iff)
  have 1: "map_of (pdf_files (fst (?run example_world))) ''A.pdf'' =
     Some (map of_char (''D:20240115103001'' @ ''Invoice nr.ADate: 20240115'' @
       ''Product IdProduct NameAmount PurchasedPrice Per UnitTotal Price'' @
       ''0The total price is 0PythonHow''))"
    unfolding run by (simp add: example_world_def example_stamps)
  have 2: "map_of (pdf_files (fst (?run (snd (?run example_world))))) ''A.pdf'' =
     Some (map of_char (''D:20240115103003'' @ ''Invoice nr.ADate: 20240115'' @
       ''Product IdProduct NameAmount PurchasedPrice Per UnitTotal Price'' @
       ''0The total price is 0PythonHow''))"
    unfolding run by (simp add: example_world_def example_stamps)
  have "map_of (pdf_files (fst (?run (snd (?run example_world))))) ''A.pdf'' \<noteq>
      map_of (pdf_files (fst (?run example_world))) ''A.pdf''"
    unfolding 1 2 by simp
  then have "fst (?run (snd (?run example_world))) \<noteq> fst (?run example_world)" by auto
  with 1 2 stable_example_world show ?thesis by simp
qed

text \<open>
  C7 as amended: let the clock show one date at every reading, and let a second
  \<open>convert\<close> of the same sources run in the state that the first one has left. The
  pages drawn are the same as in the first run, when there is no logo or the image
  loader takes nothing from the name of the temporary file. The documents and the
  errors are the same when, besides, the writer takes nothing from the time of writing,
  or when the clock stands still. The time of day reaches a document through the
  writer, which stamps it.
\<close>

theorem convert_twice:
  assumes "stable_date d w" and "w' = snd (convert lib fs cn logo w)"
  shows "(logo = None \<or> path_free lib \<or> frozen t w \<longrightarrow>
            pages lib fs cn logo w' = pages lib fs cn logo w) \<and>
         (clock_blind lib logo \<or> frozen t w \<longrightarrow>
            fst (convert lib fs cn logo w') = fst (convert lib fs cn logo w))"
proof -
  have c: "clock w' = clock w" by (simp add: assms(2) clock_convert)
  have "pages lib fs cn logo w' = pages lib fs cn logo w"
    if "logo = None \<or> path_free lib \<or> frozen t w"
    using c assms(1) that by (rule pages_same)
  moreover have "fst (convert lib fs cn logo w') = fst (convert lib fs cn logo w)"
    if "clock_blind lib logo \<or> frozen t w"
    unfolding convert_def using c assms(1) that by (rule fold_process_same)
  ultimately show ?thesis by blast
qed

text \<open>
  C7, witness: a clock that stands still, with a logo; the ticking clock with a library
  that takes nothing from it; and the pages under the ticking clock, without a logo.
\<close>

theorem convert_twice_witness:
  "stable_date ''20240115'' frozen_world \<and> frozen (example_time 0) frozen_world \<and>
   fst (convert example_library [upload_A, upload_no_sheet] ''PythonHow'' (Some [1, 2])
         (snd (convert example_library [upload_A, upload_no_sheet] ''PythonHow'' (Some [1, 2])
            frozen_world))) =
   fst (convert example_library [upload_A, upload_no_sheet] ''PythonHow'' (Some [1, 2])
         frozen_world) \<and>
   stable_date ''20240115'' example_world \<and> clock_blind plain_library (Some [1, 2]) \<and>
   fst (convert plain_library [upload_A, upload_no_sheet] ''PythonHow'' (Some [1, 2])
         (snd (convert plain_library [upload_A, upload_no_sheet] ''PythonHow'' (Some [1, 2])
            example_world))) =
   fst (convert plain_library [upload_A, upload_no_sheet] ''PythonHow'' (Some [1, 2])
         example_world) \<and>
   pages example_library [upload_A, upload_no_sheet] ''PythonHow'' None
     (snd (convert example_library [upload_A, upload_no_sheet] ''PythonHow'' None example_world)) =
   pages example_library [upload_A, upload_no_sheet] ''PythonHow'' None example_world"
proof -
  have b: "clock_blind plain_library (Some [1, 2])"
    by (simp add: clock_blind_def time_free_def path_free_def plain_library_def
        example_library_def)
  note 1 = convert_twice[OF stable_frozen_world refl, where t = "example_time 0"
      and lib = example_library and fs = "[upload_A, upload_no_sheet]" and cn = "''PythonHow''"
      and logo = "Some [1, 2]"]
  note 2 = convert_twice[OF stable_example_world refl, where t = "example_time 0"
      and lib = plain_library and fs = "[upload_A, upload_no_sheet]" and cn = "''PythonHow''"
      and logo = "Some [1, 2]"]
  note 3 = convert_twice[OF stable_example_world refl, where t = "example_time 0"
      and lib = example_library and fs = "[upload_A, upload_no_sheet]" and cn = "''PythonHow''"
      and logo = None]
  from 1 2 3 b stable_frozen_world frozen_frozen_world stable_example_world
  show ?thesis by simp
qed

subsection \<open>C10: a sheet without rows\<close>

lemma draw_invoice_logo_fails:
  assumes "read_excel (payload file) ''Sheet 1'' = Inr df"
    and "columns df = map StrV hs" and "5 \<le> length hs"
    and "list_all (has_fields df) (rows df)"
    and "column df ''total_price'' = Inr total_price"
    and "series_sum lib total_price = Inr total_sum"
    and "logo_ops lib (logo_path lib (snd (invoice_fields (stem (name file)) w))) logo = Inl e"
  shows "fst (draw_invoice lib file cn logo w) = Inl e"
proof -
  have t: "title_columns lib (columns df) = Inr (map (header_label lib) hs)"
    by (simp add: assms(2) title_columns_text)
  have h: "table_header lib df doc = Inr (calls (header_ops (map (header_label lib) hs)) doc)"
    for doc
    by (rule table_header_labels[OF t]) (simp add: assms(3))
  have r: "list_all (has_fields df) (iterrows lib df)"
    by (simp add: has_fields_iterrows assms(4))
  show ?thesis
    unfolding fst_draw_invoice
    by (simp add: assms(1) h table_rows_ok[OF r] total_row_ok[OF assms(5,6)] assms(7))
qed

lemma empty_sheet:
  assumes "columns df = map StrV required_columns" and "rows df = []"
  shows "5 \<le> length required_columns" "list_all (has_fields df) (rows df)"
    "column df ''total_price'' = Inr []"
  by (simp_all add: required_columns_def assms column_def)

lemma series_sum_Nil: "series_sum lib [] = Inr (IntV 0)"
  by (simp add: series_sum_def)

lemma iterrows_Nil: "rows df = [] \<Longrightarrow> iterrows lib df = []"
  by (simp add: iterrows_def)

text \<open>
  C10 as stated fails: the upload is named with the euro sign (outside Latin-1) and its
  sheet has the five columns and no rows. The name goes into the heading of the page,
  and a writer that encodes the document as Latin-1 raises, so that the conversion
  fails.
\<close>

theorem no_rows_total_zero_counterexample:
  "read_excel (payload upload_euro) ''Sheet 1'' = Inr empty_table \<and>
   columns empty_table = map StrV required_columns \<and> rows empty_table = [] \<and>
   (\<exists>page. fst (draw_invoice latin1_library upload_euro ''PythonHow'' None example_world) =
      Inr (page, [CHR 0xE2, CHR 0x82, CHR 0xAC])) \<and>
   isl (fst (create_pdf_from_excel latin1_library upload_euro ''PythonHow'' None example_world))"
proof -
  let ?nr = "[CHR 0xE2, CHR 0x82, CHR 0xAC]"
  have r: "read_excel (payload upload_euro) ''Sheet 1'' = Inr empty_table"
    by (simp add: upload_euro_def read_excel_def)
  have c: "columns empty_table = map StrV required_columns" and e: "rows empty_table = []"
    by (simp_all add: empty_table_def)
  have s: "stem (name upload_euro) = ?nr"
    using stem_examples(9) by (simp add: upload_euro_def)
  obtain date where i: "fst (invoice_fields (stem (name upload_euro)) example_world) = (?nr, date)"
    by (simp add: s invoice_fields_plain)
  let ?page = "calls (page_ops latin1_library ?nr date empty_table (IntV 0) ''PythonHow'' [])
      (FPDF ''P'' ''mm'' ''A4'')"
  from draw_empty_table[OF r logo_ops_None i, where lib = latin1_library and cn = "''PythonHow''"]
  have d: "fst (draw_invoice latin1_library upload_euro ''PythonHow'' None example_world) =
      Inr (?page, ?nr)"
    by (simp add: s)
  have "texts ?page \<noteq> [] \<and> hd (texts ?page) = ''Invoice nr.'' @ ?nr"
    by (simp add: texts_calls page_ops_def)
  then have "\<not> list_all latin1 (texts ?page)"
    by (cases "texts ?page") (simp_all add: latin1_def)
  then have o: "pdf_output latin1_library t ?page =
      Inl (UnicodeEncodeError ''ordinal not in range(256)'')" for t
    by (simp add: latin1_library_def)
  have "isl (fst (create_pdf_from_excel latin1_library upload_euro ''PythonHow'' None
      example_world))"
    unfolding create_of_page[OF d] o by simp
  with r c e d show ?thesis by blast
qed

text \<open>
  C10 as amended: for a source whose \<^verbatim>\<open>Sheet 1\<close> has the five columns and no rows, the
  page is drawn when the library reads the logo, if there is one: the heading, the five
  header cells, no body row, the total row with \<^verbatim>\<open>0\<close>, the sentence
  \<^verbatim>\<open>The total price is 0\<close> and the company line. The conversion then returns what the
  library's writer makes of this page at the next reading of the clock: the document,
  under the stem, or the writer's failure. When the library does not read the logo, the
  conversion fails with its exception. So the conversion succeeds exactly when the
  library reads the logo and writes the page.
\<close>

theorem no_rows_total_zero:
  assumes "read_excel (payload f) ''Sheet 1'' = Inr df"
    and "columns df = map StrV required_columns" and "rows df = []"
  shows "(logo_ops lib (logo_path lib (snd (invoice_fields (stem (name f)) w))) logo = Inr lops \<longrightarrow>
          (\<exists>page.
             fst (draw_invoice lib f cn logo w) = Inr (page, stem (name f)) \<and>
             ops page =
               [AddPage,
                SetFont ''Times'' 16 ''B'',
                Cell 50 8 (''Invoice nr.'' @ fst (fst (invoice_fields (stem (name f)) w))) 0 1,
                SetFont ''Times'' 16 ''B'',
                Cell 50 8 (''Date: '' @ snd (fst (invoice_fields (stem (name f)) w))) 0 1,
                SetFont ''Times'' 10 ''B'', SetTextColor 80 80 80,
                Cell 30 8 ''Product Id'' 1 0, Cell 70 8 ''Product Name'' 1 0,
                Cell 30 8 ''Amount Purchased'' 1 0, Cell 30 8 ''Price Per Unit'' 1 0,
                Cell 30 8 ''Total Price'' 1 1,
                SetFont ''Times'' 10 [], SetTextColor 80 80 80,
                Cell 30 8 [] 1 0, Cell 70 8 [] 1 0, Cell 30 8 [] 1 0, Cell 30 8 [] 1 0,
                Cell 30 8 ''0'' 1 1,
                SetFont ''Times'' 10 ''B'', Cell 30 8 ''The total price is 0'' 0 1,
                SetFont ''Times'' 10 ''B'', Cell 25 8 cn 0 0] @ lops \<and>
             fst (create_pdf_from_excel lib f cn logo w) =
               (case pdf_output lib (next_reading (snd (draw_invoice lib f cn logo w))) page of
                  Inl e \<Rightarrow> Inl (Exception (''Error processing '' @ name f @ '': '' @ str_exn e))
                | Inr pdf_bytes \<Rightarrow> Inr (pdf_bytes, stem (name f))))) \<and>
         (logo_ops lib (logo_path lib (snd (invoice_fields (stem (name f)) w))) logo = Inl e \<longrightarrow>
          fst (create_pdf_from_excel lib f cn logo w) =
            Inl (Exception (''Error processing '' @ name f @ '': '' @ str_exn e))) \<and>
         (isl (fst (create_pdf_from_excel lib f cn logo w)) \<longleftrightarrow>
          isl (logo_ops lib (logo_path lib (snd (invoice_fields (stem (name f)) w))) logo) \<or>
          (\<exists>page fn. fst (draw_invoice lib f cn logo w) = Inr (page, fn) \<and>
             isl (pdf_output lib (next_reading (snd (draw_invoice lib f cn logo w))) page)))"
proof -
  let ?nr = "fst (fst (invoice_fields (stem (name f)) w))"
  let ?date = "snd (fst (invoice_fields (stem (name f)) w))"
  let ?path = "logo_path lib (snd (invoice_fields (stem (name f)) w))"
  note sheet = empty_sheet[OF assms(2,3)] series_sum_Nil[of lib] iterrows_Nil[OF assms(3), of lib]
  have i: "fst (invoice_fields (stem (name f)) w) = (?nr, ?date)" by simp
  have drawn: "\<exists>page.
             fst (draw_invoice lib f cn logo w) = Inr (page, stem (name f)) \<and>
             ops page =
               [AddPage,
                SetFont ''Times'' 16 ''B'', Cell 50 8 (''Invoice nr.'' @ ?nr) 0 1,
                SetFont ''Times'' 16 ''B'', Cell 50 8 (''Date: '' @ ?date) 0 1,
                SetFont ''Times'' 10 ''B'', SetTextColor 80 80 80,
                Cell 30 8 ''Product Id'' 1 0, Cell 70 8 ''Product Name'' 1 0,
                Cell 30 8 ''Amount Purchased'' 1 0, Cell 30 8 ''Price Per Unit'' 1 0,
                Cell 30 8 ''Total Price'' 1 1,
                SetFont ''Times'' 10 [], SetTextColor 80 80 80,
                Cell 30 8 [] 1 0, Cell 70 8 [] 1 0, Cell 30 8 [] 1 0, Cell 30 8 [] 1 0,
                Cell 30 8 ''0'' 1 1,
                SetFont ''Times'' 10 ''B'', Cell 30 8 ''The total price is 0'' 0 1,
                SetFont ''Times'' 10 ''B'', Cell 25 8 cn 0 0] @ lops \<and>
             fst (create_pdf_from_excel lib f cn logo w) =
               (case pdf_output lib (next_reading (snd (draw_invoice lib f cn logo w))) page of
                  Inl e \<Rightarrow> Inl (Exception (''Error processing '' @ name f @ '': '' @ str_exn e))
                | Inr pdf_bytes \<Rightarrow> Inr (pdf_bytes, stem (name f)))"
    if l: "logo_ops lib ?path logo = Inr lops" for lops
  proof -
    let ?page = "calls (page_ops lib ?nr ?date df (IntV 0) cn lops) (FPDF ''P'' ''mm'' ''A4'')"
    have d: "fst (draw_invoice lib f cn logo w) = Inr (?page, stem (name f))"
      by (rule draw_invoice_ok[OF assms(1,2) sheet(1,2,3,4) l i])
    have "ops ?page =
               [AddPage,
                SetFont ''Times'' 16 ''B'', Cell 50 8 (''Invoice nr.'' @ ?nr) 0 1,
                SetFont ''Times'' 16 ''B'', Cell 50 8 (''Date: '' @ ?date) 0 1,
                SetFont ''Times'' 10 ''B'', SetTextColor 80 80 80,
                Cell 30 8 ''Product Id'' 1 0, Cell 70 8 ''Product Name'' 1 0,
                Cell 30 8 ''Amount Purchased'' 1 0, Cell 30 8 ''Price Per Unit'' 1 0,
                Cell 30 8 ''Total Price'' 1 1,
                SetFont ''Times'' 10 [], SetTextColor 80 80 80,
                Cell 30 8 [] 1 0, Cell 70 8 [] 1 0, Cell 30 8 [] 1 0, Cell 30 8 [] 1 0,
                Cell 30 8 ''0'' 1 1,
                SetFont ''Times'' 10 ''B'', Cell 30 8 ''The total price is 0'' 0 1,
                SetFont ''Times'' 10 ''B'', Cell 25 8 cn 0 0] @ lops"
      unfolding ops_calls page_ops_def assms(2) sheet(5) required_labels
      by (simp add: header_ops_def total_ops_def int_str_zero)
    with d create_of_page[OF d] show ?thesis by blast
  qed
  have failed: "fst (create_pdf_from_excel lib f cn logo w) =
            Inl (Exception (''Error processing '' @ name f @ '': '' @ str_exn e))"
    if l: "logo_ops lib ?path logo = Inl e" for e
    by (rule create_Inl)
      (simp add: draw_invoice_logo_fails[OF assms(1,2) sheet(1,2,3,4) l])
  have iff: "isl (fst (create_pdf_from_excel lib f cn logo w)) \<longleftrightarrow>
          isl (logo_ops lib ?path logo) \<or>
          (\<exists>page fn. fst (draw_invoice lib f cn logo w) = Inr (page, fn) \<and>
             isl (pdf_output lib (next_reading (snd (draw_invoice lib f cn logo w))) page))"
  proof (cases "logo_ops lib ?path logo")
    case (Inl e)
    with failed[OF Inl] show ?thesis by simp
  next
    case (Inr lops)
    from drawn[OF Inr] obtain page where
      d: "fst (draw_invoice lib f cn logo w) = Inr (page, stem (name f))" by blast
    show ?thesis unfolding create_of_page[OF d] by (simp add: Inr d split: sum.splits)
  qed
  from drawn[of lops] failed[of e] iff show ?thesis by blast
qed

text \<open>C10, witness: \<^verbatim>\<open>A.xlsx\<close>, a header and no rows, with a logo of two bytes.\<close>

theorem no_rows_total_zero_witness:
  "read_excel (payload upload_A) ''Sheet 1'' = Inr empty_table \<and>
   logo_ops example_library
     (logo_path example_library (snd (invoice_fields (stem (name upload_A)) example_world)))
     (Some [1, 2]) = Inr [Image [1, 2] 10] \<and>
   texts (fst (projr (fst (draw_invoice example_library upload_A ''PythonHow'' (Some [1, 2])
     example_world)))) =
     [''Invoice nr.A'', ''Date: 20240115'', ''Product Id'', ''Product Name'', ''Amount Purchased'',
      ''Price Per Unit'', ''Total Price'', [], [], [], [], ''0'', ''The total price is 0'',
      ''PythonHow''] \<and>
   \<not> isl (fst (create_pdf_from_excel example_library upload_A ''PythonHow'' (Some [1, 2])
     example_world))"
proof -
  have r: "read_excel (payload upload_A) ''Sheet 1'' = Inr empty_table"
    by (simp add: upload_A_def read_excel_def)
  have c: "columns empty_table = map StrV required_columns" and e: "rows empty_table = []"
    by (simp_all add: empty_table_def)
  have l: "logo_ops example_library path (Some [1, 2]) = Inr [Image [1, 2] 10]" for path
    by (simp add: logo_ops_def example_library_def)
  have t: "strftime_Ymd (clock example_world (reads example_world)) = ''20240115''"
    using stable_example_world by (simp add: stable_date_def)
  have i: "fst (invoice_fields (stem (name upload_A)) example_world) = (''A'', ''20240115'')"
    by (simp add: upload_A_def stem_examples invoice_fields_plain t)
  from no_rows_total_zero[OF r c e, where lib = example_library and logo = "Some [1, 2]"
      and lops = "[Image [1, 2] 10]" and cn = "''PythonHow''" and w = example_world] r l
  show ?thesis by (auto simp: i texts_def example_output)
qed

subsection \<open>C9: more than five columns\<close>

lemma replace_ascii: "list_all is_ascii s \<Longrightarrow> list_all is_ascii (replace CHR ''_'' CHR '' '' s)"
  by (induction s) (simp_all add: replace_def is_ascii_def)

lemma iterrows_cases:
  "(\<exists>row\<in>set (rows df). \<exists>v\<in>set row. is_text v) \<Longrightarrow> iterrows lib df = rows df"
  "(\<forall>row\<in>set (rows df). \<forall>v\<in>set row. is_int v) \<Longrightarrow> iterrows lib df = rows df"
  "(\<forall>row\<in>set (rows df). \<forall>v\<in>set row. is_number v) \<Longrightarrow>
   (\<exists>row\<in>set (rows df). \<exists>v\<in>set row. \<not> is_int v) \<Longrightarrow>
   iterrows lib df = map (map (\<lambda>v. FloatV (to_float lib v))) (rows df)"
proof -
  have n: "is_text v \<longleftrightarrow> \<not> is_number v" for v by (cases v) simp_all
  show "(\<exists>row\<in>set (rows df). \<exists>v\<in>set row. is_text v) \<Longrightarrow> iterrows lib df = rows df"
    by (simp add: iterrows_def list_ex_iff)
  show "(\<forall>row\<in>set (rows df). \<forall>v\<in>set row. is_int v) \<Longrightarrow> iterrows lib df = rows df"
    by (auto simp: iterrows_def list_ex_iff)
  show "(\<forall>row\<in>set (rows df). \<forall>v\<in>set row. is_number v) \<Longrightarrow>
   (\<exists>row\<in>set (rows df). \<exists>v\<in>set row. \<not> is_int v) \<Longrightarrow>
   iterrows lib df = map (map (\<lambda>v. FloatV (to_float lib v))) (rows df)"
    by (auto simp: iterrows_def list_ex_iff n)
qed

text \<open>
  C9 as stated fails: a sixth column whose header cell is the number 2024 makes line 88
  raise, since every label is transformed, not only the five that are shown. The
  conversion of such a source fails.
\<close>

theorem extra_columns_ignored_counterexample:
  "length (columns year_column_table) = 6 \<and>
   set (map StrV required_columns) \<subseteq> set (columns year_column_table) \<and>
   read_excel (payload upload_year_column) ''Sheet 1'' = Inr year_column_table \<and>
   fst (create_pdf_from_excel example_library upload_year_column ''PythonHow'' None example_world) =
     Inl (Exception (''Error processing Y-1.xlsx: '' @ quote ''int'' @
       '' object has no attribute '' @ quote ''replace''))"
proof -
  have "fst (create_pdf_from_excel example_library upload_year_column ''PythonHow'' None
      example_world) =
     Inl (Exception (''Error processing '' @ name upload_year_column @ '': '' @
       str_exn (AttributeError (quote ''int'' @ '' object has no attribute '' @ quote ''replace''))))"
    by (rule create_Inl) (simp add: upload_year_column_fails)
  then show ?thesis
    by (simp add: upload_year_column_def year_column_table_def required_columns_def read_excel_def)
qed

text \<open>
  C9 as amended: for a source whose \<^verbatim>\<open>Sheet 1\<close> has more than five columns, all with
  text labels and among them the five required ones, one cell per column in every row
  and a \<^verbatim>\<open>total_price\<close> column that can be summed (and a logo, if any, that the library
  reads), the page is drawn. Its cells are the heading, the labels at positions 0 to 4,
  transformed, for every row the cells under the five required labels, the total row,
  the sentence and the company name: no other label and no cell of another column. The
  conversion returns what the library's writer makes of this page. A label of ASCII
  text is transformed letter by letter; any other as Python's \<^verbatim>\<open>title\<close> does it. The
  cells of a row are printed as \<^verbatim>\<open>df.iterrows()\<close> hands them out, and here the other
  columns matter: as they are stored when some cell of the table is text or all are
  integers, and as floats when all are numbers and some cell, in whatever column, is a
  float.
\<close>

theorem extra_columns_ignored:
  assumes "read_excel (payload f) ''Sheet 1'' = Inr df"
    and "columns df = map StrV hs" and "5 < length hs"
    and "set required_columns \<subseteq> set hs"
    and "\<forall>row\<in>set (rows df). length row = length hs"
    and "series_sum lib (map (\<lambda>row. field df row ''total_price'') (rows df)) = Inr total_sum"
    and "logo_ops lib (logo_path lib (snd (invoice_fields (stem (name f)) w))) logo = Inr lops"
  shows "(\<exists>page.
           fst (draw_invoice lib f cn logo w) = Inr (page, stem (name f)) \<and>
           texts page =
             [''Invoice nr.'' @ fst (fst (invoice_fields (stem (name f)) w)),
              ''Date: '' @ snd (fst (invoice_fields (stem (name f)) w))] @
             map (header_label lib) (take 5 hs) @
             concat (map (\<lambda>row. map (\<lambda>key. py_str lib (field df row key)) required_columns)
               (iterrows lib df)) @
             [[], [], [], [], py_str lib total_sum,
              ''The total price is '' @ py_str lib total_sum, cn] \<and>
           fst (create_pdf_from_excel lib f cn logo w) =
             (case pdf_output lib (next_reading (snd (draw_invoice lib f cn logo w))) page of
                Inl e \<Rightarrow> Inl (Exception (''Error processing '' @ name f @ '': '' @ str_exn e))
              | Inr pdf_bytes \<Rightarrow> Inr (pdf_bytes, stem (name f)))) \<and>
         (\<forall>h. list_all is_ascii h \<longrightarrow>
            header_label lib h = title_from False (replace CHR ''_'' CHR '' '' h)) \<and>
         ((\<exists>row\<in>set (rows df). \<exists>v\<in>set row. is_text v) \<longrightarrow> iterrows lib df = rows df) \<and>
         ((\<forall>row\<in>set (rows df). \<forall>v\<in>set row. is_int v) \<longrightarrow> iterrows lib df = rows df) \<and>
         ((\<forall>row\<in>set (rows df). \<forall>v\<in>set row. is_number v) \<and>
          (\<exists>row\<in>set (rows df). \<exists>v\<in>set row. \<not> is_int v) \<longrightarrow>
            iterrows lib df = map (map (\<lambda>v. FloatV (to_float lib v))) (rows df))"
proof -
  from assms(3) have "5 \<le> length hs" by simp
  note page = draw_invoice_texts[OF assms(1,2) this assms(4,5,6,7), of cn]
  have label: "header_label lib h = title_from False (replace CHR ''_'' CHR '' '' h)"
    if "list_all is_ascii h" for h
    unfolding header_label_def using that by (intro title_ascii replace_ascii)
  from page label iterrows_cases[of df lib] show ?thesis by blast
qed

text \<open>
  C9, witness: a sheet with a \<^verbatim>\<open>note\<close> column of text before the five: the header shows
  \<^verbatim>\<open>Note\<close> and not \<^verbatim>\<open>Total Price\<close>, the row shows the five required cells as they are
  stored. And a sheet of numbers with a \<^verbatim>\<open>discount\<close> column of floats after the five:
  the integers of the row are printed as floats, the total as an integer.
\<close>

theorem extra_columns_ignored_witness:
  "read_excel (payload upload_note) ''Sheet 1'' = Inr note_table \<and>
   columns note_table = map StrV (''note'' # required_columns) \<and>
   texts (fst (projr (fst (draw_invoice example_library upload_note ''PythonHow'' None
     example_world)))) =
     [''Invoice nr.N'', ''Date: 7'', ''Note'', ''Product Id'', ''Product Name'', ''Amount Purchased'',
      ''Price Per Unit'', ''101'', ''pen'', ''2'', ''50'', ''100'', [], [], [], [], ''100'',
      ''The total price is 100'', ''PythonHow''] \<and>
   \<not> isl (fst (create_pdf_from_excel example_library upload_note ''PythonHow'' None example_world)) \<and>
   read_excel (payload upload_discount) ''Sheet 1'' = Inr discount_table \<and>
   columns discount_table = map StrV (required_columns @ [''discount'']) \<and>
   texts (fst (projr (fst (draw_invoice example_library upload_discount ''PythonHow'' None
     example_world)))) =
     [''Invoice nr.D'', ''Date: 3'', ''Product Id'', ''Product Name'', ''Amount Purchased'',
      ''Price Per Unit'', ''Total Price'', ''101.0'', ''7.0'', ''2.0'', ''50.0'', ''100.0'',
      [], [], [], [], ''100'', ''The total price is 100'', ''PythonHow'']"
proof -
  have r: "read_excel (payload upload_note) ''Sheet 1'' = Inr note_table"
    by (simp add: upload_note_def read_excel_def)
  have c: "columns note_table = map StrV (''note'' # required_columns)"
    by (simp add: note_table_def)
  have l: "5 < length (''note'' # required_columns)" by (simp add: required_columns_def)
  have s: "set required_columns \<subseteq> set (''note'' # required_columns)" by auto
  have w: "\<forall>row\<in>set (rows note_table). length row = length (''note'' # required_columns)"
    by (simp add: note_table_def required_columns_def)
  have fld: "field note_table [StrV ''urgent'', IntV 101, StrV ''pen'', IntV 2, IntV 50, IntV 100] key =
      (if key = ''note'' then StrV ''urgent'' else if key = ''product_id'' then IntV 101
       else if key = ''product_name'' then StrV ''pen'' else if key = ''amount_purchased'' then IntV 2
       else if key = ''price_per_unit'' then IntV 50 else if key = ''total_price'' then IntV 100
       else StrV [])" for key
    by (simp add: field_def row_get_def note_table_def required_columns_def)
  have rows: "rows note_table = [[StrV ''urgent'', IntV 101, StrV ''pen'', IntV 2, IntV 50, IntV 100]]"
    by (simp add: note_table_def)
  have it: "iterrows example_library note_table =
      [[StrV ''urgent'', IntV 101, StrV ''pen'', IntV 2, IntV 50, IntV 100]]"
    by (simp add: iterrows_def rows)
  have w100: "wrap64 100 = 100" by (simp add: wrap64_def)
  have t: "series_sum example_library (map (\<lambda>row. field note_table row ''total_price'')
      (rows note_table)) = Inr (IntV 100)"
    by (simp add: rows fld series_sum_def w100)
  have i: "fst (invoice_fields (stem (name upload_note)) example_world) = (''N'', ''7'')"
    by (simp add: upload_note_def stem_examples invoice_fields_hyphen)
  note 1 = extra_columns_ignored[OF r c l s w t logo_ops_None, where cn = "''PythonHow''"
      and w = example_world]
  have r': "read_excel (payload upload_discount) ''Sheet 1'' = Inr discount_table"
    by (simp add: upload_discount_def read_excel_def)
  have c': "columns discount_table = map StrV (required_columns @ [''discount''])"
    by (simp add: discount_table_def)
  have l': "5 < length (required_columns @ [''discount''])" by (simp add: required_columns_def)
  have s': "set required_columns \<subseteq> set (required_columns @ [''discount''])" by auto
  have w': "\<forall>row\<in>set (rows discount_table). length row = length (required_columns @ [''discount''])"
    by (simp add: discount_table_def required_columns_def)
  have rows': "rows discount_table =
      [[IntV 101, IntV 7, IntV 2, IntV 50, IntV 100, FloatV (Finite (1 / 2))]]"
    by (simp add: discount_table_def)
  have it': "iterrows example_library discount_table =
      [[FloatV (Finite 101), FloatV (Finite 7), FloatV (Finite 2), FloatV (Finite 50),
        FloatV (Finite 100), FloatV (Finite (1 / 2))]]"
    by (simp add: iterrows_def rows' example_library_def)
  have fld': "field discount_table [a, b, c, d, e, g] key =
      (if key = ''product_id'' then a else if key = ''product_name'' then b
       else if key = ''amount_purchased'' then c else if key = ''price_per_unit'' then d
       else if key = ''total_price'' then e else if key = ''discount'' then g else StrV [])"
    for a b c d e g key
    by (simp add: field_def row_get_def discount_table_def required_columns_def)
  have t': "series_sum example_library (map (\<lambda>row. field discount_table row ''total_price'')
      (rows discount_table)) = Inr (IntV 100)"
    by (simp add: rows' fld' series_sum_def w100)
  have i': "fst (invoice_fields (stem (name upload_discount)) example_world) = (''D'', ''3'')"
    using stem_strips_extension[of "''D-3''" "''xlsx''"]
    by (simp add: upload_discount_def invoice_fields_hyphen)
  note 2 = extra_columns_ignored[OF r' c' l' s' w' t' logo_ops_None, where cn = "''PythonHow''"
      and w = example_world]
  have p: "float_str example_library (Finite q) = positional q" for q
    by (simp add: example_library_def)
  from 1 r c have a: "texts (fst (projr (fst (draw_invoice example_library upload_note ''PythonHow''
      None example_world)))) =
     [''Invoice nr.N'', ''Date: 7'', ''Note'', ''Product Id'', ''Product Name'', ''Amount Purchased'',
      ''Price Per Unit'', ''101'', ''pen'', ''2'', ''50'', ''100'', [], [], [], [], ''100'',
      ''The total price is 100'', ''PythonHow'']"
    "\<not> isl (fst (create_pdf_from_excel example_library upload_note ''PythonHow'' None
      example_world))"
    by (auto simp: i it fld required_columns_def header_label_examples nat_str_examples
        example_output)
  from 2 obtain page where
    d: "fst (draw_invoice example_library upload_discount ''PythonHow'' None example_world) =
      Inr (page, stem (name upload_discount))"
    and tx: "texts page =
             [''Invoice nr.'' @ fst (fst (invoice_fields (stem (name upload_discount))
                example_world)),
              ''Date: '' @ snd (fst (invoice_fields (stem (name upload_discount)) example_world))] @
             map (header_label example_library) (take 5 (required_columns @ [''discount''])) @
             concat (map (\<lambda>row. map (\<lambda>key. py_str example_library (field discount_table row key))
               required_columns) (iterrows example_library discount_table)) @
             [[], [], [], [], py_str example_library (IntV 100),
              ''The total price is '' @ py_str example_library (IntV 100), ''PythonHow'']"
    by blast
  have b: "texts (fst (projr (fst (draw_invoice example_library upload_discount
      ''PythonHow'' None example_world)))) =
     [''Invoice nr.D'', ''Date: 3'', ''Product Id'', ''Product Name'', ''Amount Purchased'',
      ''Price Per Unit'', ''Total Price'', ''101.0'', ''7.0'', ''2.0'', ''50.0'', ''100.0'',
      [], [], [], [], ''100'', ''The total price is 100'', ''PythonHow'']"
    by (simp add: d tx i' it' fld' required_columns_def header_label_examples nat_str_examples
        p positional_examples)
  from a b r c r' c' show ?thesis by simp
qed

subsection \<open>C6: the sentence with the total\<close>

lemma example_library_laws: "sums_exactly example_library" "shortest_repr example_library"
  by (simp_all add: sums_exactly_def shortest_repr_def example_library_def comp_def)

lemma exactly_summable_invoice: "exactly_summable [100, 501 / 2, 99 / 2]"
  unfolding exactly_summable_def by (intro exI[of _ 1]) simp

lemma short_decimal_examples:
  "short_decimal 400" "short_decimal (501 / 2)" "short_decimal (99 / 2)"
  "short_decimal (1 / 4)" "short_decimal (3 / 8)"
  unfolding short_decimal_def
  by (simp; intro conjI exI[of _ 3]; simp)+

lemma series_sum_floats:
  assumes "list_all is_number col" and "\<not> list_all is_int col"
  shows "series_sum lib col = Inr (FloatV (float_sum lib (map (to_float lib) col)))"
  using assms by (auto simp: series_sum_def)

lemma series_sum_exact:
  assumes "sums_exactly lib" and "qs \<noteq> []" and "exactly_summable qs"
  shows "series_sum lib (map (\<lambda>q. FloatV (Finite q)) qs) = Inr (FloatV (Finite (sum_list qs)))"
proof -
  let ?col = "map (\<lambda>q. FloatV (Finite q)) qs"
  from assms(2) obtain q qs' where q: "qs = q # qs'" by (cases qs) auto
  have n: "list_all is_number ?col" by (simp add: list_all_iff)
  have i: "\<not> list_all is_int ?col" by (simp add: q)
  have m: "map (to_float lib) ?col = map Finite qs" by (simp add: comp_def)
  from assms(1,3) have "float_sum lib (map Finite qs) = Finite (sum_list qs)"
    by (simp add: sums_exactly_def)
  then have "float_sum lib (map (to_float lib) ?col) = Finite (sum_list qs)"
    by (simp only: m)
  with series_sum_floats[OF n i, of lib] show ?thesis by (simp only:)
qed

lemma sum_invoice_exact:
  assumes "sums_exactly lib"
  shows "series_sum lib [FloatV (Finite 100), FloatV (Finite (501 / 2)), FloatV (Finite (99 / 2))] =
           Inr (FloatV (Finite 400))"
  using series_sum_exact[OF assms _ exactly_summable_invoice] by simp

lemma repr_examples:
  assumes "shortest_repr lib"
  shows "float_str lib (Finite 400) = ''400.0''" "float_str lib (Finite (501 / 2)) = ''250.5''"
    "float_str lib (Finite (99 / 2)) = ''49.5''" "float_str lib (Finite (1 / 4)) = ''0.25''"
    "float_str lib (Finite (3 / 8)) = ''0.375''"
  using assms short_decimal_examples
  by (simp_all add: shortest_repr_def positional_examples)

text \<open>
  C6: on every page that is drawn, the cell before the company line reads
  \<^verbatim>\<open>The total price is\<close> followed by \<^verbatim>\<open>str\<close> of the sum of the \<^verbatim>\<open>total_price\<close> column.
  For the column 100.0, 250.5, 49.5 the sum is the float 400.0, since no addition of
  these floats rounds, and the cell reads \<^verbatim>\<open>The total price is 400.0\<close>, since \<^verbatim>\<open>str\<close>
  gives the shortest decimal that reads back as the float: \<^verbatim>\<open>400.0\<close>, and likewise
  \<^verbatim>\<open>250.5\<close>, \<^verbatim>\<open>49.5\<close>, \<^verbatim>\<open>0.25\<close> and \<^verbatim>\<open>0.375\<close>. An integer sum is printed without a
  point.
\<close>

theorem total_price_sentence:
  "(fst (draw_invoice lib f cn logo w) = Inr (page, fn) \<longrightarrow>
      (\<exists>df total_price total_sum before lops.
         read_excel (payload f) ''Sheet 1'' = Inr df \<and>
         column df ''total_price'' = Inr total_price \<and>
         series_sum lib total_price = Inr total_sum \<and>
         ops page =
           before @
           [SetFont ''Times'' 10 ''B'',
            Cell 30 8 (''The total price is '' @ py_str lib total_sum) 0 1,
            SetFont ''Times'' 10 ''B'', Cell 25 8 cn 0 0] @ lops \<and>
         list_all (\<lambda>op. cell_text op = []) lops)) \<and>
   (sums_exactly lib \<and> shortest_repr lib \<and>
    fst (draw_invoice lib f cn logo w) = Inr (page, fn) \<and>
    read_excel (payload f) ''Sheet 1'' = Inr df \<and>
    column df ''total_price'' =
      Inr [FloatV (Finite 100), FloatV (Finite (501 / 2)), FloatV (Finite (99 / 2))] \<longrightarrow>
      Cell 30 8 ''The total price is 400.0'' 0 1 \<in> set (ops page)) \<and>
   (sums_exactly lib \<longrightarrow>
      series_sum lib [FloatV (Finite 100), FloatV (Finite (501 / 2)), FloatV (Finite (99 / 2))] =
        Inr (FloatV (Finite 400))) \<and>
   (shortest_repr lib \<longrightarrow>
      ''The total price is '' @ py_str lib (FloatV (Finite 400)) = ''The total price is 400.0'' \<and>
      py_str lib (FloatV (Finite (501 / 2))) = ''250.5'' \<and>
      py_str lib (FloatV (Finite (99 / 2))) = ''49.5'' \<and>
      py_str lib (FloatV (Finite (1 / 4))) = ''0.25'' \<and>
      py_str lib (FloatV (Finite (3 / 8))) = ''0.375'') \<and>
   ''The total price is '' @ py_str lib (IntV 400) = ''The total price is 400''"
proof -
  have general: "\<exists>df total_price total_sum before lops.
         read_excel (payload f) ''Sheet 1'' = Inr df \<and>
         column df ''total_price'' = Inr total_price \<and>
         series_sum lib total_price = Inr total_sum \<and>
         ops page =
           before @
           [SetFont ''Times'' 10 ''B'',
            Cell 30 8 (''The total price is '' @ py_str lib total_sum) 0 1,
            SetFont ''Times'' 10 ''B'', Cell 25 8 cn 0 0] @ lops \<and>
         list_all (\<lambda>op. cell_text op = []) lops"
    if d: "fst (draw_invoice lib f cn logo w) = Inr (page, fn)"
    using d
  proof (rule draw_invoice_Inr)
    fix df hs total_price total_sum lops
    assume a: "read_excel (payload f) ''Sheet 1'' = Inr df"
      "column df ''total_price'' = Inr total_price"
      "series_sum lib total_price = Inr total_sum"
      and l: "logo_ops lib (logo_path lib (snd (invoice_fields (stem (name f)) w))) logo = Inr lops"
      and p: "page = calls (page_ops lib (fst (fst (invoice_fields (stem (name f)) w)))
                   (snd (fst (invoice_fields (stem (name f)) w))) df total_sum cn lops)
             (FPDF ''P'' ''mm'' ''A4'')"
    from l have "list_all (\<lambda>op. cell_text op = []) lops"
      by (auto simp: logo_ops_def and_then_eq_Inr split: option.splits)
    with a p show ?thesis
      by (simp only: ops_calls page_ops_tail) blast
  qed
  have example: "Cell 30 8 ''The total price is 400.0'' 0 1 \<in> set (ops page)"
    if s: "sums_exactly lib" and p: "shortest_repr lib"
      and d: "fst (draw_invoice lib f cn logo w) = Inr (page, fn)"
      and r: "read_excel (payload f) ''Sheet 1'' = Inr df"
      and c: "column df ''total_price'' =
        Inr [FloatV (Finite 100), FloatV (Finite (501 / 2)), FloatV (Finite (99 / 2))]"
  proof -
    from general[OF d] obtain df' total_price total_sum before lops where
      g: "read_excel (payload f) ''Sheet 1'' = Inr df'"
        "column df' ''total_price'' = Inr total_price"
        "series_sum lib total_price = Inr total_sum"
        "ops page =
           before @
           [SetFont ''Times'' 10 ''B'',
            Cell 30 8 (''The total price is '' @ py_str lib total_sum) 0 1,
            SetFont ''Times'' 10 ''B'', Cell 25 8 cn 0 0] @ lops"
      by blast
    from g(1) r have "df' = df" by simp
    with g(2,3) c sum_invoice_exact[OF s] have "total_sum = FloatV (Finite 400)" by auto
    with g(4) show ?thesis by (simp add: repr_examples[OF p])
  qed
  have pins: "''The total price is '' @ py_str lib (FloatV (Finite 400)) =
        ''The total price is 400.0'' \<and>
      py_str lib (FloatV (Finite (501 / 2))) = ''250.5'' \<and>
      py_str lib (FloatV (Finite (99 / 2))) = ''49.5'' \<and>
      py_str lib (FloatV (Finite (1 / 4))) = ''0.25'' \<and>
      py_str lib (FloatV (Finite (3 / 8))) = ''0.375''"
    if p: "shortest_repr lib"
    by (simp add: repr_examples[OF p])
  have int: "''The total price is '' @ py_str lib (IntV 400) = ''The total price is 400''"
    by (simp add: int_str_def nat_str.simps)
  from general example sum_invoice_exact[of lib] pins int show ?thesis by blast
qed

text \<open>
  C6, witness: the page of \<^verbatim>\<open>2024-001-20240115.xlsx\<close>, whose totals are 100.0, 250.5 and
  49.5, with the example library.
\<close>

theorem total_price_sentence_witness:
  "sums_exactly example_library \<and> shortest_repr example_library \<and>
   read_excel (payload upload_2024) ''Sheet 1'' = Inr invoice_table \<and>
   column invoice_table ''total_price'' =
     Inr [FloatV (Finite 100), FloatV (Finite (501 / 2)), FloatV (Finite (99 / 2))] \<and>
   \<not> isl (fst (draw_invoice example_library upload_2024 ''PythonHow'' None example_world)) \<and>
   Cell 30 8 ''The total price is 400.0'' 0 1 \<in>
     set (ops (fst (projr (fst (draw_invoice example_library upload_2024 ''PythonHow'' None
       example_world)))))"
proof -
  have r: "read_excel (payload upload_2024) ''Sheet 1'' = Inr invoice_table"
    by (simp add: upload_2024_def read_excel_def)
  obtain nr date where i: "fst (invoice_fields (stem (name upload_2024)) example_world) = (nr, date)"
    by (cases "fst (invoice_fields (stem (name upload_2024)) example_world)")
  from draw_invoice_table[OF r i, where cn = "''PythonHow''"]
  obtain page where d: "fst (draw_invoice example_library upload_2024 ''PythonHow'' None
      example_world) = Inr (page, stem (name upload_2024))"
    by blast
  from total_price_sentence[where lib = example_library and f = upload_2024
      and cn = "''PythonHow''" and logo = None and w = example_world and page = page
      and fn = "stem (name upload_2024)" and df = invoice_table] d r column_invoice_table
    example_library_laws
  show ?thesis by simp
qed

subsection \<open>C3: the total of a column\<close>

lemma wrap64_small: "- (2 ^ 63) \<le> i \<Longrightarrow> i < 2 ^ 63 \<Longrightarrow> wrap64 i = i"
  by (simp add: wrap64_def sint_sbintrunc' signed_take_bit_int_eq_self)

lemma series_sum_wraps:
  "series_sum lib [IntV (2 ^ 62), IntV (2 ^ 62)] = Inr (IntV (- (2 ^ 63)))"
  by (simp add: series_sum_def wrap64_def)

lemma series_sum_ints:
  assumes "list_all is_int col" and "col \<noteq> []"
  shows "series_sum lib col = Inr (IntV (wrap64 (sum_list (map int_of col))))"
  using assms by (simp add: series_sum_def)

lemma is_text_iff: "is_text v \<longleftrightarrow> \<not> is_number v"
  by (cases v) simp_all

lemma fillna_text: "is_text (fillna v) = is_text v"
  by (cases v rule: fillna.cases) simp_all

lemma fillna_id: "is_text v \<Longrightarrow> fillna v = v"
  by (cases v) simp_all

lemma series_sum_text:
  assumes "list_all is_text col" and "col \<noteq> []"
  shows "series_sum lib col = Inr (StrV (concat (map text_of col)))"
proof -
  from assms obtain a xs where c: "col = StrV a # xs"
    by (cases col; cases "hd col") auto
  have f: "map fillna col = col"
    using assms(1) by (simp add: list_all_iff map_idI fillna_id)
  from c have "\<not> list_all is_int col" "\<not> list_all is_number col" by simp_all
  with assms show ?thesis by (simp add: series_sum_def object_sum_def f)
qed

lemma series_sum_mixed:
  assumes "\<exists>v\<in>set col. is_text v" and "\<exists>v\<in>set col. is_number v"
  shows "\<exists>m. series_sum lib col = Inl (TypeError m)"
proof -
  from assms(1) obtain x xs where c: "col = x # xs" by (cases col) auto
  from assms(1) have i: "\<not> list_all is_int col" "\<not> list_all is_number col"
    by (auto simp: list_all_iff is_text_iff) (metis is_int.elims(2) is_number.simps(1))
  from assms(2) obtain v where v: "v \<in> set col" "is_number v" by blast
  from v(2) have "\<not> is_text v" by (simp add: is_text_iff)
  then have "\<not> is_text (fillna v)" by (simp add: fillna_text)
  with v(1) have t: "\<not> list_all is_text (map fillna col)"
    by (auto simp: list_all_iff)
  have "map type_name (map fillna col) = type_name (fillna x) # map type_name (map fillna xs)"
    by (simp add: c)
  with c i t show ?thesis by (simp add: series_sum_def object_sum_def del: list.map)
qed

lemma series_sum_messages:
  "series_sum lib [IntV 100, StrV ''abc''] =
     Inl (TypeError (''unsupported operand type(s) for +: '' @ quote ''int'' @ '' and '' @
       quote ''str''))"
  "series_sum lib [StrV ''abc'', FloatV NaN] =
     Inl (TypeError (''can only concatenate str (not '' @ [CHR 0x22] @ ''int'' @ [CHR 0x22] @
       '') to str''))"
  by (simp_all add: series_sum_def object_sum_def add_types_def)

text \<open>
  C3 as stated fails: a \<^verbatim>\<open>total_price\<close> column that holds the texts \<^verbatim>\<open>ten\<close> and
  \<^verbatim>\<open>twenty\<close> is not rejected. The conversion succeeds, and the page shows the
  concatenation \<^verbatim>\<open>tentwenty\<close> as the total.
\<close>

theorem total_of_column_counterexample:
  "read_excel (payload upload_text_totals) ''Sheet 1'' = Inr text_totals_table \<and>
   column text_totals_table ''total_price'' = Inr [StrV ''ten'', StrV ''twenty''] \<and>
   texts (fst (projr (fst (draw_invoice example_library upload_text_totals ''PythonHow'' None
     example_world)))) =
     [''Invoice nr.T'', ''Date: 1'', ''Product Id'', ''Product Name'', ''Amount Purchased'',
      ''Price Per Unit'', ''Total Price'', ''101'', ''pen'', ''2'', ''5'', ''ten'',
      ''102'', ''ink'', ''1'', ''20'', ''twenty'', [], [], [], [], ''tentwenty'',
      ''The total price is tentwenty'', ''PythonHow''] \<and>
   \<not> isl (fst (create_pdf_from_excel example_library upload_text_totals ''PythonHow'' None
     example_world))"
proof -
  have r: "read_excel (payload upload_text_totals) ''Sheet 1'' = Inr text_totals_table"
    by (simp add: upload_text_totals_def read_excel_def)
  have c: "columns text_totals_table = map StrV required_columns"
    by (simp add: text_totals_table_def)
  have l: "5 \<le> length required_columns" by (simp add: required_columns_def)
  have s: "set required_columns \<subseteq> set required_columns" by simp
  have w: "\<forall>row\<in>set (rows text_totals_table). length row = length required_columns"
    by (simp add: text_totals_table_def required_columns_def)
  have col: "column text_totals_table ''total_price'' = Inr [StrV ''ten'', StrV ''twenty'']"
    by (simp add: text_totals_table_def column_def required_columns_def row_get_def)
  have t: "series_sum example_library (map (\<lambda>row. field text_totals_table row ''total_price'')
      (rows text_totals_table)) = Inr (StrV ''tentwenty'')"
    by (simp add: text_totals_table_def field_def row_get_def required_columns_def
        series_sum_def object_sum_def)
  have i: "fst (invoice_fields (stem (name upload_text_totals)) example_world) = (''T'', ''1'')"
    by (simp add: upload_text_totals_def stem_examples invoice_fields_hyphen)
  have it: "iterrows example_library text_totals_table = rows text_totals_table"
    by (simp add: iterrows_def text_totals_table_def)
  have b: "concat (map (\<lambda>row. map (\<lambda>key. py_str example_library (field text_totals_table row key))
      required_columns) (rows text_totals_table)) =
      [''101'', ''pen'', ''2'', ''5'', ''ten'', ''102'', ''ink'', ''1'', ''20'', ''twenty'']"
    by (simp add: text_totals_table_def field_def row_get_def required_columns_def nat_str_examples)
  have h: "map (header_label example_library) (take 5 required_columns) =
      [''Product Id'', ''Product Name'', ''Amount Purchased'', ''Price Per Unit'', ''Total Price'']"
    by (simp add: required_columns_def header_label_examples)
  from draw_invoice_texts[OF r c l s w t logo_ops_None, where cn = "''PythonHow''"
      and w = example_world] r col
  show ?thesis by (auto simp: i it b h example_output)
qed

text \<open>
  C3 as amended: the total is the sum of the \<^verbatim>\<open>total_price\<close> column as
  \<^verbatim>\<open>Series.sum()\<close> computes it, with no coercion. It is 0 for a column without entries.
  For a column of integers it is their sum in 64 bits: the arithmetic sum when that lies
  between \<open>-2^63\<close> and \<open>2^63 - 1\<close>, and \<open>-2^63\<close> for \<open>2^62 + 2^62\<close>. For any other column of
  numbers it is the floating-point sum that numpy computes: the arithmetic sum when the
  entries are exactly summable. When the column mixes text with numbers or blanks the
  sum raises \<^verbatim>\<open>TypeError\<close>, with the message of the first addition that fails, and the
  conversion of the source fails. When every entry is text the sum is the concatenation
  of the entries, and nothing fails on its account. The total that the page shows is
  this sum.
\<close>

theorem total_of_column:
  "series_sum lib [] = Inr (IntV 0) \<and>
   (list_all is_int col \<and> col \<noteq> [] \<longrightarrow>
      series_sum lib col = Inr (IntV (wrap64 (sum_list (map int_of col))))) \<and>
   (- (2 ^ 63) \<le> i \<and> i < 2 ^ 63 \<longrightarrow> wrap64 i = i) \<and>
   series_sum lib [IntV (2 ^ 62), IntV (2 ^ 62)] = Inr (IntV (- (2 ^ 63))) \<and>
   (list_all is_number col \<and> \<not> list_all is_int col \<longrightarrow>
      series_sum lib col = Inr (FloatV (float_sum lib (map (to_float lib) col)))) \<and>
   (sums_exactly lib \<and> qs \<noteq> [] \<and> exactly_summable qs \<longrightarrow>
      series_sum lib (map (\<lambda>q. FloatV (Finite q)) qs) = Inr (FloatV (Finite (sum_list qs)))) \<and>
   ((\<exists>v\<in>set col. is_text v) \<and> (\<exists>v\<in>set col. is_number v) \<longrightarrow>
      (\<exists>m. series_sum lib col = Inl (TypeError m))) \<and>
   series_sum lib [IntV 100, StrV ''abc''] =
     Inl (TypeError (''unsupported operand type(s) for +: '' @ quote ''int'' @ '' and '' @
       quote ''str'')) \<and>
   series_sum lib [StrV ''abc'', FloatV NaN] =
     Inl (TypeError (''can only concatenate str (not '' @ [CHR 0x22] @ ''int'' @ [CHR 0x22] @
       '') to str'')) \<and>
   (list_all is_text col \<and> col \<noteq> [] \<longrightarrow>
      series_sum lib col = Inr (StrV (concat (map text_of col)))) \<and>
   (read_excel (payload f) ''Sheet 1'' = Inr df \<and> column df ''total_price'' = Inr col \<and>
    (\<exists>v\<in>set col. is_text v) \<and> (\<exists>v\<in>set col. is_number v) \<longrightarrow>
      isl (fst (create_pdf_from_excel lib f cn logo w))) \<and>
   (fst (draw_invoice lib f cn logo w) = Inr (page, fn) \<longrightarrow>
      (\<exists>df' col' total.
         read_excel (payload f) ''Sheet 1'' = Inr df' \<and> column df' ''total_price'' = Inr col' \<and>
         series_sum lib col' = Inr total \<and> Cell 30 8 (py_str lib total) 1 1 \<in> set (ops page)))"
proof -
  have shown: "\<exists>df' col' total.
         read_excel (payload f) ''Sheet 1'' = Inr df' \<and> column df' ''total_price'' = Inr col' \<and>
         series_sum lib col' = Inr total \<and> Cell 30 8 (py_str lib total) 1 1 \<in> set (ops page)"
    if d: "fst (draw_invoice lib f cn logo w) = Inr (page, fn)" for page fn
    using d
  proof (rule draw_invoice_Inr)
    fix df hs total_price total_sum lops
    assume a: "read_excel (payload f) ''Sheet 1'' = Inr df"
      "column df ''total_price'' = Inr total_price"
      "series_sum lib total_price = Inr total_sum"
      and p: "page = calls (page_ops lib (fst (fst (invoice_fields (stem (name f)) w)))
                   (snd (fst (invoice_fields (stem (name f)) w))) df total_sum cn lops)
             (FPDF ''P'' ''mm'' ''A4'')"
    have "Cell 30 8 (py_str lib total_sum) 1 1 \<in> set (ops page)"
      unfolding p ops_calls page_ops_tail by simp
    with a show ?thesis by blast
  qed
  have fails: "isl (fst (create_pdf_from_excel lib f cn logo w))"
    if r: "read_excel (payload f) ''Sheet 1'' = Inr df" and c: "column df ''total_price'' = Inr col"
      and m: "\<exists>v\<in>set col. is_text v" "\<exists>v\<in>set col. is_number v"
  proof (rule ccontr)
    assume "\<not> isl (fst (create_pdf_from_excel lib f cn logo w))"
    then obtain bs fn where "fst (create_pdf_from_excel lib f cn logo w) = Inr (bs, fn)"
      by (cases "fst (create_pdf_from_excel lib f cn logo w)") auto
    then obtain page where "fst (draw_invoice lib f cn logo w) = Inr (page, fn)"
      by (rule create_Inr)
    from shown[OF this] r c obtain total where "series_sum lib col = Inr total" by auto
    with series_sum_mixed[OF m, of lib] show False by auto
  qed
  have small: "wrap64 i = i" if "- (2 ^ 63) \<le> i" "i < 2 ^ 63"
    using that by (rule wrap64_small)
  from shown[of page fn] fails series_sum_Nil[of lib] series_sum_ints[of col lib] small
    series_sum_wraps[of lib] series_sum_floats[of col lib] series_sum_exact[of lib qs]
    series_sum_mixed[of col lib] series_sum_messages[of lib] series_sum_text[of col lib]
  show ?thesis by blast
qed

text \<open>
  C3, witness: the columns 100, 200 (integers), 100.0, 250.5, 49.5 (floats), 100 and
  \<^verbatim>\<open>abc\<close> (mixed) and \<^verbatim>\<open>ten\<close>, \<^verbatim>\<open>twenty\<close> (text).
\<close>

theorem total_of_column_witness:
  "list_all is_int [IntV 100, IntV 200] \<and>
   series_sum example_library [IntV 100, IntV 200] = Inr (IntV 300) \<and>
   sums_exactly example_library \<and> exactly_summable [100, 501 / 2, 99 / 2] \<and>
   series_sum example_library
     [FloatV (Finite 100), FloatV (Finite (501 / 2)), FloatV (Finite (99 / 2))] =
     Inr (FloatV (Finite 400)) \<and>
   read_excel (payload upload_mixed_totals) ''Sheet 1'' = Inr mixed_totals_table \<and>
   column mixed_totals_table ''total_price'' = Inr [IntV 100, StrV ''abc''] \<and>
   isl (series_sum example_library [IntV 100, StrV ''abc'']) \<and>
   isl (fst (create_pdf_from_excel example_library upload_mixed_totals ''PythonHow'' None
     example_world)) \<and>
   list_all is_text [StrV ''ten'', StrV ''twenty''] \<and>
   series_sum example_library [StrV ''ten'', StrV ''twenty''] = Inr (StrV ''tentwenty'') \<and>
   Cell 30 8 ''400.0'' 1 1 \<in>
     set (ops (fst (projr (fst (draw_invoice example_library upload_2024 ''PythonHow'' None
       example_world)))))"
proof -
  have r: "read_excel (payload upload_mixed_totals) ''Sheet 1'' = Inr mixed_totals_table"
    by (simp add: upload_mixed_totals_def read_excel_def)
  have c: "column mixed_totals_table ''total_price'' = Inr [IntV 100, StrV ''abc'']"
    by (simp add: mixed_totals_table_def column_def required_columns_def row_get_def)
  have m: "(\<exists>v\<in>set [IntV 100, StrV ''abc'']. is_text v) \<and>
      (\<exists>v\<in>set [IntV 100, StrV ''abc'']. is_number v)"
    by simp
  note mixed = total_of_column[where col = "[IntV 100, StrV ''abc'']" and f = upload_mixed_totals
      and df = mixed_totals_table and lib = example_library and cn = "''PythonHow''"
      and logo = None and w = example_world]
  from mixed r c m have 1: "isl (series_sum example_library [IntV 100, StrV ''abc''])"
    "isl (fst (create_pdf_from_excel example_library upload_mixed_totals ''PythonHow'' None
      example_world))"
    by auto
  have r2: "read_excel (payload upload_2024) ''Sheet 1'' = Inr invoice_table"
    by (simp add: upload_2024_def read_excel_def)
  obtain nr date where i: "fst (invoice_fields (stem (name upload_2024)) example_world) = (nr, date)"
    by (cases "fst (invoice_fields (stem (name upload_2024)) example_world)")
  from draw_invoice_table[OF r2 i, where cn = "''PythonHow''"]
  obtain page where d: "fst (draw_invoice example_library upload_2024 ''PythonHow'' None
      example_world) = Inr (page, stem (name upload_2024))"
    by blast
  note floats = total_of_column[where lib = example_library and f = upload_2024
      and cn = "''PythonHow''" and logo = None and w = example_world and page = page
      and fn = "stem (name upload_2024)" and qs = "[100, 501 / 2, 99 / 2]"]
  from floats example_library_laws(1) exactly_summable_invoice
  have 2: "series_sum example_library
     [FloatV (Finite 100), FloatV (Finite (501 / 2)), FloatV (Finite (99 / 2))] =
     Inr (FloatV (Finite 400))"
    by simp
  from floats d obtain df' col' total where
    g: "read_excel (payload upload_2024) ''Sheet 1'' = Inr df'"
      "column df' ''total_price'' = Inr col'"
      "series_sum example_library col' = Inr total"
      "Cell 30 8 (py_str example_library total) 1 1 \<in> set (ops page)"
    by blast
  from g(1) r2 have "df' = invoice_table" by simp
  with g(2) column_invoice_table
  have "col' = [FloatV (Finite 100), FloatV (Finite (501 / 2)), FloatV (Finite (99 / 2))]"
    by simp
  with g(3) 2 have total: "total = FloatV (Finite 400)" by simp
  have "py_str example_library (FloatV (Finite 400)) = ''400.0''"
    by (simp add: example_library_def positional_examples)
  with g(4) total have 3: "Cell 30 8 ''400.0'' 1 1 \<in> set (ops page)" by simp
  note only_text = total_of_column[where col = "[StrV ''ten'', StrV ''twenty'']"
      and lib = example_library]
  from only_text have 4: "series_sum example_library [StrV ''ten'', StrV ''twenty''] =
      Inr (StrV ''tentwenty'')" by simp
  note ints = total_of_column[where col = "[IntV 100, IntV 200]" and lib = example_library
      and i = 300]
  from ints have 5: "series_sum example_library [IntV 100, IntV 200] = Inr (IntV 300)" by simp
  from 1 2 3 4 5 r c d example_library_laws(1) exactly_summable_invoice show ?thesis by simp
qed

end
